(* ===== verification/Prelude.thy ===== *)
theory Prelude
  imports Main
begin

text \<open>
  Shared vocabulary of the development: the Python exceptions the code raises or lets
  through (the \<open>chargeamps.exceptions\<close> module, the builtin exceptions and the transport
  errors of the protocol library), the result type \<open>py_exc + 'a\<close> in which a raise is an
  \<open>Inl\<close>, and the Python builtins the sources call on strings and integers:
  \<open>str.strip\<close>, \<open>str.split\<close>, \<open>str(int)\<close> and \<open>int(str)\<close>, with their round trips.
  The generic facts are collected in \<open>py_builtin\<close>, which the component theories pass
  to \<open>simp\<close>.
\<close>

named_theorems py_builtin "evaluation and round-trip rules of the Python builtin models"

section \<open>Exceptions\<close>

text \<open>
  \<open>TriggerMessageException\<close>, \<open>ChangeConfigurationException\<close> and \<open>TimeoutException\<close>
  are the classes of \<open>chargeamps.exceptions\<close> (the module is not in the sources; its
  classes are known from their uses), each carrying its message string.
  \<open>Exception\<close> is a bare \<open>raise Exception(msg)\<close>. \<open>TransportError\<close> stands for whatever the
  protocol library raises out of a call (response timeout, closed connection, a CallError
  from the station); \<open>NotImplementedError\<close> is the library's reply to an action with no
  handler.
\<close>

datatype py_exc =
    TriggerMessageException string
  | ChangeConfigurationException string
  | TimeoutException string
  | Exception string
  | KeyError
  | IndexError
  | ValueError
  | TypeError
  | AttributeError
  | TransportError string
  | NotImplementedError string

type_synonym 'a py_result = "py_exc + 'a"

text \<open>Notification and message type names (\<open>"Heartbeat"\<close>, \<open>"BootNotification"\<close>, ...).\<close>

type_synonym msg_name = string

section \<open>\<open>str.strip\<close>\<close>

text \<open>\<open>s.strip(chars)\<close> removes the longest prefix and the longest suffix of characters
  in \<open>chars\<close>; \<open>s.strip()\<close> removes whitespace.\<close>

definition rstrip :: "(char \<Rightarrow> bool) \<Rightarrow> string \<Rightarrow> string" where
  "rstrip P s = rev (dropWhile P (rev s))"

definition py_strip :: "(char \<Rightarrow> bool) \<Rightarrow> string \<Rightarrow> string" where
  "py_strip P s = rstrip P (dropWhile P s)"

definition is_py_space :: "char \<Rightarrow> bool" where
  "is_py_space c \<longleftrightarrow> of_char c \<in> {9, 10, 11, 12, 13, 28, 29, 30, 31, 32 :: nat}"

lemma rstrip_Cons: "\<not> P x \<Longrightarrow> rstrip P (x # xs) = x # rstrip P xs"
  by (auto simp: rstrip_def dropWhile_append)

lemma rstrip_idem: "rstrip P (rstrip P s) = rstrip P s"
proof (cases "dropWhile P (rev s)")
  case Nil
  then show ?thesis by (simp add: rstrip_def)
next
  case (Cons x xs)
  then have "\<not> P x" by (metis dropWhile_eq_Cons_conv)
  with Cons show ?thesis by (simp add: rstrip_def)
qed

lemma dropWhile_rstrip: "dropWhile P (rstrip P (dropWhile P s)) = rstrip P (dropWhile P s)"
proof (cases "dropWhile P s")
  case Nil
  show ?thesis by (simp add: Nil rstrip_def)
next
  case (Cons x xs)
  then have "\<not> P x" by (metis dropWhile_eq_Cons_conv)
  with Cons show ?thesis by (simp add: rstrip_Cons)
qed

lemma py_strip_idem [py_builtin]: "py_strip P (py_strip P s) = py_strip P s"
  by (simp add: py_strip_def dropWhile_rstrip rstrip_idem)

lemma py_strip_hd [py_builtin]: "py_strip P s = c # r \<Longrightarrow> \<not> P c"
proof (cases "dropWhile P s")
  case Nil
  then show "py_strip P s = c # r \<Longrightarrow> \<not> P c" by (simp add: py_strip_def rstrip_def)
next
  case (Cons x xs)
  then have "\<not> P x" by (metis dropWhile_eq_Cons_conv)
  with Cons show "py_strip P s = c # r \<Longrightarrow> \<not> P c" by (simp add: py_strip_def rstrip_Cons)
qed

lemma py_strip_last [py_builtin]: "py_strip P s = r @ [c] \<Longrightarrow> \<not> P c"
proof -
  assume "py_strip P s = r @ [c]"
  then have "rev (py_strip P s) = c # rev r" by simp
  then have "dropWhile P (rev (dropWhile P s)) = c # rev r"
    by (simp add: py_strip_def rstrip_def)
  then show "\<not> P c" by (metis dropWhile_eq_Cons_conv)
qed

lemma py_strip_infix:
  "\<exists>a b. s = a @ py_strip P s @ b \<and> (\<forall>x\<in>set a. P x) \<and> (\<forall>x\<in>set b. P x)"
proof -
  have "dropWhile P s = rstrip P (dropWhile P s) @ rev (takeWhile P (rev (dropWhile P s)))"
    by (metis rev_append rev_rev_ident rstrip_def takeWhile_dropWhile_id)
  then have "s = takeWhile P s @ py_strip P s @ rev (takeWhile P (rev (dropWhile P s)))"
    by (metis py_strip_def takeWhile_dropWhile_id)
  then show ?thesis by (metis set_rev set_takeWhileD)
qed

lemma py_strip_id [py_builtin]: "\<forall>c\<in>set s. \<not> P c \<Longrightarrow> py_strip P s = s"
proof -
  assume none: "\<forall>c\<in>set s. \<not> P c"
  then have "dropWhile P s = s" by (cases s) auto
  moreover from none have "dropWhile P (rev s) = rev s" by (cases "rev s") auto
  ultimately show ?thesis by (simp add: py_strip_def rstrip_def)
qed

section \<open>\<open>str(int)\<close> and \<open>int(str)\<close>\<close>

definition digit_chr :: "nat \<Rightarrow> char" where
  "digit_chr n = ''0123456789'' ! n"

definition py_isdigit :: "char \<Rightarrow> bool" where
  "py_isdigit c \<longleftrightarrow> (48::nat) \<le> of_char c \<and> of_char c \<le> (57::nat)"

fun show_nat :: "nat \<Rightarrow> string" where
  "show_nat n = (if n < 10 then [digit_chr n] else show_nat (n div 10) @ [digit_chr (n mod 10)])"

declare show_nat.simps [simp del]

text \<open>\<open>str(i)\<close> for a Python \<open>int\<close>: decimal digits, a minus sign when negative.\<close>

definition py_str_int :: "int \<Rightarrow> string" where
  "py_str_int i = (if i < 0 then CHR ''-'' # show_nat (nat (- i)) else show_nat (nat i))"

definition digits_val :: "string \<Rightarrow> nat" where
  "digits_val ds = foldl (\<lambda>acc c. 10 * acc + (of_char c - 48)) 0 ds"

fun no_double_us :: "string \<Rightarrow> bool" where
  "no_double_us (a # b # r) = (\<not> (a = CHR ''_'' \<and> b = CHR ''_'') \<and> no_double_us (b # r))"
| "no_double_us _ = True"

text \<open>
  \<open>int(s)\<close> for a string: surrounding whitespace is ignored, an optional sign, then decimal
  digits, single underscores allowed between digits; anything else raises \<open>ValueError\<close>.
  (Non-ASCII digits, which Python also accepts, are not modelled.)
\<close>

definition py_int_digits :: "string \<Rightarrow> int py_result" where
  "py_int_digits ds =
     (if ds \<noteq> [] \<and> py_isdigit (hd ds) \<and> py_isdigit (last ds)
         \<and> (\<forall>c\<in>set ds. py_isdigit c \<or> c = CHR ''_'') \<and> no_double_us ds
      then Inr (int (digits_val (filter (\<lambda>c. c \<noteq> CHR ''_'') ds)))
      else Inl ValueError)"

definition py_int :: "string \<Rightarrow> int py_result" where
  "py_int s =
     (case py_strip is_py_space s of
        [] \<Rightarrow> Inl ValueError
      | c # r \<Rightarrow>
          (if c = CHR ''-'' then map_sum id uminus (py_int_digits r)
           else if c = CHR ''+'' then py_int_digits r
           else py_int_digits (c # r)))"

lemma digit_chr_ok: "n < 10 \<Longrightarrow> py_isdigit (digit_chr n) \<and> of_char (digit_chr n) - 48 = n"
proof -
  assume "n < 10"
  then have "n \<in> {0, 1, 2, 3, 4, 5, 6, 7, 8, 9}" by auto
  then show ?thesis by (auto simp: py_isdigit_def digit_chr_def)
qed

lemma show_nat_digits: "\<forall>c\<in>set (show_nat n). py_isdigit c"
  by (induction n rule: show_nat.induct) (subst show_nat.simps, auto simp: digit_chr_ok)

lemma show_nat_ne: "show_nat n \<noteq> []"
  by (subst show_nat.simps) simp

lemma show_nat_val: "digits_val (show_nat n) = n"
proof (induction n rule: show_nat.induct)
  case (1 n)
  show ?case
  proof (cases "n < 10")
    case True
    then show ?thesis by (simp add: show_nat.simps digits_val_def digit_chr_ok)
  next
    case False
    with "1" have "digits_val (show_nat (n div 10)) = n div 10" by simp
    with False show ?thesis by (simp add: show_nat.simps [of n] digits_val_def digit_chr_ok)
  qed
qed

lemma no_double_us_no_us: "CHR ''_'' \<notin> set s \<Longrightarrow> no_double_us s"
  by (induction s rule: no_double_us.induct) auto

lemma py_isdigit_not_special:
  "py_isdigit c \<Longrightarrow> c \<noteq> CHR ''_'' \<and> c \<noteq> CHR ''-'' \<and> c \<noteq> CHR ''+'' \<and> \<not> is_py_space c"
  by (auto simp: py_isdigit_def is_py_space_def)

lemma py_int_digits_show_nat: "py_int_digits (show_nat n) = Inr (int n)"
proof -
  let ?s = "show_nat n"
  have d: "\<forall>c\<in>set ?s. py_isdigit c" by (rule show_nat_digits)
  then have nu: "CHR ''_'' \<notin> set ?s" using py_isdigit_not_special by blast
  then have "filter (\<lambda>c. c \<noteq> CHR ''_'') ?s = ?s" by (simp add: filter_id_conv) blast
  with d nu show ?thesis
    by (simp add: py_int_digits_def show_nat_ne show_nat_val no_double_us_no_us)
qed

text \<open>The round trip the light-intensity property relies on: \<open>int(str(i)) == i\<close>.\<close>

theorem py_int_py_str_int [py_builtin]: "py_int (py_str_int i) = Inr i"
proof -
  have "\<forall>c\<in>set (py_str_int i). \<not> is_py_space c"
    using show_nat_digits py_isdigit_not_special
    by (auto simp: py_str_int_def is_py_space_def)
  then have sp: "py_strip is_py_space (py_str_int i) = py_str_int i"
    by (rule py_strip_id)
  show ?thesis
  proof (cases "i < 0")
    case True
    with sp show ?thesis by (simp add: py_int_def py_str_int_def py_int_digits_show_nat)
  next
    case False
    obtain c r where cr: "show_nat (nat i) = c # r"
      using show_nat_ne by (cases "show_nat (nat i)") auto
    then have "py_isdigit c" using show_nat_digits by (metis list.set_intros(1))
    then have "c \<noteq> CHR ''-'' \<and> c \<noteq> CHR ''+''" using py_isdigit_not_special by blast
    moreover have "py_int_digits (c # r) = Inr i"
      using False py_int_digits_show_nat [of "nat i"] cr by simp
    ultimately show ?thesis
      using False sp cr by (simp add: py_int_def py_str_int_def)
  qed
qed

section \<open>\<open>str.split\<close> and \<open>str.join\<close>\<close>

text \<open>\<open>s.split(sep)\<close> for a one-character separator: always at least one piece,
  empty pieces kept (\<open>"a..b".split(".") == ["a", "", "b"]\<close>).\<close>

fun py_split :: "char \<Rightarrow> string \<Rightarrow> string list" where
  "py_split c [] = [[]]"
| "py_split c (x # xs) =
     (if x = c then [] # py_split c xs
      else (let ws = py_split c xs in (x # hd ws) # tl ws))"

fun py_join :: "char \<Rightarrow> string list \<Rightarrow> string" where
  "py_join c [] = []"
| "py_join c [w] = w"
| "py_join c (w # ws) = w @ c # py_join c ws"

lemma py_split_ne [py_builtin]: "py_split c s \<noteq> []"
  by (cases s) (simp_all add: Let_def)

lemma py_join_py_split [py_builtin]: "py_join c (py_split c s) = s"
proof (induction s)
  case Nil
  then show ?case by simp
next
  case (Cons x xs)
  obtain w ws where sp: "py_split c xs = w # ws"
    using py_split_ne by (cases "py_split c xs") auto
  show ?case
  proof (cases "x = c")
    case True
    with Cons sp show ?thesis by (cases ws) simp_all
  next
    case False
    with Cons sp show ?thesis by (cases ws) simp_all
  qed
qed

lemma py_split_append_sep:
  "c \<notin> set w \<Longrightarrow> py_split c (w @ c # s) = w # py_split c s"
  by (induction w) (auto simp: Let_def)

lemma py_split_no_sep: "c \<notin> set w \<Longrightarrow> py_split c w = [w]"
  by (induction w) (auto simp: Let_def)

lemma py_split_py_join [py_builtin]:
  "ws \<noteq> [] \<Longrightarrow> \<forall>w\<in>set ws. c \<notin> set w \<Longrightarrow> py_split c (py_join c ws) = ws"
proof (induction c ws rule: py_join.induct)
  case (3 c w v vs)
  then show ?case by (simp add: py_split_append_sep)
qed (simp_all add: py_split_no_sep)

end
