(* ===== verification/Ocpp.thy ===== *)
theory Ocpp
  imports Prelude
begin

text \<open>
  The protocol vocabulary the sources exchange with the \<open>ocpp\<close> library (\<open>ocpp.v16.call\<close>
  and \<open>ocpp.v16.call_result\<close>), as far as the sources use it: the requests the central
  system sends (\<open>TriggerMessage\<close>, \<open>ChangeConfiguration\<close>, \<open>GetConfiguration\<close>), the
  notification payloads the proxy queues, and the results (the station's answers and the
  acknowledgements the handlers build). The library decodes and validates frames before
  a handler runs, so a payload reaching a handler has the fields its schema requires; the
  field values are kept as the keyword arguments the handler receives. The wall clock
  (\<open>datetime.utcnow()\<close>) is a \<open>datetime\<close> value passed to the handlers, with the two
  formatters the handlers apply to it.
\<close>

type_synonym kwargs = "(string \<times> string) list"

datatype call_payload =
    TriggerMessagePayload msg_name
  | ChangeConfigurationPayload string string
  | GetConfigurationPayload "string list"

datatype notification =
    BootNotificationPayload kwargs
  | HeartbeatPayload
  | StatusNotificationPayload kwargs

record config_entry =
  ck_key :: string
  ck_readonly :: bool
  ck_value :: "string option"

datatype call_result =
    TriggerMessageResult string
  | ChangeConfigurationResult string
  | GetConfigurationResult "config_entry list option" "string list option"
  | BootNotificationResult string nat string
  | HeartbeatResult string
  | StatusNotificationResult

text \<open>\<open>resp.status\<close>: the results with a \<open>status\<close> field; on any other result the
  attribute access raises.\<close>

fun resp_status :: "call_result \<Rightarrow> string py_result" where
  "resp_status (TriggerMessageResult st) = Inr st"
| "resp_status (ChangeConfigurationResult st) = Inr st"
| "resp_status (BootNotificationResult _ _ st) = Inr st"
| "resp_status _ = Inl AttributeError"

text \<open>\<open>resp.configuration_key\<close>: absent on other results; \<open>None\<close> when the station
  left the optional field out.\<close>

fun resp_configuration_key :: "call_result \<Rightarrow> config_entry list option py_result" where
  "resp_configuration_key (GetConfigurationResult ks _) = Inr ks"
| "resp_configuration_key _ = Inl AttributeError"

section \<open>Wall-clock values\<close>

record datetime =
  dt_year :: nat
  dt_month :: nat
  dt_day :: nat
  dt_hour :: nat
  dt_minute :: nat
  dt_second :: nat
  dt_microsecond :: nat

definition valid_datetime :: "datetime \<Rightarrow> bool" where
  "valid_datetime d \<longleftrightarrow> 1 \<le> dt_year d \<and> dt_year d \<le> 9999 \<and> 1 \<le> dt_month d \<and> dt_month d \<le> 12
     \<and> 1 \<le> dt_day d \<and> dt_day d \<le> 31 \<and> dt_hour d < 24 \<and> dt_minute d < 60
     \<and> dt_second d < 60 \<and> dt_microsecond d < 1000000"

definition pad0 :: "nat \<Rightarrow> nat \<Rightarrow> string" where
  "pad0 w n = replicate (w - length (show_nat n)) CHR ''0'' @ show_nat n"

text \<open>\<open>d.isoformat()\<close> of a naive datetime: the microseconds only when non-zero.\<close>

definition isoformat :: "datetime \<Rightarrow> string" where
  "isoformat d =
     pad0 4 (dt_year d) @ ''-'' @ pad0 2 (dt_month d) @ ''-'' @ pad0 2 (dt_day d) @ ''T''
     @ pad0 2 (dt_hour d) @ '':'' @ pad0 2 (dt_minute d) @ '':'' @ pad0 2 (dt_second d)
     @ (if dt_microsecond d = 0 then [] else ''.'' @ pad0 6 (dt_microsecond d))"

text \<open>\<open>d.strftime('%Y-%m-%dT%H:%M:%S')\<close> (glibc: \<open>%Y\<close> is not padded).\<close>

definition strftime_ymdhms :: "datetime \<Rightarrow> string" where
  "strftime_ymdhms d =
     show_nat (dt_year d) @ ''-'' @ pad0 2 (dt_month d) @ ''-'' @ pad0 2 (dt_day d) @ ''T''
     @ pad0 2 (dt_hour d) @ '':'' @ pad0 2 (dt_minute d) @ '':'' @ pad0 2 (dt_second d)"

lemma length_show_nat_bound: "n < 10 ^ k \<Longrightarrow> 0 < k \<Longrightarrow> length (show_nat n) \<le> k"
proof (induction n arbitrary: k rule: show_nat.induct)
  case (1 n)
  show ?case
  proof (cases "n < 10")
    case True
    with "1.prems" show ?thesis by (simp add: show_nat.simps)
  next
    case False
    obtain j where k: "k = Suc j" using "1.prems"(2) by (cases k) auto
    with False "1.prems"(1) have "n div 10 < 10 ^ j" by auto
    moreover from False this have "0 < j" by (cases j) auto
    ultimately have "length (show_nat (n div 10)) \<le> j" using "1.IH" False by blast
    with False k show ?thesis by (simp add: show_nat.simps [of n])
  qed
qed

lemma length_pad0: "n < 10 ^ w \<Longrightarrow> 0 < w \<Longrightarrow> length (pad0 w n) = w"
  using length_show_nat_bound [of n w] by (simp add: pad0_def)

lemma length_show_nat_ge: "10 ^ j \<le> n \<Longrightarrow> j < length (show_nat n)"
proof (induction n arbitrary: j rule: show_nat.induct)
  case (1 n)
  show ?case
  proof (cases "n < 10")
    case True
    have "j = 0"
    proof (rule ccontr)
      assume "j \<noteq> 0"
      then have "(10::nat) ^ 1 \<le> 10 ^ j" by (intro power_increasing) auto
      with "1.prems" True show False by simp
    qed
    then show ?thesis by (simp add: show_nat.simps)
  next
    case False
    show ?thesis
    proof (cases j)
      case 0
      then show ?thesis using show_nat_ne by (simp add: show_nat.simps [of n])
    next
      case (Suc i)
      with "1.prems" have "10 ^ i \<le> n div 10" by (simp add: le_div_geq)
      then have "i < length (show_nat (n div 10))" using "1.IH" False by blast
      with False Suc show ?thesis by (simp add: show_nat.simps [of n])
    qed
  qed
qed

lemma pad0_digit: "c \<in> set (pad0 w n) \<Longrightarrow> py_isdigit c"
  using show_nat_digits [of n] by (auto simp: pad0_def py_isdigit_def)

end
