(* ===== verification/ChargePointProxy.thy ===== *)
theory ChargePointProxy
  imports Ocpp "HOL-Library.Sublist"
begin

text \<open>
  The station proxy of \<open>src/chargeamps/ChargePointProxy.py\<close>: one object per connected
  charge point, holding its id, the trap set \<open>__awaited_msgs\<close>, the FIFO
  \<open>__msgq\<close> of trapped notifications and the communicator \<open>__comm\<close> through which
  outbound requests are made. The communicator is a handle of any type \<open>'c\<close>; every
  outbound operation takes the function that performs \<open>comm.blocking_call(request)\<close> on
  it, so the lemmas here hold for any communicator, and \<open>AsyncCommunicator\<close> shows which
  one the central system installs. An outbound operation returns its result together with
  the list of requests it passed to the communicator, so that "no request is sent" is a
  statement about the model.

  Sequential reading of \<open>wait_msg\<close>: with no other thread running, \<open>queue.get\<close> on an
  empty queue waits out its timeout and raises; the interleaved reading is in
  \<open>SessionInterleaving\<close>.
\<close>

record 'c cp_proxy =
  cp_id :: string
  msgq :: "notification list"
  comm :: "'c option"
  awaited_msgs :: "msg_name option set"

type_synonym 'c bridge = "'c \<Rightarrow> call_payload \<Rightarrow> call_result py_result"

type_synonym 'a call_out = "'a py_result \<times> call_payload list"

section \<open>Construction\<close>

definition new_proxy :: "string \<Rightarrow> 'c option \<Rightarrow> 'c cp_proxy" where
  "new_proxy charge_point_id c =
     \<lparr>cp_id = charge_point_id, msgq = [], comm = c, awaited_msgs = {}\<rparr>"

definition set_comm :: "'c cp_proxy \<Rightarrow> 'c \<Rightarrow> 'c cp_proxy" where
  "set_comm s c = s\<lparr>comm := Some c\<rparr>"

text \<open>\<open>self.__comm.blocking_call(request)\<close>: with no communicator installed the attribute
  lookup on \<open>None\<close> raises before anything is sent.\<close>

definition comm_call :: "'c bridge \<Rightarrow> 'c cp_proxy \<Rightarrow> call_payload \<Rightarrow> call_result call_out" where
  "comm_call bc s req = (case comm s of None \<Rightarrow> (Inl AttributeError, []) | Some c \<Rightarrow> (bc c req, [req]))"

section \<open>Inbound notification handlers\<close>

definition trap_put :: "'c cp_proxy \<Rightarrow> msg_name \<Rightarrow> notification \<Rightarrow> 'c cp_proxy" where
  "trap_put s name m = (if Some name \<in> awaited_msgs s then s\<lparr>msgq := msgq s @ [m]\<rparr> else s)"

definition on_boot_notification ::
  "'c cp_proxy \<Rightarrow> kwargs \<Rightarrow> datetime \<Rightarrow> 'c cp_proxy \<times> call_result" where
  "on_boot_notification s payload now =
     (trap_put s ''BootNotification'' (BootNotificationPayload payload),
      BootNotificationResult (isoformat now) 5 ''Accepted'')"

definition on_heartbeat :: "'c cp_proxy \<Rightarrow> datetime \<Rightarrow> 'c cp_proxy \<times> call_result" where
  "on_heartbeat s now =
     (trap_put s ''Heartbeat'' HeartbeatPayload,
      HeartbeatResult (strftime_ymdhms now @ ''Z''))"

definition on_status_notification :: "'c cp_proxy \<Rightarrow> kwargs \<Rightarrow> 'c cp_proxy \<times> call_result" where
  "on_status_notification s payload =
     (trap_put s ''StatusNotification'' (StatusNotificationPayload payload),
      StatusNotificationResult)"

text \<open>
  The routing table the \<open>@on(...)\<close> decorators build: an inbound call is handed to the
  handler registered for its action; the library answers any other action with a
  \<open>NotImplemented\<close> CallError and leaves the proxy alone.
\<close>

definition route_message ::
  "'c cp_proxy \<Rightarrow> msg_name \<Rightarrow> kwargs \<Rightarrow> datetime \<Rightarrow> 'c cp_proxy \<times> call_result py_result" where
  "route_message s action payload now =
     (if action = ''BootNotification'' then map_prod id Inr (on_boot_notification s payload now)
      else if action = ''Heartbeat'' then map_prod id Inr (on_heartbeat s now)
      else if action = ''StatusNotification'' then map_prod id Inr (on_status_notification s payload)
      else (s, Inl (NotImplementedError action)))"

section \<open>Trigger message\<close>

definition triggable_msgs :: "msg_name list" where
  "triggable_msgs = [''BootNotification'', ''DiagnosticsStatusNotification'',
     ''FirmwareStatusNotification'', ''Heartbeat'', ''MeterValues'', ''StatusNotification'']"

definition trigger_message :: "'c bridge \<Rightarrow> 'c cp_proxy \<Rightarrow> msg_name \<Rightarrow> call_result call_out" where
  "trigger_message bc s msg =
     (if msg \<notin> set triggable_msgs
      then (Inl (TriggerMessageException (''Message '' @ msg @ '' is not triggable'')), [])
      else
        (let (r, sent) = comm_call bc s (TriggerMessagePayload msg) in
         (case r of
            Inl e \<Rightarrow> (Inl e, sent)
          | Inr resp \<Rightarrow>
              (case resp_status resp of
                 Inl e \<Rightarrow> (Inl e, sent)
               | Inr st \<Rightarrow>
                   (if st \<noteq> ''Accepted''
                    then (Inl (TriggerMessageException
                            (''Message '' @ msg @ '' was rejected, reason: '' @ st)), sent)
                    else (Inr resp, sent))))))"

section \<open>The light-intensity property\<close>

text \<open>The getter: a failed call is caught and reported as \<open>-1\<close>; the indexing and the
  integer parse after the \<open>try\<close> block raise to the caller.\<close>

definition get_light_intensity :: "'c bridge \<Rightarrow> 'c cp_proxy \<Rightarrow> int call_out" where
  "get_light_intensity bc s =
     (let (r, sent) = comm_call bc s (GetConfigurationPayload [''LightIntensity'']) in
      (case r of
         Inl _ \<Rightarrow> (Inr (-1), sent)
       | Inr resp \<Rightarrow>
           (case resp_configuration_key resp of
              Inl e \<Rightarrow> (Inl e, sent)
            | Inr None \<Rightarrow> (Inl TypeError, sent)
            | Inr (Some []) \<Rightarrow> (Inl IndexError, sent)
            | Inr (Some (k # _)) \<Rightarrow>
                (case ck_value k of
                   None \<Rightarrow> (Inl KeyError, sent)
                 | Some v \<Rightarrow> (py_int v, sent)))))"

definition set_light_intensity :: "'c bridge \<Rightarrow> 'c cp_proxy \<Rightarrow> int \<Rightarrow> unit call_out" where
  "set_light_intensity bc s val =
     (if val < 0 \<or> val > 100
      then (Inl (ChangeConfigurationException ''Light intensity value out of range''), [])
      else
        (let (r, sent) = comm_call bc s (ChangeConfigurationPayload ''LightIntensity'' (py_str_int val)) in
         (case r of
            Inl e \<Rightarrow> (Inl e, sent)
          | Inr resp \<Rightarrow>
              (case resp_status resp of
                 Inl e \<Rightarrow> (Inl e, sent)
               | Inr st \<Rightarrow>
                   (if st \<noteq> ''Accepted''
                    then (Inl (ChangeConfigurationException
                            (''Unable to change light intensity. ChargePoint reported '' @ st)), sent)
                    else (Inr (), sent))))))"

section \<open>Message traps\<close>

definition add_msg_trap :: "'c cp_proxy \<Rightarrow> msg_name option \<Rightarrow> 'c cp_proxy" where
  "add_msg_trap s msg =
     (if msg \<notin> awaited_msgs s then s\<lparr>awaited_msgs := insert msg (awaited_msgs s)\<rparr> else s)"

text \<open>\<open>set.remove\<close> raises \<open>KeyError\<close> for an absent element.\<close>

definition set_remove :: "'a set \<Rightarrow> 'a \<Rightarrow> 'a set py_result" where
  "set_remove A x = (if x \<in> A then Inr (A - {x}) else Inl KeyError)"

definition wait_msg :: "'c cp_proxy \<Rightarrow> msg_name option \<Rightarrow> notification py_result \<times> 'c cp_proxy" where
  "wait_msg s msg =
     (let s1 = add_msg_trap s msg in
      (case msgq s1 of
         [] \<Rightarrow> (Inl (TimeoutException ''Wait timedout, no message received''), s1)
       | recv # rest \<Rightarrow>
           (let s2 = s1\<lparr>msgq := rest\<rparr> in
            (case set_remove (awaited_msgs s2) msg of
               Inl e \<Rightarrow> (Inl e, s2)
             | Inr A \<Rightarrow> (Inr recv, s2\<lparr>awaited_msgs := A\<rparr>)))))"

definition clear_msg_queue :: "'c cp_proxy \<Rightarrow> 'c cp_proxy" where
  "clear_msg_queue s = s\<lparr>msgq := []\<rparr>"

section \<open>Events of one proxy\<close>

text \<open>
  The operations that change a proxy, as the events of a run: an inbound call handled by
  the dispatch loop, and the caller's \<open>add_msg_trap\<close>, \<open>wait_msg\<close> and
  \<open>clear_msg_queue\<close>. A step returns the new proxy and the notifications handed to
  the caller (the value \<open>wait_msg\<close> returns).
\<close>

datatype proxy_event =
    Inbound msg_name kwargs datetime
  | AddTrap "msg_name option"
  | WaitMsg "msg_name option"
  | ClearQueue

fun proxy_step :: "'c cp_proxy \<Rightarrow> proxy_event \<Rightarrow> 'c cp_proxy \<times> notification list" where
  "proxy_step s (Inbound a p now) = (fst (route_message s a p now), [])"
| "proxy_step s (AddTrap m) = (add_msg_trap s m, [])"
| "proxy_step s (WaitMsg m) =
     (case wait_msg s m of (Inr v, s') \<Rightarrow> (s', [v]) | (Inl _, s') \<Rightarrow> (s', []))"
| "proxy_step s ClearQueue = (clear_msg_queue s, [])"

fun proxy_run :: "'c cp_proxy \<Rightarrow> proxy_event list \<Rightarrow> 'c cp_proxy \<times> notification list" where
  "proxy_run s [] = (s, [])"
| "proxy_run s (e # es) =
     (let (s', d) = proxy_step s e; (s'', d') = proxy_run s' es in (s'', d @ d'))"

subsection \<open>The abstract queue\<close>

text \<open>
  What the design promises (inbound handling, step 2): a notification of a handled type
  is pushed when its type is trapped at arrival, and nothing else is pushed.
  \<open>pushes s es\<close> is the sequence of pushes of a run, in arrival order.
\<close>

definition handled_notification :: "msg_name \<Rightarrow> kwargs \<Rightarrow> notification option" where
  "handled_notification a p =
     (if a = ''BootNotification'' then Some (BootNotificationPayload p)
      else if a = ''Heartbeat'' then Some HeartbeatPayload
      else if a = ''StatusNotification'' then Some (StatusNotificationPayload p)
      else None)"

fun pushed_by :: "'c cp_proxy \<Rightarrow> proxy_event \<Rightarrow> notification list" where
  "pushed_by s (Inbound a p now) =
     (case handled_notification a p of
        Some m \<Rightarrow> (if Some a \<in> awaited_msgs s then [m] else [])
      | None \<Rightarrow> [])"
| "pushed_by s _ = []"

fun pushes :: "'c cp_proxy \<Rightarrow> proxy_event list \<Rightarrow> notification list" where
  "pushes s [] = []"
| "pushes s (e # es) = pushed_by s e @ pushes (fst (proxy_step s e)) es"

definition notification_name :: "notification \<Rightarrow> msg_name" where
  "notification_name m = (case m of
      BootNotificationPayload _ \<Rightarrow> ''BootNotification''
    | HeartbeatPayload \<Rightarrow> ''Heartbeat''
    | StatusNotificationPayload _ \<Rightarrow> ''StatusNotification'')"

text \<open>A sample instant used by the concrete runs below.\<close>

definition now0 :: datetime where
  "now0 = \<lparr>dt_year = 2020, dt_month = 5, dt_day = 17, dt_hour = 9, dt_minute = 30,
     dt_second = 5, dt_microsecond = 0\<rparr>"

text \<open>A sample run: trap heartbeats, receive a heartbeat and a boot notification,
  wait for any message.\<close>

definition run0 :: "proxy_event list" where
  "run0 = [AddTrap (Some ''Heartbeat''), Inbound ''Heartbeat'' [] now0,
           Inbound ''BootNotification'' [] now0, WaitMsg None]"

definition run1 :: "proxy_event list" where
  "run1 = [AddTrap (Some ''Heartbeat''), Inbound ''Heartbeat'' [] now0, ClearQueue,
           Inbound ''Heartbeat'' [] now0, WaitMsg (Some ''Heartbeat'')]"

section \<open>Lemmas\<close>

lemma comm_call_Some [simp]: "comm s = Some c \<Longrightarrow> comm_call bc s req = (bc c req, [req])"
  by (simp add: comm_call_def)

lemma comm_call_None [simp]: "comm s = None \<Longrightarrow> comm_call bc s req = (Inl AttributeError, [])"
  by (simp add: comm_call_def)

lemma trap_put_fields:
  "msgq (trap_put s n m) = msgq s @ (if Some n \<in> awaited_msgs s then [m] else [])
   \<and> awaited_msgs (trap_put s n m) = awaited_msgs s
   \<and> cp_id (trap_put s n m) = cp_id s \<and> comm (trap_put s n m) = comm s"
  by (simp add: trap_put_def)

lemma wait_msg_empty:
  "msgq s = [] \<Longrightarrow>
   wait_msg s msg = (Inl (TimeoutException ''Wait timedout, no message received''),
                     s\<lparr>awaited_msgs := insert msg (awaited_msgs s)\<rparr>)"
  by (auto simp: wait_msg_def add_msg_trap_def insert_absorb)

lemma wait_msg_head:
  "msgq s = m # q \<Longrightarrow>
   wait_msg s msg = (Inr m, s\<lparr>msgq := q, awaited_msgs := awaited_msgs s - {msg}\<rparr>)"
  by (simp add: wait_msg_def add_msg_trap_def set_remove_def)

lemma action_cases:
  obtains "a = ''BootNotification''" | "a = ''Heartbeat''" | "a = ''StatusNotification''"
    | "handled_notification a p = None"
proof -
  consider "a = ''BootNotification''" | "a = ''Heartbeat''" | "a = ''StatusNotification''"
    | "a \<noteq> ''BootNotification'' \<and> a \<noteq> ''Heartbeat'' \<and> a \<noteq> ''StatusNotification''"
    by blast
  then show thesis using that by cases (simp_all add: handled_notification_def)
qed

lemma route_message_fields:
  "msgq (fst (route_message s a p now)) = msgq s @ pushed_by s (Inbound a p now)
   \<and> awaited_msgs (fst (route_message s a p now)) = awaited_msgs s
   \<and> cp_id (fst (route_message s a p now)) = cp_id s
   \<and> comm (fst (route_message s a p now)) = comm s"
proof (cases rule: action_cases [where a = a and p = p])
  case 1
  then show ?thesis
    by (simp add: route_message_def on_boot_notification_def trap_put_fields handled_notification_def)
next
  case 2
  then show ?thesis
    by (simp add: route_message_def on_heartbeat_def trap_put_fields handled_notification_def)
next
  case 3
  then show ?thesis
    by (simp add: route_message_def on_status_notification_def trap_put_fields
        handled_notification_def)
next
  case 4
  then show ?thesis
    by (simp add: route_message_def handled_notification_def split: if_splits)
qed

lemma proxy_step_exact:
  assumes "e \<noteq> ClearQueue" "proxy_step s e = (s', d)"
  shows "d @ msgq s' = msgq s @ pushed_by s e"
proof (cases e)
  case (Inbound a p now)
  with assms show ?thesis using route_message_fields [of s a p now] by auto
next
  case (WaitMsg m)
  with assms show ?thesis by (cases "msgq s") (auto simp: wait_msg_empty wait_msg_head)
qed (use assms in \<open>auto simp: add_msg_trap_def\<close>)

lemma proxy_step_subseq:
  assumes "proxy_step s e = (s', d)"
  shows "subseq (d @ msgq s') (msgq s @ pushed_by s e)"
proof (cases "e = ClearQueue")
  case True
  with assms show ?thesis by (auto simp: clear_msg_queue_def)
next
  case False
  with assms show ?thesis using proxy_step_exact by (metis subseq_order.refl)
qed

lemma proxy_step_suffix:
  assumes "proxy_step s e = (s', d)"
  shows "suffix (msgq s') (msgq s @ pushed_by s e)"
proof (cases "e = ClearQueue")
  case True
  with assms show ?thesis by (auto simp: clear_msg_queue_def)
next
  case False
  with assms show ?thesis using proxy_step_exact by (metis suffix_def)
qed

lemma proxy_run_Cons_split:
  assumes "proxy_run s (e # es) = (s', d)"
  obtains s1 d1 d2 where "proxy_step s e = (s1, d1)" "proxy_run s1 es = (s', d2)" "d = d1 @ d2"
    "pushes s (e # es) = pushed_by s e @ pushes s1 es"
  using assms by (cases "proxy_step s e", cases "proxy_run (fst (proxy_step s e)) es") auto

section \<open>Properties\<close>

subsection \<open>Trigger message\<close>

text \<open>C1: a message type outside the fixed allow-list is refused with
  \<open>TriggerMessageException\<close> before any request is passed to the communicator.\<close>

theorem trigger_message_unsupported:
  "msg \<notin> set triggable_msgs \<Longrightarrow>
   trigger_message bc s msg =
     (Inl (TriggerMessageException (''Message '' @ msg @ '' is not triggable'')), [])"
  by (simp add: trigger_message_def)

theorem trigger_message_unsupported_witness:
  "''StopTransaction'' \<notin> set triggable_msgs \<and>
   trigger_message (\<lambda>_ _. Inr (TriggerMessageResult ''Accepted'')) (new_proxy ''CP1'' (Some ()))
     ''StopTransaction''
   = (Inl (TriggerMessageException ''Message StopTransaction is not triggable''), [])"
  using trigger_message_unsupported [of "''StopTransaction''"
      "\<lambda>_ _. Inr (TriggerMessageResult ''Accepted'')" "new_proxy ''CP1'' (Some ())"]
  by (simp add: triggable_msgs_def)

text \<open>C2: for an allowed message type, exactly one \<open>TriggerMessage\<close> request naming the
  type is sent, and when the station accepts, its response is returned.\<close>

theorem trigger_message_accepted:
  assumes "msg \<in> set triggable_msgs" "comm s = Some c"
    "bc c (TriggerMessagePayload msg) = Inr resp" "resp_status resp = Inr ''Accepted''"
  shows "trigger_message bc s msg = (Inr resp, [TriggerMessagePayload msg])"
  using assms by (simp add: trigger_message_def)

theorem trigger_message_accepted_witness:
  "trigger_message (\<lambda>_ _. Inr (TriggerMessageResult ''Accepted'')) (new_proxy ''CP1'' (Some ()))
     ''Heartbeat''
   = (Inr (TriggerMessageResult ''Accepted''), [TriggerMessagePayload ''Heartbeat''])"
  by (rule trigger_message_accepted) (simp_all add: triggable_msgs_def new_proxy_def)

text \<open>C3: when the station answers an allowed trigger with any status but
  \<open>Accepted\<close>, the call fails with \<open>TriggerMessageException\<close> carrying the reported
  status, after the one request was sent.\<close>

theorem trigger_message_rejected:
  assumes "msg \<in> set triggable_msgs" "comm s = Some c"
    "bc c (TriggerMessagePayload msg) = Inr resp" "resp_status resp = Inr st"
    "st \<noteq> ''Accepted''"
  shows "trigger_message bc s msg =
    (Inl (TriggerMessageException (''Message '' @ msg @ '' was rejected, reason: '' @ st)),
     [TriggerMessagePayload msg])"
  using assms by (simp add: trigger_message_def)

theorem trigger_message_rejected_witness:
  "trigger_message (\<lambda>_ _. Inr (TriggerMessageResult ''Rejected'')) (new_proxy ''CP1'' (Some ()))
     ''Heartbeat''
   = (Inl (TriggerMessageException ''Message Heartbeat was rejected, reason: Rejected''),
      [TriggerMessagePayload ''Heartbeat''])"
  using trigger_message_rejected [of "''Heartbeat''" "new_proxy ''CP1'' (Some ())" "()"
      "\<lambda>_ _. Inr (TriggerMessageResult ''Rejected'')" "TriggerMessageResult ''Rejected''"
      "''Rejected''"]
  by (simp add: triggable_msgs_def new_proxy_def)

subsection \<open>Light intensity\<close>

text \<open>C4: a light-intensity value below 0 or above 100 is refused with
  \<open>ChangeConfigurationException\<close> and no request is sent.\<close>

theorem set_light_intensity_out_of_range:
  "val < 0 \<or> 100 < val \<Longrightarrow>
   set_light_intensity bc s val =
     (Inl (ChangeConfigurationException ''Light intensity value out of range''), [])"
  by (simp add: set_light_intensity_def)

theorem set_light_intensity_out_of_range_witness:
  "set_light_intensity (\<lambda>_ _. Inr (ChangeConfigurationResult ''Accepted''))
     (new_proxy ''CP1'' (Some ())) 110
   = (Inl (ChangeConfigurationException ''Light intensity value out of range''), [])"
  using set_light_intensity_out_of_range [of 110] by simp

text \<open>C5: a value in [0, 100] is sent as one \<open>ChangeConfiguration\<close> request with key
  \<open>LightIntensity\<close> and the decimal string of the value; the setter succeeds exactly when
  the station answers \<open>Accepted\<close> and raises \<open>ChangeConfigurationException\<close> with the
  reported status otherwise.\<close>

theorem set_light_intensity_in_range:
  assumes "0 \<le> val" "val \<le> 100" "comm s = Some c"
    "bc c (ChangeConfigurationPayload ''LightIntensity'' (py_str_int val)) = Inr resp"
    "resp_status resp = Inr st"
  shows "set_light_intensity bc s val =
    (if st = ''Accepted'' then Inr ()
     else Inl (ChangeConfigurationException
            (''Unable to change light intensity. ChargePoint reported '' @ st)),
     [ChangeConfigurationPayload ''LightIntensity'' (py_str_int val)])"
  using assms by (simp add: set_light_intensity_def)

theorem set_light_intensity_in_range_witness:
  "set_light_intensity (\<lambda>_ _. Inr (ChangeConfigurationResult ''Accepted''))
     (new_proxy ''CP1'' (Some ())) 90
   = (Inr (), [ChangeConfigurationPayload ''LightIntensity'' ''90''])"
proof -
  have "py_str_int 90 = ''90''" by (simp add: py_str_int_def show_nat.simps digit_chr_def)
  then show ?thesis
    using set_light_intensity_in_range [of 90 "new_proxy ''CP1'' (Some ())" "()"
        "\<lambda>_ _. Inr (ChangeConfigurationResult ''Accepted'')"
        "ChangeConfigurationResult ''Accepted''" "''Accepted''"]
    by (simp add: new_proxy_def)
qed

text \<open>C6: when the station reports the decimal string of a value \<open>v\<close> in the first
  configuration entry, the getter sends one \<open>GetConfiguration\<close> request for
  \<open>LightIntensity\<close> and returns \<open>v\<close> (the \<open>str\<close>/\<open>int\<close> round trip).\<close>

theorem get_light_intensity_reads_back:
  assumes "comm s = Some c"
    "bc c (GetConfigurationPayload [''LightIntensity'']) =
       Inr (GetConfigurationResult (Some (k # ks)) u)"
    "ck_value k = Some (py_str_int v)"
  shows "get_light_intensity bc s = (Inr v, [GetConfigurationPayload [''LightIntensity'']])"
  using assms by (simp add: get_light_intensity_def py_int_py_str_int)

theorem get_light_intensity_reads_back_witness:
  "get_light_intensity
     (\<lambda>_ _. Inr (GetConfigurationResult
        (Some [\<lparr>ck_key = ''LightIntensity'', ck_readonly = False, ck_value = Some (py_str_int 70)\<rparr>])
        None))
     (new_proxy ''CP1'' (Some ()))
   = (Inr 70, [GetConfigurationPayload [''LightIntensity'']])"
  using get_light_intensity_reads_back [of "new_proxy ''CP1'' (Some ())" "()"
      "\<lambda>_ _. Inr (GetConfigurationResult
        (Some [\<lparr>ck_key = ''LightIntensity'', ck_readonly = False, ck_value = Some (py_str_int 70)\<rparr>])
        None)"
      "\<lparr>ck_key = ''LightIntensity'', ck_readonly = False, ck_value = Some (py_str_int 70)\<rparr>"
      "[]" None 70]
  by (simp add: new_proxy_def)

text \<open>C7: when the call itself fails (no communicator, or the call raises), the getter
  does not raise: it reports \<open>-1\<close>.\<close>

theorem get_light_intensity_call_failed:
  "fst (comm_call bc s (GetConfigurationPayload [''LightIntensity''])) = Inl e \<Longrightarrow>
   fst (get_light_intensity bc s) = Inr (-1)"
  by (cases "comm_call bc s (GetConfigurationPayload [''LightIntensity''])")
    (simp add: get_light_intensity_def)

theorem get_light_intensity_call_failed_witness:
  "fst (get_light_intensity (\<lambda>_ _. Inl (TransportError ''timeout'')) (new_proxy ''CP1'' (Some ())))
   = Inr (-1)"
  using get_light_intensity_call_failed [of "\<lambda>_ _. Inl (TransportError ''timeout'')"
      "new_proxy ''CP1'' (Some ())" "TransportError ''timeout''"]
  by (simp add: new_proxy_def)

subsection \<open>Inbound dispatch\<close>

text \<open>C8: a notification of a handled type whose name is trapped is appended to the
  queue, and the trap set is left as it was.\<close>

theorem route_message_trapped:
  assumes "Some a \<in> awaited_msgs s" "handled_notification a p = Some m"
  shows "msgq (fst (route_message s a p now)) = msgq s @ [m]
    \<and> awaited_msgs (fst (route_message s a p now)) = awaited_msgs s"
  using assms route_message_fields [of s a p now] by simp

theorem route_message_trapped_witness:
  "msgq (fst (route_message (add_msg_trap (new_proxy ''CP1'' (Some ())) (Some ''Heartbeat''))
      ''Heartbeat'' [] now0)) = [HeartbeatPayload]"
  using route_message_trapped [of "''Heartbeat''" "add_msg_trap (new_proxy ''CP1'' (Some ())) (Some ''Heartbeat'')"
      "[]" HeartbeatPayload now0]
  by (simp add: add_msg_trap_def new_proxy_def handled_notification_def)

text \<open>An inbound call whose action is not trapped leaves the proxy unchanged:
  nothing is queued and no trap changes, whatever the action.\<close>

theorem route_message_untrapped:
  "Some a \<notin> awaited_msgs s \<Longrightarrow> fst (route_message s a p now) = s"
  by (cases rule: action_cases [where a = a and p = p])
    (simp_all add: route_message_def on_boot_notification_def on_heartbeat_def
      on_status_notification_def trap_put_def handled_notification_def split: if_splits)

theorem route_message_untrapped_witness:
  "fst (route_message (new_proxy ''CP1'' (Some ())) ''Heartbeat'' [] now0) = new_proxy ''CP1'' (Some ())"
  using route_message_untrapped [of "''Heartbeat''" "new_proxy ''CP1'' (Some ())"]
  by (simp add: new_proxy_def)

subsection \<open>Traps and waits\<close>

text \<open>C9: with an empty queue, trapping \<open>Heartbeat\<close>, receiving a heartbeat and waiting
  for it returns the heartbeat and removes the trap; a second wait with no new heartbeat
  times out.\<close>

theorem heartbeat_trap_then_wait:
  assumes "msgq s = []"
  shows "let s2 = fst (on_heartbeat (add_msg_trap s (Some ''Heartbeat'')) now);
             w1 = wait_msg s2 (Some ''Heartbeat'');
             w2 = wait_msg (snd w1) (Some ''Heartbeat'')
         in fst w1 = Inr HeartbeatPayload \<and> Some ''Heartbeat'' \<notin> awaited_msgs (snd w1)
            \<and> fst w2 = Inl (TimeoutException ''Wait timedout, no message received'')"
  using assms
  by (simp add: on_heartbeat_def trap_put_def add_msg_trap_def wait_msg_def set_remove_def Let_def)

theorem heartbeat_trap_then_wait_witness:
  "let s2 = fst (on_heartbeat (add_msg_trap (new_proxy ''CP1'' (Some ())) (Some ''Heartbeat'')) now0);
       w1 = wait_msg s2 (Some ''Heartbeat'');
       w2 = wait_msg (snd w1) (Some ''Heartbeat'')
   in fst w1 = Inr HeartbeatPayload \<and> Some ''Heartbeat'' \<notin> awaited_msgs (snd w1)
      \<and> fst w2 = Inl (TimeoutException ''Wait timedout, no message received'')"
  using heartbeat_trap_then_wait [of "new_proxy ''CP1'' (Some ())" now0]
  by (simp add: new_proxy_def)

text \<open>C10: the queue is one FIFO shared by all trapped types: a wait for type \<open>a\<close>
  returns the head of the queue even when the head is a notification of another type,
  and it removes the trap for \<open>a\<close>, not the head's.\<close>

theorem wait_msg_any_type:
  assumes "msgq s = m # q" "notification_name m \<noteq> a"
  shows "wait_msg s (Some a) =
    (Inr m, s\<lparr>msgq := q, awaited_msgs := awaited_msgs s - {Some a}\<rparr>)"
  using assms(1) by (rule wait_msg_head)

theorem wait_msg_any_type_witness:
  "fst (wait_msg ((new_proxy ''CP1'' (Some ()))\<lparr>msgq := [BootNotificationPayload []]\<rparr>) (Some ''Heartbeat''))
   = Inr (BootNotificationPayload [])"
  using wait_msg_any_type [of "(new_proxy ''CP1'' (Some ()))\<lparr>msgq := [BootNotificationPayload []]\<rparr>"
      "BootNotificationPayload []" "[]" "''Heartbeat''"]
  by (simp add: new_proxy_def notification_name_def)

text \<open>C11: a wait that times out leaves its trap armed, so a notification of that type
  arriving later is queued and is what the next wait returns, whatever type that wait
  asks for.\<close>

theorem timed_out_trap_stays_armed:
  assumes "msgq s = []"
  shows "let w1 = wait_msg s (Some ''Heartbeat'');
             s2 = fst (route_message (snd w1) ''Heartbeat'' p now);
             w3 = wait_msg s2 (Some ''BootNotification'')
         in fst w1 = Inl (TimeoutException ''Wait timedout, no message received'')
            \<and> fst w3 = Inr HeartbeatPayload"
proof -
  let ?s1 = "s\<lparr>awaited_msgs := insert (Some ''Heartbeat'') (awaited_msgs s)\<rparr>"
  have w1: "wait_msg s (Some ''Heartbeat'') =
      (Inl (TimeoutException ''Wait timedout, no message received''), ?s1)"
    using assms by (rule wait_msg_empty)
  have "msgq (fst (route_message ?s1 ''Heartbeat'' p now)) = [HeartbeatPayload]"
    using assms route_message_fields [of ?s1 "''Heartbeat''" p now]
    by (simp add: handled_notification_def)
  then show ?thesis using w1 by (simp add: wait_msg_head Let_def)
qed

theorem timed_out_trap_stays_armed_witness:
  "let w1 = wait_msg (new_proxy ''CP1'' (Some ())) (Some ''Heartbeat'');
       s2 = fst (route_message (snd w1) ''Heartbeat'' [] now0);
       w3 = wait_msg s2 (Some ''BootNotification'')
   in fst w1 = Inl (TimeoutException ''Wait timedout, no message received'')
      \<and> fst w3 = Inr HeartbeatPayload"
  using timed_out_trap_stays_armed [of "new_proxy ''CP1'' (Some ())" "[]" now0]
  by (simp add: new_proxy_def)

subsection \<open>Runs: the queue against the abstract queue\<close>

text \<open>C12: in a run without \<open>clear_msg_queue\<close>, nothing is lost or duplicated: the
  notifications handed to the caller followed by the queue left over are exactly the
  initial queue followed by everything pushed, in arrival order.\<close>

theorem proxy_run_no_loss:
  "ClearQueue \<notin> set es \<Longrightarrow> proxy_run s es = (s', d) \<Longrightarrow> d @ msgq s' = msgq s @ pushes s es"
proof (induction es arbitrary: s d)
  case Nil
  then show ?case by simp
next
  case (Cons e es)
  from Cons.prems(2) obtain s1 d1 d2 where st: "proxy_step s e = (s1, d1)"
    and rn: "proxy_run s1 es = (s', d2)" and d: "d = d1 @ d2"
    and ps: "pushes s (e # es) = pushed_by s e @ pushes s1 es"
    by (rule proxy_run_Cons_split)
  have "d2 @ msgq s' = msgq s1 @ pushes s1 es" using Cons.IH Cons.prems(1) rn by simp
  moreover have "d1 @ msgq s1 = msgq s @ pushed_by s e"
    using Cons.prems(1) st by (intro proxy_step_exact) auto
  ultimately show ?case using d ps by simp
qed

theorem proxy_run_no_loss_witness:
  "snd (proxy_run (new_proxy ''CP1'' (Some ())) run0) = [HeartbeatPayload]
   \<and> snd (proxy_run (new_proxy ''CP1'' (Some ())) run0) @ msgq (fst (proxy_run (new_proxy ''CP1'' (Some ())) run0))
     = msgq (new_proxy ''CP1'' (Some ())) @ pushes (new_proxy ''CP1'' (Some ())) run0"
  using proxy_run_no_loss [of run0 "new_proxy ''CP1'' (Some ())"
      "fst (proxy_run (new_proxy ''CP1'' (Some ())) run0)" "snd (proxy_run (new_proxy ''CP1'' (Some ())) run0)"]
  by (simp add: run0_def new_proxy_def route_message_def on_heartbeat_def on_boot_notification_def
      trap_put_def add_msg_trap_def wait_msg_def set_remove_def)

text \<open>C13: in every run, clears included, the notifications handed to the caller
  followed by the queue left over form a subsequence of the initial queue followed by the
  pushes: each pushed notification is delivered at most once, in arrival order, and
  nothing is delivered that was not pushed.\<close>

theorem proxy_run_fifo:
  "proxy_run s es = (s', d) \<Longrightarrow> subseq (d @ msgq s') (msgq s @ pushes s es)"
proof (induction es arbitrary: s d)
  case Nil
  then show ?case by simp
next
  case (Cons e es)
  from Cons.prems obtain s1 d1 d2 where st: "proxy_step s e = (s1, d1)"
    and rn: "proxy_run s1 es = (s', d2)" and d: "d = d1 @ d2"
    and ps: "pushes s (e # es) = pushed_by s e @ pushes s1 es"
    by (rule proxy_run_Cons_split)
  have "subseq (d2 @ msgq s') (msgq s1 @ pushes s1 es)" using Cons.IH rn by simp
  then have "subseq (d1 @ d2 @ msgq s') (d1 @ msgq s1 @ pushes s1 es)"
    by (simp only: subseq_append')
  moreover have "subseq (d1 @ msgq s1 @ pushes s1 es) (msgq s @ pushed_by s e @ pushes s1 es)"
    using list_emb_append_mono [OF proxy_step_subseq [OF st] subseq_order.refl] by simp
  ultimately show ?case using d ps by (metis append_assoc subseq_order.trans)
qed

theorem proxy_run_fifo_witness:
  "snd (proxy_run (new_proxy ''CP1'' (Some ())) run1) = [HeartbeatPayload]
   \<and> subseq (snd (proxy_run (new_proxy ''CP1'' (Some ())) run1)
        @ msgq (fst (proxy_run (new_proxy ''CP1'' (Some ())) run1)))
       (msgq (new_proxy ''CP1'' (Some ())) @ pushes (new_proxy ''CP1'' (Some ())) run1)"
  using proxy_run_fifo [of "new_proxy ''CP1'' (Some ())" run1
      "fst (proxy_run (new_proxy ''CP1'' (Some ())) run1)" "snd (proxy_run (new_proxy ''CP1'' (Some ())) run1)"]
  by (simp add: run1_def new_proxy_def route_message_def on_heartbeat_def clear_msg_queue_def
      trap_put_def add_msg_trap_def wait_msg_def set_remove_def)

text \<open>C14: the queue is always a suffix of the initial queue followed by the pushes of
  the run: it only ever grows at the back and shrinks at the front (or empties).\<close>

theorem proxy_run_suffix:
  "proxy_run s es = (s', d) \<Longrightarrow> suffix (msgq s') (msgq s @ pushes s es)"
proof (induction es arbitrary: s d)
  case Nil
  then show ?case by simp
next
  case (Cons e es)
  from Cons.prems obtain s1 d1 d2 where st: "proxy_step s e = (s1, d1)"
    and rn: "proxy_run s1 es = (s', d2)"
    and ps: "pushes s (e # es) = pushed_by s e @ pushes s1 es"
    by (rule proxy_run_Cons_split)
  have "suffix (msgq s') (msgq s1 @ pushes s1 es)" using Cons.IH rn by simp
  moreover have "suffix (msgq s1 @ pushes s1 es) (msgq s @ pushed_by s e @ pushes s1 es)"
    using proxy_step_suffix [OF st] by (auto simp: suffix_def)
  ultimately show ?case using ps by (metis append_assoc suffix_order.trans)
qed

theorem proxy_run_suffix_witness:
  "msgq (fst (proxy_run (new_proxy ''CP1'' (Some ())) (take 4 run1))) = [HeartbeatPayload]
   \<and> suffix (msgq (fst (proxy_run (new_proxy ''CP1'' (Some ())) (take 4 run1))))
       (msgq (new_proxy ''CP1'' (Some ())) @ pushes (new_proxy ''CP1'' (Some ())) (take 4 run1))"
  using proxy_run_suffix [of "new_proxy ''CP1'' (Some ())" "take 4 run1"
      "fst (proxy_run (new_proxy ''CP1'' (Some ())) (take 4 run1))"
      "snd (proxy_run (new_proxy ''CP1'' (Some ())) (take 4 run1))"]
  by (simp add: run1_def new_proxy_def route_message_def on_heartbeat_def clear_msg_queue_def
      trap_put_def add_msg_trap_def)

subsection \<open>Acknowledgements\<close>

text \<open>C19: for a wall-clock instant with a four-digit year, the heartbeat acknowledgement
  carries a 20-character timestamp ending in the UTC designator \<open>Z\<close>.\<close>

theorem heartbeat_ack_format:
  assumes "valid_datetime now" "1000 \<le> dt_year now"
  shows "\<exists>ts. snd (on_heartbeat s now) = HeartbeatResult ts \<and> length ts = 20 \<and> last ts = CHR ''Z''"
proof -
  have y: "length (show_nat (dt_year now)) = 4"
    using assms length_show_nat_ge [of 3 "dt_year now"] length_show_nat_bound [of "dt_year now" 4]
    by (simp add: valid_datetime_def)
  have "length (strftime_ymdhms now) = 19"
    using assms y by (simp add: strftime_ymdhms_def valid_datetime_def length_pad0)
  then show ?thesis by (simp add: on_heartbeat_def)
qed

theorem heartbeat_ack_format_witness:
  "\<exists>ts. snd (on_heartbeat (new_proxy ''CP1'' (Some ())) now0) = HeartbeatResult ts \<and> length ts = 20 \<and> last ts = CHR ''Z''"
  by (rule heartbeat_ack_format) (simp_all add: now0_def valid_datetime_def)

text \<open>The boot acknowledgement has interval 5 and status \<open>Accepted\<close>; its
  timestamp is \<open>isoformat()\<close> of the naive UTC instant: 19 characters, or 26 when the
  microseconds are non-zero, and never the designator \<open>Z\<close>.\<close>

theorem boot_ack_format:
  assumes "valid_datetime now"
  shows "snd (on_boot_notification s p now) = BootNotificationResult (isoformat now) 5 ''Accepted''
    \<and> length (isoformat now) = (if dt_microsecond now = 0 then 19 else 26)
    \<and> CHR ''Z'' \<notin> set (isoformat now)"
proof -
  have "length (isoformat now) = (if dt_microsecond now = 0 then 19 else 26)"
    using assms by (simp add: isoformat_def valid_datetime_def length_pad0)
  moreover have "CHR ''Z'' \<notin> set (isoformat now)"
    by (auto simp: isoformat_def py_isdigit_def dest!: pad0_digit)
  ultimately show ?thesis by (simp add: on_boot_notification_def)
qed

theorem boot_ack_format_witness:
  "snd (on_boot_notification (new_proxy ''CP1'' (Some ())) [] now0) = BootNotificationResult ''2020-05-17T09:30:05'' 5 ''Accepted''"
proof -
  have "valid_datetime now0" by (simp add: now0_def valid_datetime_def)
  then have "snd (on_boot_notification (new_proxy ''CP1'' (Some ())) [] now0) = BootNotificationResult (isoformat now0) 5 ''Accepted''"
    using boot_ack_format by blast
  moreover have "isoformat now0 = ''2020-05-17T09:30:05''"
    by (simp add: isoformat_def now0_def pad0_def show_nat.simps digit_chr_def)
  ultimately show ?thesis by simp
qed
end
