(* ===== verification/AsyncCommunicator.thy ===== *)
theory AsyncCommunicator
  imports ChargePointProxy
begin

text \<open>
  The call bridge of \<open>src/chargeamps/AsyncCommunicator.py\<close>. \<open>blocking_call(req)\<close>
  schedules the coroutine \<open>call(req)\<close> on the connection's event loop
  (\<open>asyncio.run_coroutine_threadsafe\<close>), polls \<open>task.done()\<close> every 0.1 s, and returns
  \<open>task.result()\<close>, which re-raises the coroutine's exception. The event loop is the
  environment: \<open>ac_call\<close> gives, for a request, the future the loop produces, observed as
  \<open>fut_done i\<close> (what \<open>done()\<close> answers at the \<open>i\<close>-th poll) and its outcome. The
  polling loop may run forever, so it is a \<open>partial_function (option)\<close> whose \<open>None\<close> is
  the caller blocked for good; the bridge keeps no state between calls.
\<close>

record future =
  fut_done :: "nat \<Rightarrow> bool"
  fut_outcome :: "call_result py_result"

record async_communicator =
  ac_call :: "call_payload \<Rightarrow> future"

text \<open>\<open>while not task.done(): time.sleep(0.1)\<close>: the number of the poll that saw the
  task done.\<close>

partial_function (option) poll_until_done :: "(nat \<Rightarrow> bool) \<Rightarrow> nat \<Rightarrow> nat option" where
  "poll_until_done done i = (if done i then Some i else poll_until_done done (Suc i))"

definition blocking_call :: "async_communicator \<Rightarrow> call_payload \<Rightarrow> call_result py_result option" where
  "blocking_call ac req =
     (let task = ac_call ac req in
      map_option (\<lambda>_. fut_outcome task) (poll_until_done (fut_done task) 0))"

text \<open>The bridge the proxy uses when every scheduled call completes: the outcome of the
  call's future.\<close>

definition ac_bridge :: "async_communicator bridge" where
  "ac_bridge ac req = fut_outcome (ac_call ac req)"

definition sample_ac :: "nat \<Rightarrow> call_result py_result \<Rightarrow> async_communicator" where
  "sample_ac n r = \<lparr>ac_call = (\<lambda>_. \<lparr>fut_done = (\<lambda>k. n \<le> k), fut_outcome = r\<rparr>)\<rparr>"

section \<open>Lemmas\<close>

lemma poll_until_done_first:
  assumes "done n" "i \<le> n"
  shows "\<exists>m. i \<le> m \<and> m \<le> n \<and> done m \<and> (\<forall>k. i \<le> k \<and> k < m \<longrightarrow> \<not> done k)
      \<and> poll_until_done done i = Some m"
  using assms(2)
proof (induction i rule: inc_induct)
  case base
  with assms(1) show ?case by (subst poll_until_done.simps) auto
next
  case (step i)
  show ?case
  proof (cases "done i")
    case True
    with step.hyps show ?thesis by (subst poll_until_done.simps) auto
  next
    case False
    from step.IH obtain m where
      m: "Suc i \<le> m" "m \<le> n" "done m" "\<forall>k. Suc i \<le> k \<and> k < m \<longrightarrow> \<not> done k"
         "poll_until_done done (Suc i) = Some m"
      by blast
    have "\<forall>k. i \<le> k \<and> k < m \<longrightarrow> \<not> done k"
      using m(4) False by (metis le_eq_less_or_eq Suc_le_eq)
    with False m show ?thesis by (subst poll_until_done.simps) auto
  qed
qed

lemma poll_until_done_Some:
  assumes "poll_until_done done i = Some m"
  shows "i \<le> m \<and> done m"
proof (rule poll_until_done.raw_induct [where P = "\<lambda>done i m. i \<le> m \<and> done m", OF _ assms])
  fix f d j r
  assume IH: "\<And>d j r. f d j = Some r \<Longrightarrow> j \<le> r \<and> d r"
    and eq: "(if d j then Some j else f d (Suc j)) = Some r"
  show "j \<le> r \<and> d r"
  proof (cases "d j")
    case True
    with eq show ?thesis by simp
  next
    case False
    with eq have "f d (Suc j) = Some r" by simp
    then have "Suc j \<le> r \<and> d r" by (rule IH)
    then show ?thesis by simp
  qed
qed

lemma poll_until_done_never:
  assumes "\<forall>k\<ge>i. \<not> done k"
  shows "poll_until_done done i = None"
proof (cases "poll_until_done done i")
  case (Some m)
  then have "i \<le> m \<and> done m" by (rule poll_until_done_Some)
  with assms show ?thesis by blast
qed

lemma blocking_call_done:
  "fut_done (ac_call ac req) n \<Longrightarrow> blocking_call ac req = Some (ac_bridge ac req)"
  using poll_until_done_first [of "fut_done (ac_call ac req)" n 0]
  by (auto simp: blocking_call_def ac_bridge_def Let_def)

section \<open>Properties\<close>

text \<open>C20: once the scheduled task is done at some poll, \<open>blocking_call\<close> returns, and
  what it returns is the task's outcome (its result, or the exception it raised).\<close>

theorem blocking_call_returns:
  "fut_done (ac_call ac req) n \<Longrightarrow> blocking_call ac req = Some (fut_outcome (ac_call ac req))"
  using poll_until_done_first [of "fut_done (ac_call ac req)" n 0]
  by (auto simp: blocking_call_def Let_def)

theorem blocking_call_returns_witness:
  "blocking_call (sample_ac 3 (Inr (TriggerMessageResult ''Accepted''))) (TriggerMessagePayload ''Heartbeat'')
   = Some (Inr (TriggerMessageResult ''Accepted''))"
  using blocking_call_returns [of "sample_ac 3 (Inr (TriggerMessageResult ''Accepted''))"
      "TriggerMessagePayload ''Heartbeat''" 3]
  by (simp add: sample_ac_def)

text \<open>C21: the bridge has no timeout of its own: if the task is never done, the caller
  polls forever.\<close>

theorem blocking_call_hangs:
  "\<forall>k. \<not> fut_done (ac_call ac req) k \<Longrightarrow> blocking_call ac req = None"
  by (simp add: blocking_call_def Let_def poll_until_done_never)

theorem blocking_call_hangs_witness:
  "blocking_call \<lparr>ac_call = (\<lambda>_. \<lparr>fut_done = (\<lambda>_. False), fut_outcome = Inl KeyError\<rparr>)\<rparr>
     (TriggerMessagePayload ''Heartbeat'') = None"
  using blocking_call_hangs [of "\<lparr>ac_call = (\<lambda>_. \<lparr>fut_done = (\<lambda>_. False), fut_outcome = Inl KeyError\<rparr>)\<rparr>"
      "TriggerMessagePayload ''Heartbeat''"]
  by simp

text \<open>The polling loop stops at the first poll that sees the task done: it sleeps
  exactly \<open>LEAST k. done k\<close> times.\<close>

theorem poll_until_done_least:
  "d n \<Longrightarrow> poll_until_done d 0 = Some (LEAST k. d k)"
proof -
  assume "d n"
  then obtain m where m: "d m" "\<forall>k. k < m \<longrightarrow> \<not> d k" "poll_until_done d 0 = Some m"
    using poll_until_done_first [of d n 0] by auto
  have "(LEAST k. d k) = m"
    using m(1,2) by (intro Least_equality) (auto simp: not_less [symmetric])
  with m(3) show ?thesis by simp
qed

theorem poll_until_done_least_witness:
  "poll_until_done (\<lambda>k. 3 \<le> k) 0 = Some 3"
proof -
  have "(LEAST k::nat. 3 \<le> k) = 3" by (rule Least_equality) simp_all
  then show ?thesis using poll_until_done_least [of "\<lambda>k. 3 \<le> k" 3] by simp
qed

text \<open>When every scheduled call completes, \<open>blocking_call\<close> is the bridge
  \<open>ac_bridge\<close> over which the proxy lemmas are stated: each call returns, with its
  future's outcome.\<close>

theorem blocking_call_is_bridge:
  "\<forall>req. \<exists>n. fut_done (ac_call ac req) n \<Longrightarrow> blocking_call ac = (\<lambda>req. Some (ac_bridge ac req))"
proof
  fix req
  assume "\<forall>req. \<exists>n. fut_done (ac_call ac req) n"
  then obtain n where "fut_done (ac_call ac req) n" by blast
  then show "blocking_call ac req = Some (ac_bridge ac req)" by (rule blocking_call_done)
qed

theorem blocking_call_is_bridge_witness:
  "blocking_call (sample_ac 2 (Inl (TransportError ''timeout'')))
     = (\<lambda>req. Some (ac_bridge (sample_ac 2 (Inl (TransportError ''timeout''))) req))"
  by (rule blocking_call_is_bridge) (auto simp: sample_ac_def)

end
