(* ===== verification/CentralSystem.thy ===== *)
theory CentralSystem
  imports AsyncCommunicator
begin

text \<open>
  The connection registry of \<open>src/chargeamps/CentralSystem.py\<close>. \<open>serve\<close> creates the
  list of connected proxies, the \<open>threading.Event\<close> that signals a connection, and starts
  the server thread; each websocket connection runs \<open>__on_connect\<close>, which builds a proxy
  named after the connection path, installs an \<open>AsyncCommunicator\<close> on it, appends it to
  the list, sets the event, and then runs the proxy's dispatch loop until the connection
  closes. The list is the store of proxy objects: a proxy is referred to by its position,
  which never changes because the list is only appended to, and every mutation of a proxy
  (by its dispatch loop or by a caller that found it) updates the element in place.
\<close>

record central_system =
  connected_chargepoints :: "async_communicator cp_proxy list"
  conn_event :: bool
  cs_addr :: string
  cs_port :: string
  cs_thread :: "unit option"

definition is_slash :: "char \<Rightarrow> bool" where
  "is_slash c \<longleftrightarrow> c = CHR ''/''"

text \<open>\<open>serve\<close>: the thread attribute receives the value of \<open>Thread(...).start()\<close>, which
  is \<open>None\<close>.\<close>

definition serve :: "string \<Rightarrow> string \<Rightarrow> central_system" where
  "serve addr port =
     \<lparr>connected_chargepoints = [], conn_event = False, cs_addr = addr, cs_port = port,
      cs_thread = None\<rparr>"

definition on_connect :: "central_system \<Rightarrow> string \<Rightarrow> async_communicator \<Rightarrow> central_system" where
  "on_connect cs path ac =
     (let charge_point_id = py_strip is_slash path;
          cp = set_comm (new_proxy charge_point_id None) ac
      in cs\<lparr>connected_chargepoints := connected_chargepoints cs @ [cp], conn_event := True\<rparr>)"

definition update_cp ::
  "central_system \<Rightarrow> nat \<Rightarrow> (async_communicator cp_proxy \<Rightarrow> async_communicator cp_proxy) \<Rightarrow> central_system" where
  "update_cp cs k f =
     cs\<lparr>connected_chargepoints := (connected_chargepoints cs)[k := f (connected_chargepoints cs ! k)]\<rparr>"

text \<open>One turn of the dispatch loop \<open>cp.start()\<close> of connection \<open>k\<close>: the inbound call is
  routed to the proxy's handler and the acknowledgement is sent back.\<close>

definition dispatch ::
  "central_system \<Rightarrow> nat \<Rightarrow> msg_name \<Rightarrow> kwargs \<Rightarrow> datetime \<Rightarrow> central_system \<times> call_result py_result" where
  "dispatch cs k action payload now =
     (let (p', ack) = route_message (connected_chargepoints cs ! k) action payload now
      in (update_cp cs k (\<lambda>_. p'), ack))"

definition has_connections :: "central_system \<Rightarrow> bool" where
  "has_connections cs \<longleftrightarrow> length (connected_chargepoints cs) > 0"

definition find_chargepoint :: "central_system \<Rightarrow> string \<Rightarrow> nat py_result" where
  "find_chargepoint cs i =
     (let cps = connected_chargepoints cs;
          found = [k \<leftarrow> [0..<length cps]. cp_id (cps ! k) = i]
      in if length found = 0 then Inl (Exception (''Chargepoint '' @ i @ '' not connected''))
         else Inr (hd found))"

text \<open>The lookup as the source writes it, returning the proxy object: \<open>[x for x in
  self.__connected_chargepoints if x.id == cp_id]\<close>, then \<open>cp[0]\<close>.\<close>

definition find_chargepoint_obj :: "central_system \<Rightarrow> string \<Rightarrow> async_communicator cp_proxy py_result" where
  "find_chargepoint_obj cs cpid =
     (let cp = [x \<leftarrow> connected_chargepoints cs. cp_id x = cpid]
      in if length cp = 0 then Inl (Exception (''Chargepoint '' @ cpid @ '' not connected''))
         else Inr (cp ! 0))"

text \<open>\<open>wait_for_connection\<close>: \<open>None\<close> is the caller blocked in \<open>Event.wait()\<close>; it is
  released by a later \<open>on_connect\<close>.\<close>

definition wait_for_connection :: "central_system \<Rightarrow> (string py_result \<times> central_system) option" where
  "wait_for_connection cs =
     (if \<not> has_connections cs \<and> \<not> conn_event cs then None
      else
        (let cs' = cs\<lparr>conn_event := False\<rparr> in
         (case connected_chargepoints cs of
            [] \<Rightarrow> Some (Inl IndexError, cs')
          | cps \<Rightarrow> Some (Inr (cp_id (last cps)), cs'))))"

text \<open>\<open>is_active\<close> calls \<open>running()\<close> on the stored thread value: on \<open>None\<close> the attribute
  lookup raises, and a \<open>Thread\<close> object has no \<open>running\<close> method either.\<close>

definition is_active :: "central_system \<Rightarrow> bool py_result" where
  "is_active cs = (case cs_thread cs of None \<Rightarrow> Inl AttributeError | Some () \<Rightarrow> Inl AttributeError)"

section \<open>The registry as a transition system\<close>

text \<open>
  The transitions of the registry, from any thread: a station connects; a proxy's
  dispatch loop handles an inbound call, or a caller runs a proxy operation on a proxy it
  found (both are a \<open>proxy_event\<close> applied to one element of the list); a caller's
  \<open>wait_for_connection\<close> returns.
\<close>

inductive cs_step :: "central_system \<Rightarrow> central_system \<Rightarrow> bool" where
  connect: "cs_step cs (on_connect cs path ac)"
| proxy: "k < length (connected_chargepoints cs) \<Longrightarrow>
    cs_step cs (update_cp cs k (\<lambda>p. fst (proxy_step p e)))"
| wait_conn: "wait_for_connection cs = Some (r, cs') \<Longrightarrow> cs_step cs cs'"

inductive cs_reach :: "string \<Rightarrow> string \<Rightarrow> central_system \<Rightarrow> bool" for addr port where
  start: "cs_reach addr port (serve addr port)"
| step: "cs_reach addr port cs \<Longrightarrow> cs_step cs cs' \<Longrightarrow> cs_reach addr port cs'"

definition cs_inv :: "central_system \<Rightarrow> bool" where
  "cs_inv cs \<longleftrightarrow>
     (\<forall>p\<in>set (connected_chargepoints cs). comm p \<noteq> None \<and> py_strip is_slash (cp_id p) = cp_id p)
     \<and> (conn_event cs \<longrightarrow> connected_chargepoints cs \<noteq> [])
     \<and> cs_thread cs = None"

definition ac0 :: async_communicator where
  "ac0 = sample_ac 1 (Inr (TriggerMessageResult ''Accepted''))"

text \<open>A sample registry: station \<open>CP1\<close>, then \<open>CP2\<close>, then \<open>CP1\<close> again.\<close>

definition cs_sample :: central_system where
  "cs_sample = on_connect (on_connect (on_connect (serve ''0.0.0.0'' ''9000'') ''/CP1'' ac0) ''/CP2'' ac0)
     ''/CP1/'' ac0"

section \<open>Lemmas\<close>

lemma proxy_step_frame:
  "cp_id (fst (proxy_step p e)) = cp_id p \<and> comm (fst (proxy_step p e)) = comm p"
proof (cases e)
  case (Inbound a q now)
  then show ?thesis using route_message_fields [of p a q now] by simp
next
  case (WaitMsg m)
  then show ?thesis
    by (cases "msgq p") (simp_all add: wait_msg_empty wait_msg_head split: prod.splits sum.splits)
qed (simp_all add: add_msg_trap_def clear_msg_queue_def)

lemma update_cp_fields [simp]:
  "length (connected_chargepoints (update_cp cs k f)) = length (connected_chargepoints cs)
   \<and> conn_event (update_cp cs k f) = conn_event cs \<and> cs_thread (update_cp cs k f) = cs_thread cs"
  by (simp add: update_cp_def)

lemma cs_step_inv: "cs_step cs cs' \<Longrightarrow> cs_inv cs \<Longrightarrow> cs_inv cs'"
proof (induction rule: cs_step.induct)
  case (connect cs path ac)
  then show ?case
    by (auto simp: cs_inv_def on_connect_def set_comm_def new_proxy_def py_strip_idem)
next
  case (proxy k cs e)
  have "\<forall>p\<in>set (connected_chargepoints (update_cp cs k (\<lambda>p. fst (proxy_step p e)))).
          comm p \<noteq> None \<and> py_strip is_slash (cp_id p) = cp_id p"
  proof
    fix p
    assume "p \<in> set (connected_chargepoints (update_cp cs k (\<lambda>p. fst (proxy_step p e))))"
    then have "p \<in> set (connected_chargepoints cs) \<or> p = fst (proxy_step (connected_chargepoints cs ! k) e)"
      by (auto simp: update_cp_def dest: set_update_subset_insert [THEN subsetD])
    then show "comm p \<noteq> None \<and> py_strip is_slash (cp_id p) = cp_id p"
      using proxy.prems proxy.hyps proxy_step_frame [of "connected_chargepoints cs ! k" e]
      by (auto simp: cs_inv_def)
  qed
  with proxy.prems show ?case by (auto simp: cs_inv_def update_cp_def)
next
  case (wait_conn cs r cs')
  then show ?case
    by (auto simp: cs_inv_def wait_for_connection_def Let_def split: if_splits list.splits)
qed

lemma filter_upt_Cons:
  "filter P [0..<n] = k # rest \<Longrightarrow> k < n \<and> P k \<and> (\<forall>j<k. \<not> P j)"
proof (induction n arbitrary: rest)
  case 0
  then show ?case by simp
next
  case (Suc n)
  show ?case
  proof (cases "filter P [0..<n]")
    case Nil
    then have "\<forall>j<n. \<not> P j" by (auto simp: filter_empty_conv)
    with Nil Suc.prems show ?thesis by (auto split: if_splits)
  next
    case (Cons k' rest')
    with Suc.prems have "k' = k" by simp
    with Cons Suc.IH show ?thesis by fastforce
  qed
qed

lemma find_chargepoint_Inr:
  "find_chargepoint cs i = Inr k \<Longrightarrow>
   k < length (connected_chargepoints cs) \<and> cp_id (connected_chargepoints cs ! k) = i
   \<and> (\<forall>j<k. cp_id (connected_chargepoints cs ! j) \<noteq> i)"
  by (cases "filter (\<lambda>k. cp_id (connected_chargepoints cs ! k) = i) [0..<length (connected_chargepoints cs)]")
    (auto simp: find_chargepoint_def Let_def dest: filter_upt_Cons)

lemma on_connect_prefix:
  "connected_chargepoints (on_connect cs path ac) = connected_chargepoints cs @ [set_comm (new_proxy (py_strip is_slash path) None) ac]"
  by (simp add: on_connect_def)

lemma cs_reach_event:
  "cs_reach addr port cs \<Longrightarrow> conn_event cs \<Longrightarrow> connected_chargepoints cs \<noteq> []"
proof (induction rule: cs_reach.induct)
  case start
  then show ?case by (simp add: serve_def)
next
  case (step cs cs')
  from step.hyps(2) step.IH step.prems show ?case
    by (cases rule: cs_step.cases)
      (auto simp: on_connect_def wait_for_connection_def Let_def update_cp_def split: if_splits list.splits)
qed

lemma find_chargepoint_on_connect:
  "find_chargepoint (on_connect cs path ac) i =
     (case find_chargepoint cs i of
        Inr k \<Rightarrow> Inr k
      | Inl e \<Rightarrow> (if py_strip is_slash path = i then Inr (length (connected_chargepoints cs)) else Inl e))"
proof -
  let ?xs = "connected_chargepoints cs"
  let ?P = "\<lambda>ys j. cp_id (ys ! j) = i"
  let ?ys = "connected_chargepoints (on_connect cs path ac)"
  have ys: "?ys = ?xs @ [set_comm (new_proxy (py_strip is_slash path) None) ac]"
    by (rule on_connect_prefix)
  have "filter (?P ?ys) [0..<length ?xs] = filter (?P ?xs) [0..<length ?xs]"
    by (rule filter_cong) (simp_all add: ys nth_append)
  then have "filter (?P ?ys) [0..<length ?ys] =
      filter (?P ?xs) [0..<length ?xs] @ (if py_strip is_slash path = i then [length ?xs] else [])"
    by (simp add: ys set_comm_def new_proxy_def)
  then show ?thesis by (auto simp: find_chargepoint_def Let_def)
qed

lemma filter_nth_upt: "map (\<lambda>k. xs ! k) (filter (\<lambda>k. P (xs ! k)) [0..<length xs]) = filter P xs"
proof -
  have "filter P xs = filter P (map (\<lambda>k. xs ! k) [0..<length xs])" by (simp add: map_nth)
  also have "\<dots> = map (\<lambda>k. xs ! k) (filter (\<lambda>k. P (xs ! k)) [0..<length xs])"
    by (simp add: filter_map comp_def)
  finally show ?thesis by simp
qed

lemma update_cp_id [simp]: "update_cp cs k (\<lambda>_. connected_chargepoints cs ! k) = cs"
  by (simp add: update_cp_def)

lemma update_cp_apply: "update_cp cs k (\<lambda>_. f (connected_chargepoints cs ! k)) = update_cp cs k f"
  by (simp add: update_cp_def)

lemma find_chargepoint_InrI:
  assumes "k < length (connected_chargepoints cs)" "cp_id (connected_chargepoints cs ! k) = i"
    "\<forall>j<k. cp_id (connected_chargepoints cs ! j) \<noteq> i"
  shows "find_chargepoint cs i = Inr k"
proof -
  let ?n = "length (connected_chargepoints cs)"
  have "[0..<?n] = [0..<k] @ [k..<?n]"
    using upt_add_eq_append [of 0 k "?n - k"] assms(1) by simp
  also have "\<dots> = [0..<k] @ k # [Suc k..<?n]" using assms(1) by (simp add: upt_conv_Cons)
  finally have "[0..<?n] = [0..<k] @ k # [Suc k..<?n]" .
  moreover have "filter (\<lambda>j. cp_id (connected_chargepoints cs ! j) = i) [0..<k] = []"
    using assms(3) by (auto simp: filter_empty_conv)
  ultimately show ?thesis using assms(2) by (simp add: find_chargepoint_def Let_def)
qed

text \<open>The frame of a registry transition: the sessions keep their places and their ids.\<close>

lemma cs_step_nth_id:
  assumes "cs_step cs cs'" "j < length (connected_chargepoints cs)"
  shows "j < length (connected_chargepoints cs')
    \<and> cp_id (connected_chargepoints cs' ! j) = cp_id (connected_chargepoints cs ! j)"
  using assms
proof (induction rule: cs_step.induct)
  case (connect cs path ac)
  then show ?case by (simp add: on_connect_prefix nth_append)
next
  case (proxy k cs e)
  then show ?case
    using proxy_step_frame [of "connected_chargepoints cs ! k" e]
    by (cases "j = k") (simp_all add: update_cp_def)
next
  case (wait_conn cs r cs')
  then show ?case by (auto simp: wait_for_connection_def Let_def split: if_splits list.splits)
qed

lemma find_chargepoint_cs_step:
  "cs_step cs cs' \<Longrightarrow> find_chargepoint cs i = Inr k \<Longrightarrow> find_chargepoint cs' i = Inr k"
  using find_chargepoint_Inr [of cs i k] cs_step_nth_id [of cs cs']
  by (intro find_chargepoint_InrI) (auto dest: order.strict_trans)

lemma prefix_nthI:
  "length xs \<le> length ys \<Longrightarrow> \<forall>k<length xs. ys ! k = xs ! k \<Longrightarrow> prefix xs ys"
proof -
  assume "length xs \<le> length ys" "\<forall>k<length xs. ys ! k = xs ! k"
  then have "take (length xs) ys = xs" by (intro nth_equalityI) auto
  then show "prefix xs ys" by (metis append_take_drop_id prefix_def)
qed

lemma find_conv_filter: "find P xs = (case filter P xs of [] \<Rightarrow> None | x # _ \<Rightarrow> Some x)"
  by (induction xs) simp_all

section \<open>Properties\<close>

text \<open>C22: in every state the registry reaches from \<open>serve\<close>, every registered proxy has
  a communicator installed and an id with no leading or trailing \<open>/\<close>, the connection
  signal is only set when some proxy is registered, and the stored thread value is
  \<open>None\<close>.\<close>

theorem cs_reach_inv: "cs_reach addr port cs \<Longrightarrow> cs_inv cs"
proof (induction rule: cs_reach.induct)
  case start
  show ?case by (simp add: cs_inv_def serve_def)
next
  case (step cs cs')
  then show ?case by (blast intro: cs_step_inv)
qed

theorem cs_reach_inv_witness:
  "cs_reach ''0.0.0.0'' ''9000'' (on_connect (serve ''0.0.0.0'' ''9000'') ''/CP1'' ac0)
   \<and> cs_inv (on_connect (serve ''0.0.0.0'' ''9000'') ''/CP1'' ac0)"
proof -
  have r: "cs_reach ''0.0.0.0'' ''9000'' (on_connect (serve ''0.0.0.0'' ''9000'') ''/CP1'' ac0)"
    by (rule cs_reach.step [OF cs_reach.start cs_step.connect])
  with cs_reach_inv show ?thesis by blast
qed

text \<open>C23: once any station has connected, \<open>wait_for_connection\<close> does not block: it
  clears the signal and returns the id of the most recently connected station, also when
  the signal was already cleared by an earlier call and no new station connected.\<close>

theorem wait_for_connection_returns_last:
  "connected_chargepoints cs \<noteq> [] \<Longrightarrow>
   wait_for_connection cs =
     Some (Inr (cp_id (last (connected_chargepoints cs))), cs\<lparr>conn_event := False\<rparr>)"
  by (cases "connected_chargepoints cs") (simp_all add: wait_for_connection_def has_connections_def)

theorem wait_for_connection_returns_last_witness:
  "let cs1 = on_connect (serve ''0.0.0.0'' ''9000'') ''/CP1'' ac0;
       cs2 = cs1\<lparr>conn_event := False\<rparr>
   in wait_for_connection cs1 = Some (Inr ''CP1'', cs2) \<and> wait_for_connection cs2 = Some (Inr ''CP1'', cs2)"
proof -
  have s: "py_strip is_slash ''/CP1'' = ''CP1''" by (simp add: py_strip_def rstrip_def is_slash_def)
  let ?cs1 = "on_connect (serve ''0.0.0.0'' ''9000'') ''/CP1'' ac0"
  have "connected_chargepoints ?cs1 \<noteq> []" by (simp add: on_connect_def)
  moreover have "connected_chargepoints (?cs1\<lparr>conn_event := False\<rparr>) \<noteq> []" by (simp add: on_connect_def)
  ultimately show ?thesis
    using wait_for_connection_returns_last [of ?cs1]
      wait_for_connection_returns_last [of "?cs1\<lparr>conn_event := False\<rparr>"]
    by (simp add: Let_def on_connect_def serve_def set_comm_def new_proxy_def s)
qed

text \<open>C24: before the first connection a caller of \<open>wait_for_connection\<close> blocks.\<close>

theorem wait_for_connection_blocks:
  "cs_reach addr port cs \<Longrightarrow> connected_chargepoints cs = [] \<Longrightarrow> wait_for_connection cs = None"
  using cs_reach_event by (fastforce simp: wait_for_connection_def has_connections_def)

theorem wait_for_connection_blocks_witness:
  "wait_for_connection (serve ''0.0.0.0'' ''9000'') = None"
  using wait_for_connection_blocks [OF cs_reach.start] by (simp add: serve_def)

text \<open>Equivalence with the source's lookup. The index the model returns, so that the
  keyword library can write the proxy back, selects exactly the object the list
  comprehension of the source returns; both raise the same exception when no proxy has
  the id. The comprehension's first element is what \<open>List.find\<close> returns.\<close>

theorem find_chargepoint_equiv:
  "map_sum id (\<lambda>k. connected_chargepoints cs ! k) (find_chargepoint cs i) = find_chargepoint_obj cs i
   \<and> find_chargepoint_obj cs i =
       (case find (\<lambda>p. cp_id p = i) (connected_chargepoints cs) of
          None \<Rightarrow> Inl (Exception (''Chargepoint '' @ i @ '' not connected''))
        | Some p \<Rightarrow> Inr p)"
proof -
  let ?cps = "connected_chargepoints cs"
  let ?found = "filter (\<lambda>k. cp_id (?cps ! k) = i) [0..<length ?cps]"
  have m: "map (\<lambda>k. ?cps ! k) ?found = filter (\<lambda>p. cp_id p = i) ?cps" by (rule filter_nth_upt)
  show ?thesis
  proof (cases ?found)
    case Nil
    with m show ?thesis by (simp add: find_chargepoint_def find_chargepoint_obj_def find_conv_filter)
  next
    case (Cons k ks)
    with m show ?thesis
      by (auto simp: find_chargepoint_def find_chargepoint_obj_def find_conv_filter split: list.splits)
  qed
qed

text \<open>Station ids are not checked for uniqueness: a later connection never changes
  what \<open>find_chargepoint\<close> returns for an id already registered, so a station that
  reconnects under the same id is shadowed by its earlier, possibly closed, session.\<close>

theorem find_chargepoint_shadowed:
  "find_chargepoint cs i = Inr k \<Longrightarrow> find_chargepoint (on_connect cs path ac) i = Inr k"
  by (simp add: find_chargepoint_on_connect)

theorem find_chargepoint_shadowed_witness:
  "find_chargepoint cs_sample ''CP1'' = Inr 0
   \<and> cp_id (last (connected_chargepoints cs_sample)) = ''CP1''"
proof -
  let ?cs2 = "on_connect (on_connect (serve ''0.0.0.0'' ''9000'') ''/CP1'' ac0) ''/CP2'' ac0"
  have f: "find_chargepoint ?cs2 ''CP1'' = Inr 0"
    by (simp add: find_chargepoint_def on_connect_def serve_def set_comm_def
        new_proxy_def py_strip_def rstrip_def is_slash_def upt_conv_Cons)
  have "find_chargepoint cs_sample ''CP1'' = Inr 0"
    using find_chargepoint_shadowed [OF f, of "''/CP1/''" ac0] by (simp add: cs_sample_def)
  moreover have "cp_id (last (connected_chargepoints cs_sample)) = ''CP1''"
    by (simp add: cs_sample_def on_connect_def set_comm_def new_proxy_def py_strip_def rstrip_def
        is_slash_def)
  ultimately show ?thesis by simp
qed

text \<open>The station id is the connection path with every leading and trailing \<open>/\<close>
  removed.\<close>

theorem station_id_stripped:
  "let i = cp_id (last (connected_chargepoints (on_connect cs path ac))) in
   i = py_strip is_slash path \<and> (\<forall>c r. i = c # r \<longrightarrow> c \<noteq> CHR ''/'')
   \<and> (\<forall>c r. i = r @ [c] \<longrightarrow> c \<noteq> CHR ''/'')"
  using py_strip_hd [of is_slash path] py_strip_last [of is_slash path]
  by (auto simp: on_connect_prefix set_comm_def new_proxy_def is_slash_def Let_def)

theorem station_id_stripped_witness:
  "let i = cp_id (last (connected_chargepoints (on_connect (serve ''0.0.0.0'' ''9000'') ''//CP1/'' ac0))) in
   i = ''CP1'' \<and> (\<forall>c r. i = c # r \<longrightarrow> c \<noteq> CHR ''/'') \<and> (\<forall>c r. i = r @ [c] \<longrightarrow> c \<noteq> CHR ''/'')"
proof -
  have "py_strip is_slash ''//CP1/'' = ''CP1''" by (simp add: py_strip_def rstrip_def is_slash_def)
  then show ?thesis
    using station_id_stripped [of "serve ''0.0.0.0'' ''9000''" "''//CP1/''" ac0]
    by (simp add: Let_def on_connect_prefix set_comm_def new_proxy_def)
qed

text \<open>C25: no transition removes a registered proxy or changes its id: the ids of the
  registry only ever grow at the end, also after a station disconnects.\<close>

theorem cs_step_ids_prefix:
  "cs_step cs cs' \<Longrightarrow>
   prefix (map cp_id (connected_chargepoints cs)) (map cp_id (connected_chargepoints cs'))"
proof -
  assume st: "cs_step cs cs'"
  have "length (connected_chargepoints cs) \<le> length (connected_chargepoints cs')"
    using cs_step_nth_id [OF st, of "length (connected_chargepoints cs')"] by (meson leI less_irrefl)
  then show ?thesis using cs_step_nth_id [OF st] by (intro prefix_nthI) auto
qed

theorem cs_step_ids_prefix_witness:
  "prefix (map cp_id (connected_chargepoints (serve ''0.0.0.0'' ''9000'')))
     (map cp_id (connected_chargepoints (on_connect (serve ''0.0.0.0'' ''9000'') ''/CP1'' ac0)))"
  by (rule cs_step_ids_prefix [OF cs_step.connect])

end
