(* ===== verification/KeywordLib.thy ===== *)
theory KeywordLib
  imports CentralSystem "HOL-Library.AList"
begin

text \<open>
  The Robot Framework keyword library of \<open>src/libs/centralsystem.py\<close>: one object per test
  suite holding, once \<open>start_CentralSystem\<close> has run, the central system in its \<open>cs\<close>
  attribute. The per-station keywords look the proxy up by id with \<open>find_chargepoint\<close>
  and call the proxy's method on the object found, which mutates that element of the
  registry. \<open>create_message\<close> and \<open>set_message_field\<close> build nested dictionaries, modelled
  as \<open>pyval\<close>: a string or a dictionary kept as an association list in insertion order
  (\<open>AList.update\<close> replaces a key in place and appends a new one, as a Python dict does).
\<close>

record kw_lib =
  lib_cs :: "central_system option"

datatype pyval = PStr string | PDict "(string \<times> pyval) list"

section \<open>Suite setup and connection\<close>

definition start_CentralSystem :: "kw_lib \<Rightarrow> string \<Rightarrow> string \<Rightarrow> unit py_result \<times> kw_lib" where
  "start_CentralSystem lib addr port =
     (case lib_cs lib of
        None \<Rightarrow> (Inr (), lib\<lparr>lib_cs := Some (serve addr port)\<rparr>)
      | Some cs \<Rightarrow>
          (if cs_addr cs \<noteq> addr \<or> cs_port cs \<noteq> port
           then (Inl (Exception ''CentralSystem already running with different config''), lib)
           else (Inr (), lib)))"

text \<open>\<open>None\<close>: the caller is blocked in \<open>wait_for_connection\<close>.\<close>

definition wait_for_ChargePoint_to_connect :: "kw_lib \<Rightarrow> (string py_result \<times> kw_lib) option" where
  "wait_for_ChargePoint_to_connect lib =
     (case lib_cs lib of
        None \<Rightarrow> Some (Inl AttributeError, lib)
      | Some cs \<Rightarrow> map_option (\<lambda>(r, cs'). (r, lib\<lparr>lib_cs := Some cs'\<rparr>)) (wait_for_connection cs))"

text \<open>\<open>disconnect_central_system\<close> is \<open>pass\<close>.\<close>

definition disconnect_central_system :: "kw_lib \<Rightarrow> unit py_result \<times> kw_lib" where
  "disconnect_central_system lib = (Inr (), lib)"

section \<open>Per-station keywords\<close>

text \<open>\<open>self.cs.find_chargepoint(charge_id)\<close>, then the proxy's method on the object found;
  the proxy's new state is written back to its place in the registry.\<close>

definition with_chargepoint ::
  "kw_lib \<Rightarrow> string \<Rightarrow> (async_communicator cp_proxy \<Rightarrow> 'a py_result \<times> async_communicator cp_proxy)
   \<Rightarrow> 'a py_result \<times> kw_lib" where
  "with_chargepoint lib i f =
     (case lib_cs lib of
        None \<Rightarrow> (Inl AttributeError, lib)
      | Some cs \<Rightarrow>
          (case find_chargepoint cs i of
             Inl e \<Rightarrow> (Inl e, lib)
           | Inr k \<Rightarrow>
               (let (r, p') = f (connected_chargepoints cs ! k)
                in (r, lib\<lparr>lib_cs := Some (update_cp cs k (\<lambda>_. p'))\<rparr>))))"

definition send_TriggerMessage ::
  "async_communicator bridge \<Rightarrow> kw_lib \<Rightarrow> string \<Rightarrow> msg_name \<Rightarrow> unit py_result \<times> kw_lib" where
  "send_TriggerMessage bc lib charge_id msg =
     with_chargepoint lib charge_id (\<lambda>p. (map_sum id (\<lambda>_. ()) (fst (trigger_message bc p msg)), p))"

definition clear_msg_queue_kw :: "kw_lib \<Rightarrow> string \<Rightarrow> unit py_result \<times> kw_lib" where
  "clear_msg_queue_kw lib charge_id = with_chargepoint lib charge_id (\<lambda>p. (Inr (), clear_msg_queue p))"

definition wait_for_msg :: "kw_lib \<Rightarrow> string \<Rightarrow> msg_name \<Rightarrow> notification py_result \<times> kw_lib" where
  "wait_for_msg lib charge_id msg = with_chargepoint lib charge_id (\<lambda>p. wait_msg p (Some msg))"

definition add_msg_trap_kw :: "kw_lib \<Rightarrow> string \<Rightarrow> msg_name \<Rightarrow> unit py_result \<times> kw_lib" where
  "add_msg_trap_kw lib charge_id msg =
     with_chargepoint lib charge_id (\<lambda>p. (Inr (), add_msg_trap p (Some msg)))"

text \<open>\<open>chargepoint.light_intensity = int(intensity)\<close>: the keyword argument is a string;
  its conversion runs before the setter.\<close>

definition set_light_intensity_kw ::
  "async_communicator bridge \<Rightarrow> kw_lib \<Rightarrow> string \<Rightarrow> string \<Rightarrow> unit py_result \<times> kw_lib" where
  "set_light_intensity_kw bc lib cpid intensity =
     with_chargepoint lib cpid
       (\<lambda>p. (case py_int intensity of
               Inl e \<Rightarrow> (Inl e, p)
             | Inr v \<Rightarrow> (fst (set_light_intensity bc p v), p)))"

definition get_light_intensity_kw ::
  "async_communicator bridge \<Rightarrow> kw_lib \<Rightarrow> string \<Rightarrow> int py_result \<times> kw_lib" where
  "get_light_intensity_kw bc lib cpid =
     with_chargepoint lib cpid (\<lambda>p. (fst (get_light_intensity bc p), p))"

section \<open>Messages as nested dictionaries\<close>

definition create_message :: "string \<Rightarrow> pyval" where
  "create_message msgType = PDict [(''type'', PStr msgType), (''payload'', PDict [])]"

text \<open>\<open>list.index\<close>: the position of the first occurrence.\<close>

definition py_index :: "'a list \<Rightarrow> 'a \<Rightarrow> nat py_result" where
  "py_index xs x = (if x \<in> set xs then Inr (length (takeWhile (\<lambda>y. y \<noteq> x) xs)) else Inl ValueError)"

text \<open>
  The loop \<open>for f in fields[1:]\<close> of \<open>set_message_field\<close>, on the dictionary \<open>tmp\<close>
  refers to: it returns the exception that ended it, if any, and \<open>tmp\<close>'s new value
  (Python mutates \<open>tmp\<close> in place, so the changes made before an exception stay). On a
  string, item assignment raises \<open>TypeError\<close> and \<open>.keys()\<close> raises \<open>AttributeError\<close>.
\<close>

fun smf_loop :: "string list \<Rightarrow> string list \<Rightarrow> pyval \<Rightarrow> pyval \<Rightarrow> py_exc option \<times> pyval" where
  "smf_loop flds [] value tmp = (None, tmp)"
| "smf_loop flds (f # fs) value tmp =
     (case py_index flds f of
        Inl e \<Rightarrow> (Some e, tmp)
      | Inr i \<Rightarrow>
          (if i = length flds - 1 then
             (case tmp of
                PDict kv \<Rightarrow> (None, PDict (AList.update f value kv))
              | PStr _ \<Rightarrow> (Some TypeError, tmp))
           else
             (case tmp of
                PStr _ \<Rightarrow> (Some AttributeError, tmp)
              | PDict kv \<Rightarrow>
                  (let kv' = (if f \<notin> fst ` set kv then AList.update f (PDict []) kv else kv);
                       (err, child') = smf_loop flds fs value (the (map_of kv' f))
                   in (err, PDict (AList.update f child' kv'))))))"

definition set_message_field :: "pyval \<Rightarrow> string \<Rightarrow> pyval \<Rightarrow> py_exc option \<times> pyval" where
  "set_message_field msg field value =
     (let flds = py_split CHR ''.'' field in
      (case msg of
         PStr _ \<Rightarrow> (Some TypeError, msg)
       | PDict m \<Rightarrow>
           (case map_of m ''payload'' of
              None \<Rightarrow> (Some KeyError, msg)
            | Some (PStr _) \<Rightarrow> (Some AttributeError, msg)
            | Some (PDict pl) \<Rightarrow>
                (let f0 = hd flds;
                     pl1 = (if f0 \<notin> fst ` set pl then AList.update f0 (PDict []) pl else pl);
                     (err, tmp') = smf_loop flds (tl flds) value (the (map_of pl1 f0))
                 in (err, PDict (AList.update ''payload'' (PDict (AList.update f0 tmp' pl1)) m))))))"

text \<open>Reading a nested dictionary along a path of keys (a specification device: the
  sources only write).\<close>

fun lookup_path :: "pyval \<Rightarrow> string list \<Rightarrow> pyval option" where
  "lookup_path v [] = Some v"
| "lookup_path v (k # ks) =
     (case v of PStr _ \<Rightarrow> None | PDict kv \<Rightarrow> (case map_of kv k of None \<Rightarrow> None | Some c \<Rightarrow> lookup_path c ks))"

text \<open>A well-formed value: every dictionary has distinct keys, at every depth (a Python
  dict cannot hold a key twice).\<close>

fun wf_pyval :: "pyval \<Rightarrow> bool" where
  "wf_pyval (PStr _) = True"
| "wf_pyval (PDict kv) = (distinct (map fst kv) \<and> (\<forall>x\<in>set kv. wf_pyval (snd x)))"

text \<open>The nodes a path passes through are dictionaries where they exist, so that
  \<open>set_message_field\<close> can walk it: the last key is only assigned, and a missing node is
  created (a specification device).\<close>

fun dict_path :: "pyval \<Rightarrow> string list \<Rightarrow> bool" where
  "dict_path (PStr _) ks = False"
| "dict_path (PDict kv) [] = True"
| "dict_path (PDict kv) [k] = True"
| "dict_path (PDict kv) (k # k' # ks) = (case map_of kv k of None \<Rightarrow> True | Some c \<Rightarrow> dict_path c (k' # ks))"

definition lib_sample :: kw_lib where
  "lib_sample = \<lparr>lib_cs = Some cs_sample\<rparr>"

section \<open>Lemmas\<close>

lemma py_index_le: "j < length xs \<Longrightarrow> xs ! j = x \<Longrightarrow> py_index xs x = Inr i \<Longrightarrow> i \<le> j"
proof (induction xs arbitrary: j i)
  case Nil
  then show ?case by simp
next
  case (Cons y ys)
  show ?case
  proof (cases "y = x")
    case True
    with Cons.prems show ?thesis by (simp add: py_index_def)
  next
    case False
    with Cons.prems obtain j' where j: "j = Suc j'" by (cases j) auto
    with Cons.prems False have "x \<in> set ys" by (auto simp: nth_mem)
    with Cons.prems False j show ?thesis
      using Cons.IH [of j' "length (takeWhile (\<lambda>y. y \<noteq> x) ys)"] by (simp add: py_index_def)
  qed
qed

lemma takeWhile_snoc_absent: "x \<notin> set ys \<Longrightarrow> takeWhile (\<lambda>y. y \<noteq> x) (ys @ [x]) = ys"
  by (induction ys) auto

lemma py_index_last:
  "xs \<noteq> [] \<Longrightarrow> last xs \<notin> set (butlast xs) \<Longrightarrow> py_index xs (last xs) = Inr (length xs - 1)"
proof -
  assume ne: "xs \<noteq> []" and nb: "last xs \<notin> set (butlast xs)"
  then have xs: "xs = butlast xs @ [last xs]" by simp
  have "takeWhile (\<lambda>y. y \<noteq> last xs) (butlast xs @ [last xs]) = butlast xs"
    using nb by (rule takeWhile_snoc_absent)
  then show ?thesis using ne by (metis py_index_def xs length_butlast last_in_set)
qed

lemma py_index_butlast: "x \<in> set (butlast xs) \<Longrightarrow> py_index xs x = Inr i \<Longrightarrow> i < length xs - 1"
proof -
  assume x: "x \<in> set (butlast xs)" and i: "py_index xs x = Inr i"
  then obtain p where p: "p < length (butlast xs)" "butlast xs ! p = x"
    by (auto simp: in_set_conv_nth)
  then have "xs ! p = x" by (simp add: nth_butlast)
  with p i have "i \<le> p" using py_index_le [of p xs x i] by simp
  with p show ?thesis by simp
qed

lemma py_index_mem: "x \<in> set xs \<Longrightarrow> \<exists>i. py_index xs x = Inr i"
  by (simp add: py_index_def)

lemma smf_loop_fresh:
  assumes "fs = drop j flds" "1 \<le> j" "j < length flds"
  shows "\<exists>d. smf_loop flds fs v (PDict []) = (None, d)
    \<and> lookup_path d fs = Some (if last flds \<notin> set (butlast flds) then v else PDict [])"
  using assms
proof (induction fs arbitrary: j)
  case Nil
  then show ?case by simp
next
  case (Cons f fs)
  let ?L = "length flds"
  have "drop j flds = flds ! j # drop (Suc j) flds"
    using Cons.prems(3) by (rule Cons_nth_drop_Suc [symmetric])
  with Cons.prems(1) have fj: "flds ! j = f" and fs: "fs = drop (Suc j) flds" by simp_all
  have "f \<in> set flds" using Cons.prems(3) fj nth_mem by fastforce
  then obtain i where i: "py_index flds f = Inr i" by (auto dest: py_index_mem)
  have ij: "i \<le> j" using py_index_le [OF Cons.prems(3) fj i] .
  show ?case
  proof (cases fs)
    case Nil
    then have jl: "j = ?L - 1" using fs Cons.prems(3) by simp
    have "flds \<noteq> []" using Cons.prems(3) by auto
    with jl fj have fl: "f = last flds" by (simp add: last_conv_nth)
    show ?thesis
    proof (cases "last flds \<in> set (butlast flds)")
      case False
      then have "i = ?L - 1" using py_index_last [of flds] i fl \<open>flds \<noteq> []\<close> by simp
      with Nil False show ?thesis using i by simp
    next
      case True
      then have "i < ?L - 1" using py_index_butlast [of f flds i] i fl by simp
      with Nil True show ?thesis using i by simp
    qed
  next
    case (Cons g gs)
    then have "Suc j < ?L" using fs by (metis drop_eq_Nil leI list.distinct(1))
    with ij have ni: "i \<noteq> ?L - 1" by simp
    obtain d where d: "smf_loop flds fs v (PDict []) = (None, d)"
      and ld: "lookup_path d fs = Some (if last flds \<notin> set (butlast flds) then v else PDict [])"
      using Cons.IH [OF fs] \<open>Suc j < ?L\<close> Cons.prems(2) by auto
    show ?thesis using i ni d ld by simp
  qed
qed

lemma set_message_field_create:
  assumes "py_split CHR ''.'' field = f0 # rest" "smf_loop (f0 # rest) rest v (PDict []) = (e, tmp')"
  shows "set_message_field (create_message t) field v =
    (e, PDict [(''type'', PStr t), (''payload'', PDict [(f0, tmp')])])"
  using assms by (simp add: set_message_field_def create_message_def)

lemma find_chargepoint_update_cp:
  assumes k: "k < length (connected_chargepoints cs)"
    and f: "cp_id (f (connected_chargepoints cs ! k)) = cp_id (connected_chargepoints cs ! k)"
  shows "find_chargepoint (update_cp cs k f) i = find_chargepoint cs i"
proof -
  have "\<And>j. cp_id (connected_chargepoints (update_cp cs k f) ! j) = cp_id (connected_chargepoints cs ! j)"
    using k f by (auto simp: update_cp_def nth_list_update)
  then show ?thesis by (simp add: find_chargepoint_def update_cp_def Let_def)
qed

lemma find_chargepoint_write_back:
  assumes "find_chargepoint cs i = Inr k" "cp_id p' = cp_id (connected_chargepoints cs ! k)"
  shows "find_chargepoint (update_cp cs k (\<lambda>_. p')) i = Inr k
    \<and> connected_chargepoints (update_cp cs k (\<lambda>_. p')) ! k = p'"
proof -
  have "k < length (connected_chargepoints cs)" using assms(1) find_chargepoint_Inr by blast
  then show ?thesis using assms find_chargepoint_update_cp [of k cs "\<lambda>_. p'" i]
    by (simp add: update_cp_def)
qed

lemma with_chargepoint_error:
  "lib_cs lib = Some cs \<Longrightarrow> find_chargepoint cs i = Inl e \<Longrightarrow> with_chargepoint lib i f = (Inl e, lib)"
  by (simp add: with_chargepoint_def)

lemma with_chargepoint_found:
  "lib_cs lib = Some cs \<Longrightarrow> find_chargepoint cs i = Inr k \<Longrightarrow> f (connected_chargepoints cs ! k) = (r, p') \<Longrightarrow>
   with_chargepoint lib i f = (r, lib\<lparr>lib_cs := Some (update_cp cs k (\<lambda>_. p'))\<rparr>)"
  by (simp add: with_chargepoint_def)

lemma set_update_cases: "x \<in> set (AList.update k v al) \<Longrightarrow> x = (k, v) \<or> x \<in> set al"
  by (induction al) (auto split: if_splits)

lemma wf_update: "wf_pyval (PDict kv) \<Longrightarrow> wf_pyval v \<Longrightarrow> wf_pyval (PDict (AList.update k v kv))"
  by (auto simp: distinct_update dest: set_update_cases)

lemma wf_ensure_key:
  assumes "wf_pyval (PDict kv)"
  shows "wf_pyval (PDict (if k \<notin> fst ` set kv then AList.update k (PDict []) kv else kv))
    \<and> wf_pyval (the (map_of (if k \<notin> fst ` set kv then AList.update k (PDict []) kv else kv) k))"
proof -
  let ?kv = "if k \<notin> fst ` set kv then AList.update k (PDict []) kv else kv"
  have w: "wf_pyval (PDict ?kv)" using wf_update [OF assms, of "PDict []" k] assms by simp
  have "k \<in> fst ` set ?kv" by (auto simp: dom_update)
  then obtain c where c: "map_of ?kv k = Some c" by (metis domD dom_map_of_conv_image_fst)
  then have "wf_pyval c" using w by (auto dest: map_of_SomeD)
  with w c show ?thesis by simp
qed

lemma smf_loop_wf: "wf_pyval tmp \<Longrightarrow> wf_pyval v \<Longrightarrow> wf_pyval (snd (smf_loop flds fs v tmp))"
proof (induction flds fs v tmp rule: smf_loop.induct)
  case (1 flds w tmp)
  then show ?case by simp
next
  case (2 flds f fs w tmp)
  show ?case
  proof (cases "py_index flds f")
    case (Inl e)
    with "2.prems" show ?thesis by simp
  next
    case (Inr i)
    show ?thesis
    proof (cases tmp)
      case (PStr x)
      with Inr "2.prems" show ?thesis by simp
    next
      case (PDict kv)
      have w0: "wf_pyval (PDict kv)" using "2.prems"(1) PDict by simp
      show ?thesis
      proof (cases "i = length flds - 1")
        case True
        then show ?thesis using Inr PDict wf_update [OF w0 "2.prems"(2), of f] by simp
      next
        case False
        define kv' where "kv' = (if f \<notin> fst ` set kv then AList.update f (PDict []) kv else kv)"
        have wkv: "wf_pyval (PDict kv')" and "wf_pyval (the (map_of kv' f))"
          using wf_ensure_key [OF w0, of f] by (simp_all add: kv'_def)
        then have "wf_pyval (snd (smf_loop flds fs w (the (map_of kv' f))))"
          using "2.IH" [OF Inr False PDict kv'_def] "2.prems"(2) by simp
        moreover obtain e c' where ec: "smf_loop flds fs w (the (map_of kv' f)) = (e, c')"
          by (cases "smf_loop flds fs w (the (map_of kv' f))")
        ultimately have "wf_pyval c'" by simp
        then show ?thesis using Inr False PDict wf_update [OF wkv, of c' f] ec
          by (simp add: Let_def kv'_def [symmetric])
      qed
    qed
  qed
qed

lemma map_of_ensure_key:
  "map_of (if k \<notin> fst ` set kv then AList.update k (PDict []) kv else kv) c =
   (if c = k then Some (case map_of kv k of None \<Rightarrow> PDict [] | Some x \<Rightarrow> x) else map_of kv c)"
proof -
  have "k \<notin> fst ` set kv \<longleftrightarrow> map_of kv k = None" by (simp add: map_of_eq_None_iff)
  then show ?thesis by (cases "map_of kv k") (auto simp: update_conv')
qed

lemma dict_path_child:
  "dict_path (PDict kv) (k # k' # ks) \<Longrightarrow>
   dict_path (case map_of kv k of None \<Rightarrow> PDict [] | Some x \<Rightarrow> x) (k' # ks)"
  by (cases ks) (auto split: option.splits)

text \<open>One level of the walk: the child of key \<open>k\<close> (created empty when missing) is
  replaced by a child that holds the value along \<open>fs\<close> and agrees with the old child off
  that path.\<close>

lemma descend_insert:
  assumes "kv' = (if k \<notin> fst ` set kv then AList.update k (PDict []) kv else kv)"
    "lookup_path c' fs = Some v" "fs \<noteq> []"
    "\<forall>q. \<not> prefix q fs \<and> \<not> prefix fs q \<longrightarrow> lookup_path c' q = lookup_path (the (map_of kv' k)) q"
  shows "lookup_path (PDict (AList.update k c' kv')) (k # fs) = Some v
    \<and> (\<forall>q. \<not> prefix q (k # fs) \<and> \<not> prefix (k # fs) q \<longrightarrow>
          lookup_path (PDict (AList.update k c' kv')) q = lookup_path (PDict kv) q)"
proof (intro conjI allI impI)
  show "lookup_path (PDict (AList.update k c' kv')) (k # fs) = Some v"
    using assms(2) by (simp add: update_conv')
next
  fix q
  assume q: "\<not> prefix q (k # fs) \<and> \<not> prefix (k # fs) q"
  then obtain c r where qc: "q = c # r" by (cases q) auto
  show "lookup_path (PDict (AList.update k c' kv')) q = lookup_path (PDict kv) q"
  proof (cases "c = k")
    case True
    then have r: "\<not> prefix r fs \<and> \<not> prefix fs r" using q qc by simp
    then have "r \<noteq> []" by auto
    then have "lookup_path (PDict []) r = None" by (cases r) simp_all
    then show ?thesis using True qc r assms(1,4)
      by (simp add: update_conv' map_of_ensure_key split: option.splits)
  next
    case False
    then show ?thesis using qc assms(1) by (simp add: update_conv' map_of_ensure_key)
  qed
qed

lemma smf_loop_insert:
  assumes "fs = drop j flds" "1 \<le> j" "j < length flds" "last flds \<notin> set (butlast flds)" "dict_path tmp fs"
  shows "\<exists>tmp'. smf_loop flds fs v tmp = (None, tmp') \<and> lookup_path tmp' fs = Some v
    \<and> (\<forall>q. \<not> prefix q fs \<and> \<not> prefix fs q \<longrightarrow> lookup_path tmp' q = lookup_path tmp q)"
  using assms
proof (induction fs arbitrary: j tmp)
  case Nil
  then show ?case by simp
next
  case (Cons f fs)
  let ?L = "length flds"
  have "drop j flds = flds ! j # drop (Suc j) flds"
    using Cons.prems(3) by (rule Cons_nth_drop_Suc [symmetric])
  with Cons.prems(1) have fj: "flds ! j = f" and fs: "fs = drop (Suc j) flds" by simp_all
  have "f \<in> set flds" using Cons.prems(3) fj nth_mem by fastforce
  then obtain i where i: "py_index flds f = Inr i" by (auto dest: py_index_mem)
  have ij: "i \<le> j" using py_index_le [OF Cons.prems(3) fj i] .
  obtain kv where tmp: "tmp = PDict kv" using Cons.prems(5) by (cases tmp) auto
  show ?case
  proof (cases fs)
    case Nil
    then have jl: "j = ?L - 1" using fs Cons.prems(3) by simp
    have "flds \<noteq> []" using Cons.prems(3) by auto
    with jl fj have fl: "f = last flds" by (simp add: last_conv_nth)
    then have "i = ?L - 1" using py_index_last [of flds] i Cons.prems(4) \<open>flds \<noteq> []\<close> by simp
    moreover have "\<forall>q. \<not> prefix q [f] \<and> \<not> prefix [f] q \<longrightarrow>
        lookup_path (PDict (AList.update f v kv)) q = lookup_path (PDict kv) q"
    proof (intro allI impI)
      fix q
      assume "\<not> prefix q [f] \<and> \<not> prefix [f] q"
      then obtain c r where "q = c # r" "c \<noteq> f" by (cases q) auto
      then show "lookup_path (PDict (AList.update f v kv)) q = lookup_path (PDict kv) q"
        by (simp add: update_conv')
    qed
    ultimately show ?thesis using Nil i tmp by (simp add: update_conv')
  next
    case (Cons g gs)
    then have "Suc j < ?L" using fs by (metis drop_eq_Nil leI list.distinct(1))
    with ij have ni: "i \<noteq> ?L - 1" by simp
    define kv' where "kv' = (if f \<notin> fst ` set kv then AList.update f (PDict []) kv else kv)"
    have ch: "the (map_of kv' f) = (case map_of kv f of None \<Rightarrow> PDict [] | Some x \<Rightarrow> x)"
      by (simp add: kv'_def map_of_ensure_key)
    have "dict_path (the (map_of kv' f)) fs"
      using Cons.prems(5) tmp Cons dict_path_child [of kv f g gs] ch by simp
    then obtain c' where c': "smf_loop flds fs v (the (map_of kv' f)) = (None, c')"
      and lc: "lookup_path c' fs = Some v"
      and oc: "\<forall>q. \<not> prefix q fs \<and> \<not> prefix fs q \<longrightarrow> lookup_path c' q = lookup_path (the (map_of kv' f)) q"
      using Cons.IH [OF fs _ \<open>Suc j < ?L\<close> Cons.prems(4)] Cons.prems(2) by auto
    have "smf_loop flds (f # fs) v tmp = (None, PDict (AList.update f c' kv'))"
      using i ni tmp c' by (simp add: kv'_def [symmetric])
    moreover have "fs \<noteq> []" using Cons by simp
    ultimately show ?thesis using descend_insert [OF kv'_def lc _ oc] tmp by auto
  qed
qed

section \<open>Properties\<close>

subsection \<open>set_message_field\<close>



text \<open>C27: when the last component of the path also occurs earlier in it, the test
  \<open>fields.index(f) == len(fields) - 1\<close> never holds: the path is created down to an
  empty dictionary and the value is dropped without an error.\<close>

theorem set_message_field_repeated_last:
  assumes "2 \<le> length (py_split CHR ''.'' field)"
    "last (py_split CHR ''.'' field) \<in> set (butlast (py_split CHR ''.'' field))"
  shows "\<exists>m. set_message_field (create_message t) field v = (None, m)
    \<and> lookup_path m (''payload'' # py_split CHR ''.'' field) = Some (PDict [])"
proof -
  obtain f0 rest where sp: "py_split CHR ''.'' field = f0 # rest"
    using py_split_ne by (cases "py_split CHR ''.'' field") auto
  have ex: "\<exists>d. smf_loop (f0 # rest) rest v (PDict []) = (None, d) \<and> lookup_path d rest =
      Some (if last (f0 # rest) \<notin> set (butlast (f0 # rest)) then v else PDict [])"
    by (rule smf_loop_fresh [where j = 1]) (use assms sp in auto)
  have nl: "\<not> last (f0 # rest) \<notin> set (butlast (f0 # rest))" using assms(2) sp by simp
  obtain d where d: "smf_loop (f0 # rest) rest v (PDict []) = (None, d)"
    and ld: "lookup_path d rest = Some (PDict [])"
    using ex unfolding if_not_P [OF nl] by blast
  show ?thesis using set_message_field_create [OF sp d] ld sp by simp
qed

theorem set_message_field_repeated_last_witness:
  "\<exists>m. set_message_field (create_message ''Heartbeat'') ''a.b.b'' (PStr ''x'') = (None, m)
    \<and> lookup_path m (''payload'' # [''a'', ''b'', ''b'']) = Some (PDict [])"
  using set_message_field_repeated_last [of "''a.b.b''" "''Heartbeat''" "PStr ''x''"] by simp

text \<open>C28: \<open>set_message_field\<close> is a nested dictionary insert. On a message whose
  payload is a dictionary, along a dotted path of at least two components whose last
  component does not occur earlier, and whose existing nodes are dictionaries, it stores
  the value at the end of the path. Every entry off the path keeps its value: existing
  dictionaries on the path are reused, not replaced. The keys beside \<open>payload\<close> are
  untouched.\<close>

theorem set_message_field_insert:
  assumes "map_of m ''payload'' = Some (PDict pl)" "dict_path (PDict pl) (py_split CHR ''.'' field)"
    "2 \<le> length (py_split CHR ''.'' field)"
    "last (py_split CHR ''.'' field) \<notin> set (butlast (py_split CHR ''.'' field))"
  shows "\<exists>m'. set_message_field (PDict m) field v = (None, PDict m')
    \<and> lookup_path (PDict m') (''payload'' # py_split CHR ''.'' field) = Some v
    \<and> (\<forall>q. \<not> prefix q (py_split CHR ''.'' field) \<and> \<not> prefix (py_split CHR ''.'' field) q \<longrightarrow>
          lookup_path (PDict m') (''payload'' # q) = lookup_path (PDict m) (''payload'' # q))
    \<and> (\<forall>k. k \<noteq> ''payload'' \<longrightarrow> map_of m' k = map_of m k)"
proof -
  let ?fl = "py_split CHR ''.'' field"
  obtain f0 rest where sp: "?fl = f0 # rest" using py_split_ne by (cases ?fl) auto
  then obtain g gs where rest: "rest = g # gs" using assms(3) by (cases rest) auto
  define pl1 where "pl1 = (if f0 \<notin> fst ` set pl then AList.update f0 (PDict []) pl else pl)"
  have "the (map_of pl1 f0) = (case map_of pl f0 of None \<Rightarrow> PDict [] | Some x \<Rightarrow> x)"
    by (simp add: pl1_def map_of_ensure_key)
  then have dp: "dict_path (the (map_of pl1 f0)) rest"
    using assms(2) sp rest dict_path_child [of pl f0 g gs] by simp
  have "\<exists>t. smf_loop ?fl rest v (the (map_of pl1 f0)) = (None, t) \<and> lookup_path t rest = Some v
    \<and> (\<forall>q. \<not> prefix q rest \<and> \<not> prefix rest q \<longrightarrow> lookup_path t q = lookup_path (the (map_of pl1 f0)) q)"
    by (rule smf_loop_insert [where j = 1]) (use sp rest assms(3,4) dp in simp_all)
  then obtain t where t: "smf_loop ?fl rest v (the (map_of pl1 f0)) = (None, t)"
    and lt: "lookup_path t rest = Some v"
    and ot: "\<forall>q. \<not> prefix q rest \<and> \<not> prefix rest q \<longrightarrow> lookup_path t q = lookup_path (the (map_of pl1 f0)) q"
    by blast
  have d: "lookup_path (PDict (AList.update f0 t pl1)) (f0 # rest) = Some v
    \<and> (\<forall>q. \<not> prefix q (f0 # rest) \<and> \<not> prefix (f0 # rest) q \<longrightarrow>
          lookup_path (PDict (AList.update f0 t pl1)) q = lookup_path (PDict pl) q)"
    using descend_insert [OF pl1_def lt _ ot] rest by simp
  have "set_message_field (PDict m) field v =
      (None, PDict (AList.update ''payload'' (PDict (AList.update f0 t pl1)) m))"
    using assms(1) sp t by (cases "f0 \<in> fst ` set pl") (simp_all add: set_message_field_def pl1_def)
  then show ?thesis using d assms(1) sp by (auto simp: update_conv')
qed

theorem set_message_field_insert_witness:
  "\<exists>m'. set_message_field
       (PDict [(''type'', PStr ''Heartbeat''), (''payload'', PDict [(''a'', PDict [(''c'', PStr ''y'')])])])
       ''a.b'' (PStr ''x'') = (None, PDict m')
     \<and> lookup_path (PDict m') [''payload'', ''a'', ''b''] = Some (PStr ''x'')
     \<and> lookup_path (PDict m') [''payload'', ''a'', ''c''] = Some (PStr ''y'')
     \<and> map_of m' ''type'' = Some (PStr ''Heartbeat'')"
proof -
  have sp: "py_split CHR ''.'' ''a.b'' = [''a'', ''b'']" by simp
  obtain m' where "set_message_field
       (PDict [(''type'', PStr ''Heartbeat''), (''payload'', PDict [(''a'', PDict [(''c'', PStr ''y'')])])])
       ''a.b'' (PStr ''x'') = (None, PDict m')"
    and "lookup_path (PDict m') (''payload'' # py_split CHR ''.'' ''a.b'') = Some (PStr ''x'')"
    and "\<forall>q. \<not> prefix q (py_split CHR ''.'' ''a.b'') \<and> \<not> prefix (py_split CHR ''.'' ''a.b'') q \<longrightarrow>
          lookup_path (PDict m') (''payload'' # q) =
          lookup_path (PDict [(''type'', PStr ''Heartbeat''), (''payload'', PDict [(''a'', PDict [(''c'', PStr ''y'')])])])
            (''payload'' # q)"
    and "\<forall>k. k \<noteq> ''payload'' \<longrightarrow>
          map_of m' k = map_of [(''type'', PStr ''Heartbeat''), (''payload'', PDict [(''a'', PDict [(''c'', PStr ''y'')])])] k"
    using set_message_field_insert [of "[(''type'', PStr ''Heartbeat''), (''payload'', PDict [(''a'', PDict [(''c'', PStr ''y'')])])]"
        "[(''a'', PDict [(''c'', PStr ''y'')])]" "''a.b''" "PStr ''x''"] sp
    by auto
  moreover have "\<not> prefix [''a'', ''c''] [''a'', ''b''] \<and> \<not> prefix [''a'', ''b''] [''a'', ''c'']" by simp
  ultimately show ?thesis using sp by auto
qed

text \<open>C29: a field name without a dot never stores the value. On any message whose
  payload is a dictionary, the payload entry of that name is created as an empty
  dictionary or left as it was: the value is only written inside the loop over
  \<open>fields[1:]\<close>, which is empty.\<close>

theorem set_message_field_no_dot:
  assumes "CHR ''.'' \<notin> set field" "map_of m ''payload'' = Some (PDict pl)"
  shows "\<exists>m'. set_message_field (PDict m) field v = (None, PDict m')
    \<and> lookup_path (PDict m') [''payload'', field] = Some (case map_of pl field of None \<Rightarrow> PDict [] | Some x \<Rightarrow> x)"
  using assms by (simp add: set_message_field_def py_split_no_sep update_conv' map_of_ensure_key)

theorem set_message_field_no_dot_witness:
  "\<exists>m'. set_message_field (create_message ''Heartbeat'') ''a'' (PStr ''x'') = (None, PDict m')
    \<and> lookup_path (PDict m') [''payload'', ''a''] = Some (PDict [])"
  using set_message_field_no_dot [of "''a''" "[(''type'', PStr ''Heartbeat''), (''payload'', PDict [])]" "[]"
      "PStr ''x''"]
  by (simp add: create_message_def)

text \<open>Type invariant of the message dictionaries. \<open>set_message_field\<close> keeps a
  well-formed message well formed, whatever the path and also when it raises: the
  dictionaries it creates or updates keep distinct keys.\<close>

theorem set_message_field_wf:
  assumes "wf_pyval msg" "wf_pyval v"
  shows "wf_pyval (snd (set_message_field msg field v))"
proof (cases msg)
  case (PStr s)
  with assms show ?thesis by (simp add: set_message_field_def)
next
  case (PDict m)
  show ?thesis
  proof (cases "map_of m ''payload''")
    case None
    with PDict assms show ?thesis by (simp add: set_message_field_def)
  next
    case (Some pv)
    then have wpv: "wf_pyval pv" using assms(1) PDict by (auto dest: map_of_SomeD)
    show ?thesis
    proof (cases pv)
      case (PStr s)
      with Some PDict assms show ?thesis by (simp add: set_message_field_def)
    next
      case (PDict pl)
      let ?f0 = "hd (py_split CHR ''.'' field)"
      define pl1 where "pl1 = (if ?f0 \<notin> fst ` set pl then AList.update ?f0 (PDict []) pl else pl)"
      have w1: "wf_pyval (PDict pl1)" and "wf_pyval (the (map_of pl1 ?f0))"
        using wf_ensure_key [of pl ?f0] wpv PDict by (simp_all add: pl1_def)
      then have wt: "wf_pyval (snd (smf_loop (py_split CHR ''.'' field) (tl (py_split CHR ''.'' field)) v
          (the (map_of pl1 ?f0))))"
        using smf_loop_wf assms(2) by blast
      obtain e t where et: "smf_loop (py_split CHR ''.'' field) (tl (py_split CHR ''.'' field)) v
          (the (map_of pl1 ?f0)) = (e, t)"
        by (cases "smf_loop (py_split CHR ''.'' field) (tl (py_split CHR ''.'' field)) v (the (map_of pl1 ?f0))")
      have wi: "wf_pyval (PDict (AList.update ?f0 t pl1))" using wf_update [OF w1] wt et by simp
      have wm: "wf_pyval (PDict m)" using assms(1) \<open>msg = PDict m\<close> by simp
      have "wf_pyval (PDict (AList.update ''payload'' (PDict (AList.update ?f0 t pl1)) m))"
        by (rule wf_update [OF wm wi])
      then show ?thesis using \<open>msg = PDict m\<close> Some PDict et
        by (simp add: set_message_field_def Let_def pl1_def [symmetric])
    qed
  qed
qed

theorem set_message_field_wf_witness:
  "wf_pyval (snd (set_message_field (create_message ''Heartbeat'') ''a.b'' (PStr ''x'')))"
  using set_message_field_wf [of "create_message ''Heartbeat''" "PStr ''x''" "''a.b''"]
  by (simp add: create_message_def)

subsection \<open>Suite setup\<close>

text \<open>Starting it with another address or port raises and changes nothing.\<close>

theorem start_CentralSystem_conflict:
  "lib_cs lib = Some cs \<Longrightarrow> cs_addr cs \<noteq> addr \<or> cs_port cs \<noteq> port \<Longrightarrow>
   start_CentralSystem lib addr port =
     (Inl (Exception ''CentralSystem already running with different config''), lib)"
  by (simp add: start_CentralSystem_def)

theorem start_CentralSystem_conflict_witness:
  "start_CentralSystem lib_sample ''0.0.0.0'' ''9001''
   = (Inl (Exception ''CentralSystem already running with different config''), lib_sample)"
  using start_CentralSystem_conflict [of lib_sample cs_sample "''0.0.0.0''" "''9001''"]
  by (simp add: lib_sample_def cs_sample_def on_connect_def serve_def)

subsection \<open>Per-station keywords\<close>

text \<open>C31: every per-station keyword given an id no station registered raises the
  lookup's exception and leaves the library unchanged; no request is sent.\<close>

theorem keywords_unknown_id:
  assumes "lib_cs lib = Some cs" "find_chargepoint cs i = Inl e"
  shows "wait_for_msg lib i m = (Inl e, lib) \<and> add_msg_trap_kw lib i m = (Inl e, lib)
    \<and> clear_msg_queue_kw lib i = (Inl e, lib) \<and> send_TriggerMessage bc lib i m = (Inl e, lib)
    \<and> set_light_intensity_kw bc lib i x = (Inl e, lib) \<and> get_light_intensity_kw bc lib i = (Inl e, lib)"
  using assms
  by (simp add: with_chargepoint_error wait_for_msg_def add_msg_trap_kw_def clear_msg_queue_kw_def
      send_TriggerMessage_def set_light_intensity_kw_def get_light_intensity_kw_def)

theorem keywords_unknown_id_witness:
  "wait_for_msg lib_sample ''CP3'' ''Heartbeat'' = (Inl (Exception ''Chargepoint CP3 not connected''), lib_sample)"
proof -
  have "find_chargepoint cs_sample ''CP3'' = Inl (Exception ''Chargepoint CP3 not connected'')"
    by (simp add: find_chargepoint_def cs_sample_def on_connect_def serve_def set_comm_def
        new_proxy_def py_strip_def rstrip_def is_slash_def upt_conv_Cons)
  then show ?thesis
    using keywords_unknown_id [of lib_sample cs_sample "''CP3''"] by (simp add: lib_sample_def)
qed

text \<open>\<open>Set Light Intensity\<close> with an argument that is not an integer string raises
  \<open>int\<close>'s exception before the setter runs, and changes nothing.\<close>

theorem set_light_intensity_kw_not_int:
  assumes "lib_cs lib = Some cs" "find_chargepoint cs i = Inr k" "py_int x = Inl e"
  shows "set_light_intensity_kw bc lib i x = (Inl e, lib)"
  using assms by (simp add: set_light_intensity_kw_def with_chargepoint_found)

theorem set_light_intensity_kw_not_int_witness:
  "set_light_intensity_kw ac_bridge lib_sample ''CP1'' ''fifty'' = (Inl ValueError, lib_sample)"
proof -
  have "find_chargepoint cs_sample ''CP1'' = Inr 0"
    by (simp add: find_chargepoint_def cs_sample_def on_connect_def serve_def set_comm_def
        new_proxy_def py_strip_def rstrip_def is_slash_def upt_conv_Cons)
  moreover have "py_int ''fifty'' = Inl ValueError"
    by (simp add: py_int_def py_strip_def rstrip_def is_py_space_def py_int_digits_def py_isdigit_def)
  ultimately show ?thesis
    using set_light_intensity_kw_not_int [of lib_sample cs_sample "''CP1''" 0 "''fifty''" ValueError ac_bridge]
    by (simp add: lib_sample_def)
qed

end
