(* ===== verification/KeywordMain.thy ===== *)
theory KeywordMain
  imports KeywordLib "HOL-Library.Monad_Syntax"
begin

text \<open>
  The script \<open>main()\<close> of \<open>src/libs/centralsystem.py\<close>. It starts the central system,
  waits for a station, triggers a \<open>BootNotification\<close>, waits for it, and then spins in
  \<open>while True: pass\<close>. Between two keyword calls, the server thread accepts connections
  and dispatches inbound calls. Those moves are the environment \<open>env\<close>: \<open>env n\<close> is what
  happens to the registry before the \<open>n\<close>-th call that reads it. The result is
  \<open>None\<close> when \<open>main()\<close> never returns (blocked or spinning), and \<open>Some (Inl e)\<close> when an
  exception \<open>e\<close> escapes it. The bridge \<open>bc\<close> answers every call, as in the keyword
  theorems; a bridge call that never completes would leave \<open>main()\<close> blocked as well.
\<close>

text \<open>\<open>while True: pass\<close>.\<close>

partial_function (option) spin :: "unit \<Rightarrow> unit option" where
  "spin u = spin u"

definition env_apply :: "(central_system \<Rightarrow> central_system) \<Rightarrow> kw_lib \<Rightarrow> kw_lib" where
  "env_apply f lib = lib\<lparr>lib_cs := map_option f (lib_cs lib)\<rparr>"

definition main_script ::
  "async_communicator bridge \<Rightarrow> (nat \<Rightarrow> central_system \<Rightarrow> central_system) \<Rightarrow> unit py_result option" where
  "main_script bc env =
     (let (r1, lib1) = start_CentralSystem \<lparr>lib_cs = None\<rparr> ''0.0.0.0'' ''9000'' in
      case r1 of
        Inl e \<Rightarrow> Some (Inl e)
      | Inr _ \<Rightarrow>
          do {
            (r2, lib2) \<leftarrow> wait_for_ChargePoint_to_connect (env_apply (env 0) lib1);
            (case r2 of
               Inl e \<Rightarrow> Some (Inl e)
             | Inr charge \<Rightarrow>
                 (let (r3, lib3) = send_TriggerMessage bc (env_apply (env 1) lib2) charge ''BootNotification'' in
                  case r3 of
                    Inl e \<Rightarrow> Some (Inl e)
                  | Inr _ \<Rightarrow>
                      (let (r4, lib4) = wait_for_msg (env_apply (env 2) lib3) charge ''BootNotification'' in
                       case r4 of
                         Inl e \<Rightarrow> Some (Inl e)
                       | Inr _ \<Rightarrow> map_option Inr (spin ()))))
          })"

section \<open>Lemmas\<close>

lemma spin_None: "spin u = None"
proof (cases "spin u")
  case (Some r)
  have False
  proof (rule spin.raw_induct [where P = "\<lambda>_ _. False", OF _ Some])
    fix f :: "unit \<Rightarrow> unit option" and x :: unit and y :: unit
    assume "\<And>x y. f x = Some y \<Longrightarrow> False" and "f x = Some y"
    then show False by blast
  qed
  then show ?thesis ..
qed

lemma main_script_no_station: "main_script bc (\<lambda>_ cs. cs) = None"
  by (simp add: main_script_def start_CentralSystem_def wait_for_ChargePoint_to_connect_def env_apply_def
      wait_for_connection_def has_connections_def serve_def)

section \<open>Properties\<close>

text \<open>C30: \<open>main()\<close> never returns normally. Either it never returns (blocked waiting for
  a station, or spinning in \<open>while True: pass\<close> after the last keyword succeeds), or an
  exception escapes it.\<close>

theorem main_never_returns:
  "main_script bc env = None \<or> (\<exists>e. main_script bc env = Some (Inl e))"
  by (auto simp: main_script_def spin_None split: prod.splits sum.splits option.splits Option.bind_splits)

end
