(* ===== verification/SessionInterleaving.thy ===== *)
theory SessionInterleaving
  imports ChargePointProxy "HOL-Library.Sublist"
begin

text \<open>
  The session of \<open>src/chargeamps/ChargePointProxy.py\<close> as the threads see it. The
  dispatch context runs the notification handlers, and caller threads run \<open>wait_msg\<close>,
  \<open>add_msg_trap\<close> and \<open>clear_msg_queue\<close>. The source synchronises only inside
  \<open>queue.Queue\<close>, so every line of these methods that reads or writes the proxy is an
  atomic step of its own, and any interleaving of the threads' steps is an execution:
  \<^item> a handler tests its name in \<open>__awaited_msgs\<close> (\<open>HCheck\<close>), then puts the payload
    on the queue \<open>self.__msgq\<close> refers to at that moment (\<open>HPut\<close>);
  \<^item> \<open>wait_msg\<close> adds its trap (\<open>CWait\<close>, line 167), evaluates \<open>self.__msgq\<close> and blocks
    in \<open>get\<close> on that queue object (\<open>CBind\<close>, line 169), takes an item (\<open>CGet\<close>) or times
    out when none comes (\<open>CTimeout\<close>, lines 170 to 171), and removes its trap
    (\<open>CRemove\<close>, line 172);
  \<^item> \<open>clear_msg_queue\<close> binds a new queue object (\<open>CClear\<close>, line 179), and
    \<open>add_msg_trap\<close> inserts a trap (\<open>CTrap\<close>).
  The queue objects are an explicit store \<open>queues\<close>, indexed by object. \<open>cur_q\<close> is the
  object the attribute \<open>__msgq\<close> refers to, and a blocked waiter keeps the object it
  evaluated. A timeout is possible only while the waiter's queue is empty, as
  \<open>queue.get(timeout=...)\<close> returns an item as soon as one is there. The acknowledgement
  a handler returns is not part of this state.
\<close>

datatype caller_phase =
    CIdle
  | CArmed "msg_name option"
  | CBlocked "msg_name option" nat
  | CGot "msg_name option" notification
  | CDone "notification py_result"

record sess =
  queues :: "notification list list"
  cur_q :: nat
  awaited :: "msg_name option set"
  callers :: "caller_phase list"
  pending_put :: "notification option"

datatype sess_event =
    HCheck msg_name kwargs
  | HPut
  | CTrap nat "msg_name option"
  | CClear nat
  | CWait nat "msg_name option"
  | CBind nat
  | CGet nat
  | CTimeout nat
  | CRemove nat

text \<open>A caller thread can start a keyword when it is not inside \<open>wait_msg\<close>.\<close>

definition caller_free :: "sess \<Rightarrow> nat \<Rightarrow> bool" where
  "caller_free s i \<longleftrightarrow> i < length (callers s)
     \<and> (case callers s ! i of CIdle \<Rightarrow> True | CDone _ \<Rightarrow> True | _ \<Rightarrow> False)"

definition set_caller :: "sess \<Rightarrow> nat \<Rightarrow> caller_phase \<Rightarrow> sess" where
  "set_caller s i c = s\<lparr>callers := (callers s)[i := c]\<rparr>"

text \<open>One atomic step; \<open>None\<close> when the step is not enabled.\<close>

fun sess_exec :: "sess \<Rightarrow> sess_event \<Rightarrow> sess option" where
  "sess_exec s (HCheck a p) =
     (if pending_put s \<noteq> None then None
      else (case handled_notification a p of
              None \<Rightarrow> Some s
            | Some m \<Rightarrow> (if Some a \<in> awaited s then Some (s\<lparr>pending_put := Some m\<rparr>) else Some s)))"
| "sess_exec s HPut =
     (case pending_put s of
        None \<Rightarrow> None
      | Some m \<Rightarrow> Some (s\<lparr>queues := (queues s)[cur_q s := queues s ! cur_q s @ [m]], pending_put := None\<rparr>))"
| "sess_exec s (CTrap i m) =
     (if caller_free s i then Some (s\<lparr>awaited := insert m (awaited s)\<rparr>) else None)"
| "sess_exec s (CClear i) =
     (if caller_free s i then Some (s\<lparr>queues := queues s @ [[]], cur_q := length (queues s)\<rparr>) else None)"
| "sess_exec s (CWait i m) =
     (if caller_free s i then Some (set_caller (s\<lparr>awaited := insert m (awaited s)\<rparr>) i (CArmed m)) else None)"
| "sess_exec s (CBind i) =
     (if i < length (callers s) then
        (case callers s ! i of CArmed m \<Rightarrow> Some (set_caller s i (CBlocked m (cur_q s))) | _ \<Rightarrow> None)
      else None)"
| "sess_exec s (CGet i) =
     (if i < length (callers s) then
        (case callers s ! i of
           CBlocked m q \<Rightarrow>
             (case queues s ! q of
                [] \<Rightarrow> None
              | r # rest \<Rightarrow> Some (set_caller (s\<lparr>queues := (queues s)[q := rest]\<rparr>) i (CGot m r)))
         | _ \<Rightarrow> None)
      else None)"
| "sess_exec s (CTimeout i) =
     (if i < length (callers s) then
        (case callers s ! i of
           CBlocked m q \<Rightarrow>
             (if queues s ! q = []
              then Some (set_caller s i (CDone (Inl (TimeoutException ''Wait timedout, no message received''))))
              else None)
         | _ \<Rightarrow> None)
      else None)"
| "sess_exec s (CRemove i) =
     (if i < length (callers s) then
        (case callers s ! i of
           CGot m r \<Rightarrow>
             (case set_remove (awaited s) m of
                Inl e \<Rightarrow> Some (set_caller s i (CDone (Inl e)))
              | Inr A \<Rightarrow> Some (set_caller (s\<lparr>awaited := A\<rparr>) i (CDone (Inr r))))
         | _ \<Rightarrow> None)
      else None)"

fun sess_run :: "sess \<Rightarrow> sess_event list \<Rightarrow> sess option" where
  "sess_run s [] = Some s"
| "sess_run s (e # es) = (case sess_exec s e of None \<Rightarrow> None | Some s' \<Rightarrow> sess_run s' es)"

inductive sess_reach :: "sess \<Rightarrow> sess \<Rightarrow> bool" for s0 where
  refl: "sess_reach s0 s0"
| step: "sess_reach s0 s \<Longrightarrow> sess_exec s e = Some s' \<Longrightarrow> sess_reach s0 s'"

text \<open>The session of a proxy with \<open>n\<close> caller threads, none inside a keyword.\<close>

definition sess_of :: "'c cp_proxy \<Rightarrow> nat \<Rightarrow> sess" where
  "sess_of p n = \<lparr>queues = [msgq p], cur_q = 0, awaited = awaited_msgs p,
     callers = replicate n CIdle, pending_put = None\<rparr>"

text \<open>What the sequential model of \<open>ChargePointProxy\<close> sees of a session: the queue
  the attribute refers to and the trap set.\<close>

definition sess_view :: "'c cp_proxy \<Rightarrow> sess \<Rightarrow> 'c cp_proxy" where
  "sess_view p s = p\<lparr>msgq := queues s ! cur_q s, awaited_msgs := awaited s\<rparr>"

text \<open>A \<open>wait_msg\<close> that runs without interruption, and a handler that runs without
  interruption.\<close>

definition wait_sched :: "sess \<Rightarrow> nat \<Rightarrow> msg_name option \<Rightarrow> sess_event list" where
  "wait_sched s i m =
     [CWait i m, CBind i] @ (if queues s ! cur_q s = [] then [CTimeout i] else [CGet i, CRemove i])"

definition dispatch_atomic :: "sess \<Rightarrow> msg_name \<Rightarrow> kwargs \<Rightarrow> sess option" where
  "dispatch_atomic s a p =
     (case sess_exec s (HCheck a p) of
        None \<Rightarrow> None
      | Some s1 \<Rightarrow> (if pending_put s1 = None then Some s1 else sess_exec s1 HPut))"

text \<open>Two schedules: two callers waiting for the same name while two heartbeats arrive, and
  a caller that clears the queue while another is blocked on it.\<close>

definition hb2_sched :: "sess_event list" where
  "hb2_sched = [CWait 0 (Some ''Heartbeat''), CWait 1 (Some ''Heartbeat''), CBind 0, CBind 1,
     HCheck ''Heartbeat'' [], HPut, HCheck ''Heartbeat'' [], HPut, CGet 0, CGet 1, CRemove 0, CRemove 1]"

definition clear_sched :: "sess_event list" where
  "clear_sched = [CWait 0 (Some ''Heartbeat''), CBind 0, CClear 1]"

text \<open>The state invariant of a session driven by a single caller thread: the queue
  objects referred to exist, a caller inside \<open>wait_msg\<close> has its trap armed, and no
  \<open>wait_msg\<close> has raised \<open>KeyError\<close>.\<close>

definition sess_inv :: "sess \<Rightarrow> bool" where
  "sess_inv s \<longleftrightarrow> cur_q s < length (queues s) \<and> length (callers s) = 1
     \<and> (case callers s ! 0 of
          CArmed m \<Rightarrow> m \<in> awaited s
        | CBlocked m q \<Rightarrow> m \<in> awaited s \<and> q < length (queues s)
        | CGot m r \<Rightarrow> m \<in> awaited s
        | CDone r \<Rightarrow> r \<noteq> Inl KeyError
        | CIdle \<Rightarrow> True)"

section \<open>Lemmas\<close>

lemma sess_run_append:
  "sess_run s (xs @ ys) = (case sess_run s xs of None \<Rightarrow> None | Some s' \<Rightarrow> sess_run s' ys)"
  by (induction xs arbitrary: s) (auto split: option.splits)

lemma sess_run_reach: "sess_run s es = Some s' \<Longrightarrow> sess_reach s0 s \<Longrightarrow> sess_reach s0 s'"
  by (induction es arbitrary: s) (auto split: option.splits intro: sess_reach.step)

lemma dispatch_atomic_refines:
  assumes "pending_put s = None" "cur_q s < length (queues s)"
  shows "\<exists>s'. dispatch_atomic s a p = Some s' \<and> sess_view q s' = fst (route_message (sess_view q s) a p now)"
proof (cases rule: action_cases [where a = a and p = p])
  case 1
  then show ?thesis using assms
    by (simp add: dispatch_atomic_def route_message_def on_boot_notification_def trap_put_def
        sess_view_def handled_notification_def)
next
  case 2
  then show ?thesis using assms
    by (simp add: dispatch_atomic_def route_message_def on_heartbeat_def trap_put_def
        sess_view_def handled_notification_def)
next
  case 3
  then show ?thesis using assms
    by (simp add: dispatch_atomic_def route_message_def on_status_notification_def trap_put_def
        sess_view_def handled_notification_def)
next
  case 4
  then have "dispatch_atomic s a p = Some s" using assms by (simp add: dispatch_atomic_def)
  moreover have "fst (route_message (sess_view q s) a p now) = sess_view q s"
    using 4 by (simp add: route_message_def handled_notification_def split: if_splits)
  ultimately show ?thesis by simp
qed

lemma sess_exec_inv: "sess_exec s e = Some s' \<Longrightarrow> sess_inv s \<Longrightarrow> sess_inv s'"
  by (cases e) (auto simp: sess_inv_def caller_free_def set_caller_def set_remove_def
      split: if_splits option.splits caller_phase.splits list.splits)

lemma suffix_update_tl: "xs ! i = y # ys \<Longrightarrow> suffix (xs[i := ys] ! q) (xs ! q)"
  by (cases "i < length xs") (auto simp: nth_list_update list_update_beyond intro: suffix_ConsI)

lemma sess_exec_stale:
  assumes "sess_exec s e = Some s'" "cur_q s < length (queues s)" "q < length (queues s)" "q \<noteq> cur_q s"
  shows "cur_q s' < length (queues s') \<and> q < length (queues s') \<and> q \<noteq> cur_q s'
    \<and> suffix (queues s' ! q) (queues s ! q)"
  using assms
  by (cases e) (auto simp: caller_free_def set_caller_def nth_list_update nth_append
      intro: suffix_update_tl split: if_splits option.splits caller_phase.splits list.splits sum.splits)

lemma sess_run_stale:
  "sess_run s tr = Some s' \<Longrightarrow> cur_q s < length (queues s) \<Longrightarrow> q < length (queues s) \<Longrightarrow> q \<noteq> cur_q s
   \<Longrightarrow> suffix (queues s' ! q) (queues s ! q)"
proof (induction tr arbitrary: s)
  case Nil
  then show ?case by simp
next
  case (Cons e tr)
  from Cons.prems(1) obtain s1 where s1: "sess_exec s e = Some s1" "sess_run s1 tr = Some s'"
    by (auto split: option.splits)
  with Cons.prems sess_exec_stale [OF s1(1)] have "suffix (queues s1 ! q) (queues s ! q)"
    and "suffix (queues s' ! q) (queues s1 ! q)" using Cons.IH by blast+
  then show ?case by (rule suffix_order.trans [rotated])
qed

section \<open>Properties\<close>

text \<open>Refinement of the sequential model. A \<open>wait_msg\<close> that no other thread interrupts
  takes the steps \<open>wait_sched\<close>, and it returns what \<open>ChargePointProxy.wait_msg\<close> returns
  and leaves the session as that function leaves the proxy. The proof that the sequential
  model is the uninterrupted case is by the two branches of the queue.\<close>

theorem wait_msg_refined:
  assumes "caller_free s i" "cur_q s < length (queues s)"
  shows "\<exists>s'. sess_run s (wait_sched s i m) = Some s'
     \<and> callers s' ! i = CDone (fst (wait_msg (sess_view p s) m))
     \<and> sess_view p s' = snd (wait_msg (sess_view p s) m)"
proof (cases "queues s ! cur_q s")
  case Nil
  then show ?thesis using assms
    by (simp add: wait_sched_def set_caller_def sess_view_def wait_msg_empty caller_free_def)
next
  case (Cons r rest)
  then show ?thesis using assms
    by (simp add: wait_sched_def set_caller_def sess_view_def wait_msg_head caller_free_def set_remove_def)
qed

theorem wait_msg_refined_witness:
  "\<exists>s'. sess_run (sess_of (new_proxy ''CP1'' (None :: unit option)) 1)
      [CWait 0 (Some ''Heartbeat''), CBind 0, CTimeout 0] = Some s'
    \<and> callers s' ! 0 = CDone (Inl (TimeoutException ''Wait timedout, no message received''))"
proof -
  let ?p = "new_proxy ''CP1'' (None :: unit option)"
  let ?s = "sess_of ?p 1"
  have sch: "wait_sched ?s 0 (Some ''Heartbeat'') = [CWait 0 (Some ''Heartbeat''), CBind 0, CTimeout 0]"
    by (simp add: wait_sched_def sess_of_def new_proxy_def)
  have pre: "caller_free ?s 0" "cur_q ?s < length (queues ?s)"
    by (simp_all add: caller_free_def sess_of_def)
  have w: "fst (wait_msg (sess_view ?p ?s) (Some ''Heartbeat''))
      = Inl (TimeoutException ''Wait timedout, no message received'')"
    by (simp add: wait_msg_empty sess_view_def sess_of_def new_proxy_def)
  from wait_msg_refined [OF pre, of "Some ''Heartbeat''" ?p] show ?thesis
    unfolding sch w by blast
qed

text \<open>C15: with a single caller thread, every state the session reaches, under any
  interleaving with the dispatch context, satisfies \<open>sess_inv\<close>. In particular the
  \<open>self.__awaited_msgs.remove(msg)\<close> of \<open>wait_msg\<close> never raises \<open>KeyError\<close>.\<close>

theorem single_caller_inv: "sess_reach (sess_of p 1) s \<Longrightarrow> sess_inv s"
proof (induction rule: sess_reach.induct)
  case refl
  show ?case by (simp add: sess_inv_def sess_of_def)
next
  case (step s e s')
  from step.hyps(2) step.IH show ?case by (rule sess_exec_inv)
qed

theorem single_caller_inv_witness:
  "sess_reach (sess_of (new_proxy ''CP1'' (None :: unit option)) 1)
     \<lparr>queues = [[]], cur_q = 0, awaited = {Some ''Heartbeat''},
      callers = [CBlocked (Some ''Heartbeat'') 0], pending_put = None\<rparr>
   \<and> sess_inv \<lparr>queues = [[]], cur_q = 0, awaited = {Some ''Heartbeat''},
      callers = [CBlocked (Some ''Heartbeat'') 0], pending_put = None\<rparr>"
proof -
  have r: "sess_reach (sess_of (new_proxy ''CP1'' (None :: unit option)) 1)
     \<lparr>queues = [[]], cur_q = 0, awaited = {Some ''Heartbeat''},
      callers = [CBlocked (Some ''Heartbeat'') 0], pending_put = None\<rparr>"
    by (rule sess_run_reach [OF _ sess_reach.refl, where es = "[CWait 0 (Some ''Heartbeat''), CBind 0]"])
      (simp add: sess_of_def new_proxy_def caller_free_def set_caller_def)
  then show ?thesis using single_caller_inv by blast
qed

text \<open>C16: with two caller threads the trap set is shared without synchronisation. Two
  callers waiting for \<open>Heartbeat\<close> while two heartbeats arrive can both dequeue one; the
  first removes the trap, and the second's \<open>remove\<close> raises \<open>KeyError\<close>. The heartbeat
  it had dequeued is lost, and the queue is left empty.\<close>

theorem two_waiters_key_error:
  "msgq p = [] \<Longrightarrow> \<exists>s. sess_run (sess_of p 2) hb2_sched = Some s
     \<and> callers s = [CDone (Inr HeartbeatPayload), CDone (Inl KeyError)] \<and> queues s = [[]]"
  by (simp add: hb2_sched_def sess_of_def caller_free_def set_caller_def set_remove_def
      handled_notification_def numeral_2_eq_2)

theorem two_waiters_key_error_witness:
  "\<exists>s. sess_run (sess_of (new_proxy ''CP1'' (None :: unit option)) 2) hb2_sched = Some s
     \<and> callers s = [CDone (Inr HeartbeatPayload), CDone (Inl KeyError)] \<and> queues s = [[]]"
  using two_waiters_key_error [of "new_proxy ''CP1'' (None :: unit option)"] by (simp add: new_proxy_def)

text \<open>C17: \<open>clear_msg_queue\<close> binds a new queue object, but a caller already blocked in
  \<open>get\<close> keeps the old one, which no handler puts into any more. Whatever happens next,
  while that caller stays blocked it can never take an item, so it can only time out.\<close>

theorem stranded_waiter_cannot_get:
  assumes "callers s ! i = CBlocked m q" "q \<noteq> cur_q s" "queues s ! q = []"
    "cur_q s < length (queues s)" "q < length (queues s)"
    "sess_run s tr = Some s'" "callers s' ! i = CBlocked m q"
  shows "sess_exec s' (CGet i) = None"
proof -
  have "queues s' ! q = []" using sess_run_stale [OF assms(6,4,5,2)] assms(3) by simp
  then show ?thesis using assms(7) by simp
qed

theorem stranded_waiter_cannot_get_witness:
  "sess_run (sess_of (new_proxy ''CP1'' (None :: unit option)) 2) (clear_sched @ [HCheck ''Heartbeat'' [], HPut])
     = Some \<lparr>queues = [[], [HeartbeatPayload]], cur_q = 1, awaited = {Some ''Heartbeat''},
         callers = [CBlocked (Some ''Heartbeat'') 0, CIdle], pending_put = None\<rparr>
   \<and> sess_exec \<lparr>queues = [[], [HeartbeatPayload]], cur_q = 1, awaited = {Some ''Heartbeat''},
         callers = [CBlocked (Some ''Heartbeat'') 0, CIdle], pending_put = None\<rparr> (CGet 0) = None"
proof -
  let ?s = "\<lparr>queues = [[], []], cur_q = 1, awaited = {Some ''Heartbeat''},
      callers = [CBlocked (Some ''Heartbeat'') 0, CIdle], pending_put = None\<rparr>"
  let ?s' = "\<lparr>queues = [[], [HeartbeatPayload]], cur_q = 1, awaited = {Some ''Heartbeat''},
      callers = [CBlocked (Some ''Heartbeat'') 0, CIdle], pending_put = None\<rparr>"
  have s: "sess_run (sess_of (new_proxy ''CP1'' (None :: unit option)) 2) clear_sched = Some ?s"
    by (simp add: clear_sched_def sess_of_def new_proxy_def caller_free_def set_caller_def numeral_2_eq_2)
  have r: "sess_run ?s [HCheck ''Heartbeat'' [], HPut] = Some ?s'"
    by (simp add: handled_notification_def)
  have "sess_exec ?s' (CGet 0) = None"
    using stranded_waiter_cannot_get [of ?s 0 "Some ''Heartbeat''" 0 "[HCheck ''Heartbeat'' [], HPut]" ?s']
      r by simp
  then show ?thesis using s r by (simp add: sess_run_append)
qed

text \<open>C18: the outcome depends on the order of the trap and the notification. A heartbeat
  handled before \<open>wait_msg\<close> arms its trap is dropped: the handler finishes with
  nothing to put, and the wait can only time out. Armed
  first, the same heartbeat is delivered. This is the order of \<open>main()\<close> in
  \<open>src/libs/centralsystem.py\<close>, which triggers a message and only then waits for it.\<close>

theorem trap_armed_late:
  assumes "msgq p = []" "Some ''Heartbeat'' \<notin> awaited_msgs p"
  shows "(\<exists>s s'. sess_run (sess_of p 1) [HCheck ''Heartbeat'' [], CWait 0 (Some ''Heartbeat''), CBind 0] = Some s
       \<and> pending_put s = None \<and> sess_exec s (CGet 0) = None \<and> sess_exec s (CTimeout 0) = Some s'
       \<and> callers s' = [CDone (Inl (TimeoutException ''Wait timedout, no message received''))])
    \<and> (\<exists>s. sess_run (sess_of p 1)
         [CWait 0 (Some ''Heartbeat''), CBind 0, HCheck ''Heartbeat'' [], HPut, CGet 0, CRemove 0] = Some s
       \<and> callers s = [CDone (Inr HeartbeatPayload)])"
  using assms
  by (simp add: sess_of_def caller_free_def set_caller_def set_remove_def handled_notification_def)

theorem trap_armed_late_witness:
  "\<exists>s. sess_run (sess_of (new_proxy ''CP1'' (None :: unit option)) 1)
      [CWait 0 (Some ''Heartbeat''), CBind 0, HCheck ''Heartbeat'' [], HPut, CGet 0, CRemove 0] = Some s
    \<and> callers s = [CDone (Inr HeartbeatPayload)]"
  using trap_armed_late [of "new_proxy ''CP1'' (None :: unit option)"] by (simp add: new_proxy_def)

end
