(* ===== verification/UnitTests.thy ===== *)
theory UnitTests
  imports ChargePointProxy
begin

text \<open>
  The unit tests of \<open>src/tests/test_chargepointproxy.py\<close>, each as a boolean over the
  proxy model: the test passes when its assertions hold. The \<open>Mock\<close> communicator is a
  bridge that answers every request with the \<open>return_value\<close> the test sets.
  \<open>assert_called_with(req)\<close> checks the last request sent, and \<open>assert_not_called()\<close>
  checks that none was sent. A \<open>Mock\<close> whose return value the test never sets is a bridge
  that raises; the tests that use one never call it. \<open>assertRaises(E)\<close> holds when the operation raises
  an exception of class \<open>E\<close>, and \<open>isinstance\<close> checks the constructor. A test that
  calls \<open>datetime.utcnow()\<close> through a handler takes the instant as a parameter.
\<close>

definition mock_bridge :: "call_result \<Rightarrow> unit bridge" where
  "mock_bridge r = (\<lambda>_ _. Inr r)"

text \<open>\<open>ChargePointProxy("CP1", socket, comm)\<close> with the mock communicator.\<close>

definition mock_proxy :: "unit cp_proxy" where
  "mock_proxy = new_proxy ''CP1'' (Some ())"

text \<open>\<open>range(start, stop, step)\<close> for a positive step.\<close>

definition py_range :: "int \<Rightarrow> int \<Rightarrow> int \<Rightarrow> int list" where
  "py_range start stop step = map (\<lambda>k. start + step * int k) [0..<nat ((stop - start + step - 1) div step)]"

definition called_with :: "call_payload list \<Rightarrow> call_payload \<Rightarrow> bool" where
  "called_with sent req \<longleftrightarrow> sent \<noteq> [] \<and> last sent = req"

definition raises_cc :: "'a py_result \<Rightarrow> bool" where
  "raises_cc r \<longleftrightarrow> (case r of Inl (ChangeConfigurationException _) \<Rightarrow> True | _ \<Rightarrow> False)"

definition raises_tm :: "'a py_result \<Rightarrow> bool" where
  "raises_tm r \<longleftrightarrow> (case r of Inl (TriggerMessageException _) \<Rightarrow> True | _ \<Rightarrow> False)"

definition raises_timeout :: "'a py_result \<Rightarrow> bool" where
  "raises_timeout r \<longleftrightarrow> (case r of Inl (TimeoutException _) \<Rightarrow> True | _ \<Rightarrow> False)"

definition test_set_light_intensity_with_accepted_answer :: bool where
  "test_set_light_intensity_with_accepted_answer \<longleftrightarrow>
     list_all (\<lambda>i. let (r, sent) = set_light_intensity (mock_bridge (ChangeConfigurationResult ''Accepted''))
                                     mock_proxy i
                   in r = Inr () \<and> called_with sent (ChangeConfigurationPayload ''LightIntensity'' (py_str_int i)))
       (py_range 0 110 10)"

definition test_set_light_intensity_with_rejected_answer :: bool where
  "test_set_light_intensity_with_rejected_answer \<longleftrightarrow>
     raises_cc (fst (set_light_intensity (mock_bridge (ChangeConfigurationResult ''Rejected'')) mock_proxy 90))"

definition test_set_light_intensity_with_value_out_of_range :: bool where
  "test_set_light_intensity_with_value_out_of_range \<longleftrightarrow>
     raises_cc (fst (set_light_intensity (\<lambda>_ _. Inl (Exception ''Mock'')) mock_proxy 110))"

definition test_get_light_intensity :: bool where
  "test_get_light_intensity \<longleftrightarrow>
     list_all (\<lambda>i. let (r, sent) = get_light_intensity
                       (mock_bridge (GetConfigurationResult
                          (Some [\<lparr>ck_key = ''LightIntensity'', ck_readonly = False, ck_value = Some (py_str_int i)\<rparr>])
                          None))
                       mock_proxy
                   in r = Inr i \<and> called_with sent (GetConfigurationPayload [''LightIntensity'']))
       (py_range 0 110 10)"

definition test_trigger_message :: bool where
  "test_trigger_message \<longleftrightarrow>
     (let (r, sent) = trigger_message (mock_bridge (TriggerMessageResult ''Accepted'')) mock_proxy ''Heartbeat''
      in (\<exists>v. r = Inr v) \<and> called_with sent (TriggerMessagePayload ''Heartbeat''))"

definition test_trigger_message_with_rejected_response :: bool where
  "test_trigger_message_with_rejected_response \<longleftrightarrow>
     (let (r, sent) = trigger_message (mock_bridge (TriggerMessageResult ''Rejected'')) mock_proxy ''Heartbeat''
      in raises_tm r \<and> sent \<noteq> [])"

definition test_trigger_message_that_is_not_allowed_to_trigger :: bool where
  "test_trigger_message_that_is_not_allowed_to_trigger \<longleftrightarrow>
     (let (r, sent) = trigger_message (\<lambda>_ _. Inl (Exception ''Mock'')) mock_proxy ''StopTransaction''
      in raises_tm r \<and> sent = [])"

definition test_heartbeat_handler :: "datetime \<Rightarrow> bool" where
  "test_heartbeat_handler now \<longleftrightarrow>
     (case snd (on_heartbeat mock_proxy now) of HeartbeatResult _ \<Rightarrow> True | _ \<Rightarrow> False)"

definition test_heartbeat_handler_with_msg_trap :: "datetime \<Rightarrow> bool" where
  "test_heartbeat_handler_with_msg_trap now \<longleftrightarrow>
     (let s1 = add_msg_trap mock_proxy (Some ''Heartbeat'');
          s2 = fst (on_heartbeat s1 now)
      in fst (wait_msg s2 (Some ''Heartbeat'')) = Inr HeartbeatPayload)"

definition test_wait_for_message_with_timeout :: "datetime \<Rightarrow> bool" where
  "test_wait_for_message_with_timeout now \<longleftrightarrow>
     (let s1 = fst (on_heartbeat mock_proxy now)
      in raises_timeout (fst (wait_msg s1 (Some ''Heartbeat''))))"

definition test_when_a_message_trigger_occurs_the_trigger_is_removed :: "datetime \<Rightarrow> bool" where
  "test_when_a_message_trigger_occurs_the_trigger_is_removed now \<longleftrightarrow>
     (let s1 = add_msg_trap mock_proxy (Some ''Heartbeat'');
          s2 = fst (on_heartbeat s1 now);
          (r1, s3) = wait_msg s2 (Some ''Heartbeat'')
      in r1 = Inr HeartbeatPayload \<and> raises_timeout (fst (wait_msg s3 (Some ''Heartbeat''))))"

definition test_wait_message_without_message_argument :: "datetime \<Rightarrow> bool" where
  "test_wait_message_without_message_argument now \<longleftrightarrow>
     (let s1 = add_msg_trap mock_proxy (Some ''Heartbeat'');
          s2 = fst (on_heartbeat s1 now)
      in fst (wait_msg s2 None) = Inr HeartbeatPayload)"

definition unit_tests :: "datetime \<Rightarrow> bool" where
  "unit_tests now \<longleftrightarrow>
     test_set_light_intensity_with_accepted_answer \<and> test_set_light_intensity_with_rejected_answer
     \<and> test_set_light_intensity_with_value_out_of_range \<and> test_get_light_intensity
     \<and> test_trigger_message \<and> test_trigger_message_with_rejected_response
     \<and> test_trigger_message_that_is_not_allowed_to_trigger \<and> test_heartbeat_handler now
     \<and> test_heartbeat_handler_with_msg_trap now \<and> test_wait_for_message_with_timeout now
     \<and> test_when_a_message_trigger_occurs_the_trigger_is_removed now
     \<and> test_wait_message_without_message_argument now"

section \<open>The suite on the model\<close>

lemma py_range_0_110_10: "py_range 0 110 10 = [0, 10, 20, 30, 40, 50, 60, 70, 80, 90, 100]"
  by (simp add: py_range_def upt_conv_Cons)

lemma test_set_light_intensity_with_accepted_answer_passes: "test_set_light_intensity_with_accepted_answer"
  by (simp add: test_set_light_intensity_with_accepted_answer_def py_range_0_110_10 set_light_intensity_def
      mock_bridge_def mock_proxy_def new_proxy_def called_with_def)

lemma test_set_light_intensity_with_rejected_answer_passes: "test_set_light_intensity_with_rejected_answer"
  by (simp add: test_set_light_intensity_with_rejected_answer_def set_light_intensity_def mock_bridge_def
      mock_proxy_def new_proxy_def raises_cc_def)

lemma test_set_light_intensity_with_value_out_of_range_passes: "test_set_light_intensity_with_value_out_of_range"
  by (simp add: test_set_light_intensity_with_value_out_of_range_def set_light_intensity_def raises_cc_def)

lemma test_get_light_intensity_passes: "test_get_light_intensity"
  by (simp add: test_get_light_intensity_def py_range_0_110_10 get_light_intensity_def mock_bridge_def
      mock_proxy_def new_proxy_def called_with_def py_int_py_str_int)

lemma test_trigger_message_passes: "test_trigger_message"
  by (simp add: test_trigger_message_def trigger_message_def triggable_msgs_def mock_bridge_def
      mock_proxy_def new_proxy_def called_with_def)

lemma test_trigger_message_with_rejected_response_passes: "test_trigger_message_with_rejected_response"
  by (simp add: test_trigger_message_with_rejected_response_def trigger_message_def triggable_msgs_def
      mock_bridge_def mock_proxy_def new_proxy_def raises_tm_def)

lemma test_trigger_message_that_is_not_allowed_to_trigger_passes: "test_trigger_message_that_is_not_allowed_to_trigger"
  by (simp add: test_trigger_message_that_is_not_allowed_to_trigger_def trigger_message_def
      triggable_msgs_def raises_tm_def)

text \<open>Every test of the suite passes on the model, at every wall-clock instant.\<close>

theorem unit_tests_pass: "unit_tests now"
  by (simp add: unit_tests_def test_set_light_intensity_with_accepted_answer_passes test_set_light_intensity_with_rejected_answer_passes test_set_light_intensity_with_value_out_of_range_passes test_get_light_intensity_passes test_trigger_message_passes test_trigger_message_with_rejected_response_passes test_trigger_message_that_is_not_allowed_to_trigger_passes test_heartbeat_handler_def
      test_heartbeat_handler_with_msg_trap_def test_wait_for_message_with_timeout_def
      test_when_a_message_trigger_occurs_the_trigger_is_removed_def test_wait_message_without_message_argument_def
      on_heartbeat_def trap_put_def add_msg_trap_def wait_msg_def set_remove_def mock_proxy_def new_proxy_def
      raises_timeout_def)

end
