(* ===== verification/TestSystem.thy ===== *)
theory TestSystem
  imports KeywordLib
begin

text \<open>
  The running test system: the Robot Framework thread calls keywords of
  \<open>src/libs/centralsystem.py\<close> one after the other, while the server thread started by
  \<open>serve\<close> accepts websocket connections (\<open>__on_connect\<close> of
  \<open>src/chargeamps/CentralSystem.py\<close>) and runs each connection's dispatch loop. Both act
  on the one central system the library holds. A step of the system is one keyword call
  of the test thread (\<open>keyword_call\<close>) or one move of the server thread
  (\<open>server_move\<close>), in any order. A keyword call is one step here; the interleaving of
  the lines inside a proxy method is the subject of \<open>SessionInterleaving\<close>. A step that
  cannot happen yet is \<open>None\<close>: \<open>Wait For ChargePoint To Connect\<close> blocked in
  \<open>Event.wait()\<close>, or a server move before the server was started or on a connection
  that does not exist. Each step gives what the keyword returned or raised, or the
  acknowledgement the dispatch loop sent.
\<close>

datatype keyword =
    KStart string string
  | KWaitConnect
  | KTrigger string msg_name
  | KClearQueue string
  | KAddTrap string msg_name
  | KWaitMsg string msg_name
  | KSetLight string string
  | KGetLight string
  | KDisconnect

datatype server_event =
    SConnect string async_communicator
  | SDispatch nat msg_name kwargs datetime

datatype sys_event = Robot keyword | Server server_event

datatype sys_out =
    OUnit "unit py_result"
  | OId "string py_result"
  | OMsg "notification py_result"
  | OInt "int py_result"
  | OAck "call_result py_result"
  | OConnected

text \<open>One keyword call of the test thread, on the library object of the suite.\<close>

fun keyword_call :: "async_communicator bridge \<Rightarrow> kw_lib \<Rightarrow> keyword \<Rightarrow> (sys_out \<times> kw_lib) option" where
  "keyword_call bc lib (KStart a p) = Some (apfst OUnit (start_CentralSystem lib a p))"
| "keyword_call bc lib KWaitConnect = map_option (apfst OId) (wait_for_ChargePoint_to_connect lib)"
| "keyword_call bc lib (KTrigger i m) = Some (apfst OUnit (send_TriggerMessage bc lib i m))"
| "keyword_call bc lib (KClearQueue i) = Some (apfst OUnit (clear_msg_queue_kw lib i))"
| "keyword_call bc lib (KAddTrap i m) = Some (apfst OUnit (add_msg_trap_kw lib i m))"
| "keyword_call bc lib (KWaitMsg i m) = Some (apfst OMsg (wait_for_msg lib i m))"
| "keyword_call bc lib (KSetLight i x) = Some (apfst OUnit (set_light_intensity_kw bc lib i x))"
| "keyword_call bc lib (KGetLight i) = Some (apfst OInt (get_light_intensity_kw bc lib i))"
| "keyword_call bc lib KDisconnect = Some (apfst OUnit (disconnect_central_system lib))"

text \<open>One move of the server thread: a station connects on \<open>path\<close> and \<open>__on_connect\<close>
  registers its proxy, or the dispatch loop of connection \<open>k\<close> handles one inbound call.\<close>

fun server_move :: "kw_lib \<Rightarrow> server_event \<Rightarrow> (sys_out \<times> kw_lib) option" where
  "server_move lib (SConnect path ac) =
     (case lib_cs lib of
        None \<Rightarrow> None
      | Some cs \<Rightarrow> Some (OConnected, lib\<lparr>lib_cs := Some (on_connect cs path ac)\<rparr>))"
| "server_move lib (SDispatch k a p now) =
     (case lib_cs lib of
        None \<Rightarrow> None
      | Some cs \<Rightarrow>
          (if k < length (connected_chargepoints cs)
           then (let (cs', ack) = dispatch cs k a p now in Some (OAck ack, lib\<lparr>lib_cs := Some cs'\<rparr>))
           else None))"

fun sys_exec :: "async_communicator bridge \<Rightarrow> kw_lib \<Rightarrow> sys_event \<Rightarrow> (sys_out \<times> kw_lib) option" where
  "sys_exec bc lib (Robot kw) = keyword_call bc lib kw"
| "sys_exec bc lib (Server ev) = server_move lib ev"

text \<open>A schedule of the two threads, run from a state; \<open>None\<close> when some step of it
  cannot happen. The outputs are those of the steps, in order.\<close>

fun sys_run :: "async_communicator bridge \<Rightarrow> kw_lib \<Rightarrow> sys_event list \<Rightarrow> (sys_out list \<times> kw_lib) option" where
  "sys_run bc lib [] = Some ([], lib)"
| "sys_run bc lib (e # es) =
     (case sys_exec bc lib e of
        None \<Rightarrow> None
      | Some (out, lib') \<Rightarrow> map_option (apfst (Cons out)) (sys_run bc lib' es))"

text \<open>The library object of a suite before \<open>Start CentralSystem\<close>: no \<open>cs\<close> attribute.\<close>

definition sys_init :: kw_lib where
  "sys_init = \<lparr>lib_cs = None\<rparr>"

inductive sys_reach :: "async_communicator bridge \<Rightarrow> kw_lib \<Rightarrow> bool" for bc where
  init: "sys_reach bc sys_init"
| step: "sys_reach bc lib \<Longrightarrow> sys_exec bc lib e = Some (out, lib') \<Longrightarrow> sys_reach bc lib'"

text \<open>Where the queued notifications come from: \<open>queues_from lib H\<close> says that every
  notification in the queue of session \<open>k\<close> is paired with \<open>k\<close> in \<open>H\<close>.
  \<open>dispatch_pushes e\<close> is what a step may queue: a dispatch on connection \<open>k\<close> of a
  handled notification. Both are specification devices.\<close>

definition queues_from :: "kw_lib \<Rightarrow> (nat \<times> notification) set \<Rightarrow> bool" where
  "queues_from lib H \<longleftrightarrow>
     (case lib_cs lib of
        None \<Rightarrow> True
      | Some cs \<Rightarrow> (\<forall>k<length (connected_chargepoints cs).
                      \<forall>x\<in>set (msgq (connected_chargepoints cs ! k)). (k, x) \<in> H))"

definition dispatch_pushes :: "sys_event \<Rightarrow> (nat \<times> notification) set" where
  "dispatch_pushes e =
     (case e of
        Server (SDispatch k a p now) \<Rightarrow> (case handled_notification a p of Some m \<Rightarrow> {(k, m)} | None \<Rightarrow> {})
      | _ \<Rightarrow> {})"

text \<open>A sample suite: start the central system, station \<open>CP1\<close> connects, the test traps
  heartbeats, a heartbeat arrives, and the test waits for it.\<close>

definition trap_wait_sched :: "sys_event list" where
  "trap_wait_sched =
     [Robot (KStart ''0.0.0.0'' ''9000''), Server (SConnect ''/CP1'' ac0), Robot (KAddTrap ''CP1'' ''Heartbeat''),
      Server (SDispatch 0 ''Heartbeat'' [] now0), Robot (KWaitMsg ''CP1'' ''Heartbeat'')]"

section \<open>Lemmas\<close>

subsection \<open>Every step is a stutter or a registry transition\<close>

lemma apfst_eq_Pair [simp]: "apfst f x = (a, b) \<longleftrightarrow> f (fst x) = a \<and> snd x = b"
  by (cases x) auto

lemma proxy_step_wait: "fst (proxy_step p (WaitMsg m)) = snd (wait_msg p m)"
  by (simp split: prod.splits sum.splits)

lemma with_chargepoint_cs_step:
  assumes "lib_cs lib = Some cs" "\<And>p. snd (f p) = p \<or> (\<exists>e. snd (f p) = fst (proxy_step p e))"
  shows "\<exists>cs'. lib_cs (snd (with_chargepoint lib i f)) = Some cs' \<and> (cs' = cs \<or> cs_step cs cs')"
proof (cases "find_chargepoint cs i")
  case (Inl e)
  then show ?thesis by (simp add: with_chargepoint_def assms(1))
next
  case (Inr k)
  let ?p = "connected_chargepoints cs ! k"
  have k: "k < length (connected_chargepoints cs)" using Inr find_chargepoint_Inr by blast
  have w: "lib_cs (snd (with_chargepoint lib i f)) = Some (update_cp cs k (\<lambda>_. snd (f ?p)))"
    using assms(1) Inr by (simp add: with_chargepoint_def split: prod.splits)
  from assms(2) [of ?p] show ?thesis
  proof
    assume "snd (f ?p) = ?p"
    then show ?thesis using w by simp
  next
    assume "\<exists>e. snd (f ?p) = fst (proxy_step ?p e)"
    then obtain e where "snd (f ?p) = fst (proxy_step ?p e)" ..
    then have "update_cp cs k (\<lambda>_. snd (f ?p)) = update_cp cs k (\<lambda>p. fst (proxy_step p e))"
      by (simp add: update_cp_def)
    then show ?thesis using w cs_step.proxy [OF k, of e] by auto
  qed
qed

lemma keyword_call_cs_step:
  assumes "keyword_call bc lib kw = Some (out, lib')" "lib_cs lib = Some cs"
  shows "\<exists>cs'. lib_cs lib' = Some cs' \<and> (cs' = cs \<or> cs_step cs cs')"
proof (cases kw)
  case KWaitConnect
  with assms obtain r cs' where "wait_for_connection cs = Some (r, cs')" "lib_cs lib' = Some cs'"
    by (auto simp: wait_for_ChargePoint_to_connect_def)
  then show ?thesis by (blast intro: cs_step.wait_conn)
next
  case (KTrigger i m)
  then show ?thesis using assms with_chargepoint_cs_step [OF assms(2),
      of "\<lambda>p. (map_sum id (\<lambda>_. ()) (fst (trigger_message bc p m)), p)" i]
    by (auto simp: send_TriggerMessage_def)
next
  case (KClearQueue i)
  have "\<exists>cs'. lib_cs (snd (clear_msg_queue_kw lib i)) = Some cs' \<and> (cs' = cs \<or> cs_step cs cs')"
    unfolding clear_msg_queue_kw_def
    by (rule with_chargepoint_cs_step [OF assms(2)]) (rule disjI2, rule exI [of _ ClearQueue], simp)
  with KClearQueue assms(1) show ?thesis by simp
next
  case (KAddTrap i m)
  have "\<exists>cs'. lib_cs (snd (add_msg_trap_kw lib i m)) = Some cs' \<and> (cs' = cs \<or> cs_step cs cs')"
    unfolding add_msg_trap_kw_def
    by (rule with_chargepoint_cs_step [OF assms(2)]) (rule disjI2, rule exI [of _ "AddTrap (Some m)"], simp)
  with KAddTrap assms(1) show ?thesis by simp
next
  case (KWaitMsg i m)
  have "\<exists>cs'. lib_cs (snd (wait_for_msg lib i m)) = Some cs' \<and> (cs' = cs \<or> cs_step cs cs')"
    unfolding wait_for_msg_def
    by (rule with_chargepoint_cs_step [OF assms(2)])
      (rule disjI2, rule exI [of _ "WaitMsg (Some m)"], simp only: proxy_step_wait)
  with KWaitMsg assms(1) show ?thesis by simp
next
  case (KSetLight i x)
  have "\<exists>cs'. lib_cs (snd (set_light_intensity_kw bc lib i x)) = Some cs' \<and> (cs' = cs \<or> cs_step cs cs')"
    unfolding set_light_intensity_kw_def
    by (rule with_chargepoint_cs_step [OF assms(2)]) (rule disjI1, simp split: sum.splits)
  with KSetLight assms(1) show ?thesis by simp
next
  case (KGetLight i)
  then show ?thesis using assms with_chargepoint_cs_step [OF assms(2), of "\<lambda>p. (fst (get_light_intensity bc p), p)" i]
    by (auto simp: get_light_intensity_kw_def)
qed (use assms in \<open>auto simp: start_CentralSystem_def disconnect_central_system_def split: if_splits\<close>)

lemma server_move_cs_step:
  assumes "server_move lib ev = Some (out, lib')" "lib_cs lib = Some cs"
  shows "\<exists>cs'. lib_cs lib' = Some cs' \<and> cs_step cs cs'"
proof (cases ev)
  case (SConnect path ac)
  with assms show ?thesis by (auto intro: cs_step.connect)
next
  case (SDispatch k a p now)
  with assms have k: "k < length (connected_chargepoints cs)"
    and l: "lib_cs lib' = Some (fst (dispatch cs k a p now))"
    by (auto split: if_splits prod.splits)
  have "fst (dispatch cs k a p now) = update_cp cs k (\<lambda>q. fst (proxy_step q (Inbound a p now)))"
    by (simp add: dispatch_def update_cp_def split: prod.splits)
  with l show ?thesis using cs_step.proxy [OF k, of "Inbound a p now"] by auto
qed

lemmas keyword_defs = send_TriggerMessage_def clear_msg_queue_kw_def add_msg_trap_kw_def
  wait_for_msg_def set_light_intensity_kw_def get_light_intensity_kw_def

lemma sys_exec_unstarted:
  assumes "sys_exec bc lib e = Some (out, lib')" "lib_cs lib = None"
  shows "lib_cs lib' = None \<or> (\<exists>a p. lib_cs lib' = Some (serve a p))"
proof (cases e)
  case (Robot kw)
  with assms show ?thesis
    by (cases kw; auto simp: start_CentralSystem_def wait_for_ChargePoint_to_connect_def
        disconnect_central_system_def with_chargepoint_def keyword_defs simp del: serve_def; blast)
next
  case (Server ev)
  with assms show ?thesis by (cases ev) auto
qed

lemma sys_exec_step:
  assumes "sys_exec bc lib e = Some (out, lib')" "lib_cs lib = Some cs"
  shows "\<exists>cs'. lib_cs lib' = Some cs' \<and> (cs' = cs \<or> cs_step cs cs')"
proof (cases e)
  case (Robot kw)
  with assms keyword_call_cs_step [of bc lib kw out lib' cs] show ?thesis by auto
next
  case (Server ev)
  with assms server_move_cs_step [of lib ev out lib' cs] show ?thesis by auto
qed

lemma sys_exec_cs_step:
  "sys_exec bc lib e = Some (out, lib') \<Longrightarrow> lib_cs lib = Some cs \<Longrightarrow>
   \<exists>cs'. lib_cs lib' = Some cs' \<and> cs_step\<^sup>*\<^sup>* cs cs'"
  by (blast dest: sys_exec_step)

lemma cs_step_addr_port: "cs_step cs cs' \<Longrightarrow> cs_addr cs' = cs_addr cs \<and> cs_port cs' = cs_port cs"
  by (induction rule: cs_step.induct)
    (auto simp: on_connect_def update_cp_def wait_for_connection_def Let_def split: if_splits list.splits)

lemma cs_steps_reach:
  "cs_step\<^sup>*\<^sup>* cs cs' \<Longrightarrow> cs_reach a p cs \<Longrightarrow> cs_reach a p cs'"
  by (induction rule: rtranclp_induct) (auto intro: cs_reach.step)

lemma cs_steps_addr_port:
  "cs_step\<^sup>*\<^sup>* cs cs' \<Longrightarrow> cs_addr cs' = cs_addr cs \<and> cs_port cs' = cs_port cs"
  by (induction rule: rtranclp_induct) (auto dest: cs_step_addr_port)

lemma cs_steps_nth_id:
  "cs_step\<^sup>*\<^sup>* cs cs' \<Longrightarrow> j < length (connected_chargepoints cs) \<Longrightarrow>
   j < length (connected_chargepoints cs')
   \<and> cp_id (connected_chargepoints cs' ! j) = cp_id (connected_chargepoints cs ! j)"
  by (induction rule: rtranclp_induct) (auto dest: cs_step_nth_id)

lemma cs_steps_find:
  "cs_step\<^sup>*\<^sup>* cs cs' \<Longrightarrow> find_chargepoint cs i = Inr k \<Longrightarrow> find_chargepoint cs' i = Inr k"
  by (induction rule: rtranclp_induct) (auto dest: find_chargepoint_cs_step)

lemma sys_run_cs_steps:
  "sys_run bc lib es = Some (outs, lib') \<Longrightarrow> lib_cs lib = Some cs \<Longrightarrow>
   \<exists>cs'. lib_cs lib' = Some cs' \<and> cs_step\<^sup>*\<^sup>* cs cs'"
proof (induction es arbitrary: lib outs cs)
  case Nil
  then show ?case by simp
next
  case (Cons e es)
  then obtain out lib1 outs1 where e: "sys_exec bc lib e = Some (out, lib1)"
    and r: "sys_run bc lib1 es = Some (outs1, lib')"
    by (auto split: option.splits)
  obtain cs1 where "lib_cs lib1 = Some cs1" "cs_step\<^sup>*\<^sup>* cs cs1"
    using sys_exec_cs_step [OF e Cons.prems(2)] by blast
  with Cons.IH [OF r] show ?case by (meson rtranclp_trans)
qed

subsection \<open>Where the queued notifications come from\<close>

lemma queues_from_mono: "queues_from lib H \<Longrightarrow> H \<subseteq> H' \<Longrightarrow> queues_from lib H'"
  by (auto simp: queues_from_def split: option.splits)

lemma wait_msg_queue_subset: "set (msgq (snd (wait_msg p m))) \<subseteq> set (msgq p)"
  by (cases "msgq p") (auto simp: wait_msg_empty wait_msg_head)

lemma queues_from_update:
  assumes "lib_cs lib = Some cs" "queues_from lib H" "k < length (connected_chargepoints cs)"
    "\<forall>x\<in>set (msgq p'). (k, x) \<in> H'" "H \<subseteq> H'"
  shows "queues_from (lib\<lparr>lib_cs := Some (update_cp cs k (\<lambda>_. p'))\<rparr>) H'"
proof -
  let ?cps = "connected_chargepoints cs"
  have h: "\<forall>j<length ?cps. \<forall>x\<in>set (msgq (?cps ! j)). (j, x) \<in> H"
    using assms(1,2) by (simp add: queues_from_def)
  have "\<forall>j<length ?cps. \<forall>x\<in>set (msgq (?cps[k := p'] ! j)). (j, x) \<in> H'"
  proof (intro allI impI ballI)
    fix j x
    assume j: "j < length ?cps" and x: "x \<in> set (msgq (?cps[k := p'] ! j))"
    show "(j, x) \<in> H'"
    proof (cases "j = k")
      case True
      then show ?thesis using x assms(3,4) by simp
    next
      case False
      then show ?thesis using x h j assms(5) by auto
    qed
  qed
  then show ?thesis by (simp add: queues_from_def update_cp_def)
qed

lemma with_chargepoint_queues:
  assumes "queues_from lib H" "\<And>p. set (msgq (snd (f p))) \<subseteq> set (msgq p)"
  shows "queues_from (snd (with_chargepoint lib i f)) H"
proof (cases "lib_cs lib")
  case None
  then show ?thesis using assms(1) by (simp add: with_chargepoint_def)
next
  case (Some cs)
  show ?thesis
  proof (cases "find_chargepoint cs i")
    case (Inl e)
    then show ?thesis using Some assms(1) by (simp add: with_chargepoint_def)
  next
    case (Inr k)
    let ?p = "connected_chargepoints cs ! k"
    have k: "k < length (connected_chargepoints cs)" using Inr find_chargepoint_Inr by blast
    have "\<forall>x\<in>set (msgq (snd (f ?p))). (k, x) \<in> H"
      using assms Some k by (auto simp: queues_from_def)
    then have "queues_from (lib\<lparr>lib_cs := Some (update_cp cs k (\<lambda>_. snd (f ?p)))\<rparr>) H"
      using queues_from_update [OF Some assms(1) k] by blast
    then show ?thesis using with_chargepoint_found [OF Some Inr, of f "fst (f ?p)" "snd (f ?p)"] by simp
  qed
qed

lemma keyword_call_queues_from:
  assumes "keyword_call bc lib kw = Some (out, lib')" "queues_from lib H"
  shows "queues_from lib' H"
proof (cases kw)
  case (KTrigger i m)
  have "queues_from (snd (send_TriggerMessage bc lib i m)) H"
    unfolding send_TriggerMessage_def by (rule with_chargepoint_queues [OF assms(2)]) simp
  with KTrigger assms(1) show ?thesis by simp
next
  case (KClearQueue i)
  have "queues_from (snd (clear_msg_queue_kw lib i)) H"
    unfolding clear_msg_queue_kw_def
    by (rule with_chargepoint_queues [OF assms(2)]) (simp add: clear_msg_queue_def)
  with KClearQueue assms(1) show ?thesis by simp
next
  case (KAddTrap i m)
  have "queues_from (snd (add_msg_trap_kw lib i m)) H"
    unfolding add_msg_trap_kw_def
    by (rule with_chargepoint_queues [OF assms(2)]) (simp add: add_msg_trap_def)
  with KAddTrap assms(1) show ?thesis by simp
next
  case (KWaitMsg i m)
  have "queues_from (snd (wait_for_msg lib i m)) H"
    unfolding wait_for_msg_def by (rule with_chargepoint_queues [OF assms(2) wait_msg_queue_subset])
  with KWaitMsg assms(1) show ?thesis by simp
next
  case (KSetLight i x)
  have "queues_from (snd (set_light_intensity_kw bc lib i x)) H"
    unfolding set_light_intensity_kw_def
    by (rule with_chargepoint_queues [OF assms(2)]) (simp split: sum.splits)
  with KSetLight assms(1) show ?thesis by simp
next
  case (KGetLight i)
  have "queues_from (snd (get_light_intensity_kw bc lib i)) H"
    unfolding get_light_intensity_kw_def by (rule with_chargepoint_queues [OF assms(2)]) simp
  with KGetLight assms(1) show ?thesis by simp
qed (use assms in \<open>auto simp: queues_from_def start_CentralSystem_def serve_def
      wait_for_ChargePoint_to_connect_def wait_for_connection_def disconnect_central_system_def Let_def
      split: option.splits if_splits list.splits\<close>)

lemma server_move_queues_from:
  assumes "server_move lib ev = Some (out, lib')" "queues_from lib H"
  shows "queues_from lib' (H \<union> dispatch_pushes (Server ev))"
proof (cases ev)
  case (SConnect path ac)
  with assms show ?thesis
    by (auto simp: queues_from_def on_connect_prefix nth_append less_Suc_eq set_comm_def new_proxy_def
        split: option.splits)
next
  case (SDispatch k a p now)
  with assms(1) obtain cs where cs: "lib_cs lib = Some cs" and k: "k < length (connected_chargepoints cs)"
    and l: "lib_cs lib' = Some (update_cp cs k (\<lambda>q. fst (route_message q a p now)))"
    by (auto simp: dispatch_def update_cp_def split: option.splits if_splits prod.splits)
  have "\<forall>x\<in>set (pushed_by (connected_chargepoints cs ! k) (Inbound a p now)).
      (k, x) \<in> dispatch_pushes (Server ev)"
    using SDispatch by (auto simp: dispatch_pushes_def split: option.splits if_splits)
  then have "\<forall>x\<in>set (msgq (fst (route_message (connected_chargepoints cs ! k) a p now))).
      (k, x) \<in> H \<union> dispatch_pushes (Server ev)"
    using assms(2) cs k route_message_fields [of "connected_chargepoints cs ! k" a p now]
    by (auto simp: queues_from_def)
  then have "queues_from (lib\<lparr>lib_cs := Some (update_cp cs k (\<lambda>_. fst (route_message
      (connected_chargepoints cs ! k) a p now)))\<rparr>) (H \<union> dispatch_pushes (Server ev))"
    using queues_from_update [OF cs assms(2) k] by blast
  moreover have "lib' = lib\<lparr>lib_cs := lib_cs lib'\<rparr>" using assms(1) SDispatch
    by (auto split: option.splits if_splits prod.splits)
  ultimately show ?thesis using l by (metis update_cp_apply)
qed

lemma sys_exec_queues_from:
  "sys_exec bc lib e = Some (out, lib') \<Longrightarrow> queues_from lib H \<Longrightarrow>
   queues_from lib' (H \<union> dispatch_pushes e)"
proof (cases e)
  case (Robot kw)
  then show "sys_exec bc lib e = Some (out, lib') \<Longrightarrow> queues_from lib H \<Longrightarrow>
      queues_from lib' (H \<union> dispatch_pushes e)"
    using keyword_call_queues_from [of bc lib kw out lib' H] queues_from_mono by simp
qed (simp add: server_move_queues_from)

lemma wait_for_msg_Inr:
  assumes "fst (wait_for_msg lib i nm) = Inr m"
  shows "\<exists>cs k. lib_cs lib = Some cs \<and> find_chargepoint cs i = Inr k
    \<and> m \<in> set (msgq (connected_chargepoints cs ! k))"
proof (cases "lib_cs lib")
  case None
  with assms show ?thesis by (simp add: wait_for_msg_def with_chargepoint_def)
next
  case (Some cs)
  show ?thesis
  proof (cases "find_chargepoint cs i")
    case (Inl e)
    with Some assms show ?thesis by (simp add: wait_for_msg_def with_chargepoint_def)
  next
    case (Inr k)
    with Some assms show ?thesis
      by (cases "msgq (connected_chargepoints cs ! k)")
        (simp_all add: wait_for_msg_def with_chargepoint_def wait_msg_empty wait_msg_head split: prod.splits)
  qed
qed

lemma dispatch_pushes_mem:
  "(k, m) \<in> dispatch_pushes e \<Longrightarrow>
   \<exists>a p now. e = Server (SDispatch k a p now) \<and> handled_notification a p = Some m"
proof (cases e)
  case (Server ev)
  then show "(k, m) \<in> dispatch_pushes e \<Longrightarrow> ?thesis"
    by (cases ev) (auto simp: dispatch_pushes_def split: option.splits)
qed (simp add: dispatch_pushes_def)

lemma sys_run_wait_source:
  assumes "sys_run bc lib es = Some (outs, lib')" "queues_from lib H" "n < length es"
    "es ! n = Robot (KWaitMsg i nm)" "outs ! n = OMsg (Inr m)"
  shows "\<exists>k cs'. lib_cs lib' = Some cs' \<and> cp_id (connected_chargepoints cs' ! k) = i
    \<and> ((k, m) \<in> H \<or> (\<exists>j<n. (k, m) \<in> dispatch_pushes (es ! j)))"
  using assms
proof (induction es arbitrary: lib H n outs)
  case Nil
  then show ?case by simp
next
  case (Cons e es)
  then obtain out lib1 outs1 where e: "sys_exec bc lib e = Some (out, lib1)"
    and r: "sys_run bc lib1 es = Some (outs1, lib')" and o: "outs = out # outs1"
    by (auto split: option.splits)
  show ?case
  proof (cases n)
    case 0
    then have "e = Robot (KWaitMsg i nm)" "out = OMsg (Inr m)" using Cons.prems(4,5) o by simp_all
    then have "fst (wait_for_msg lib i nm) = Inr m" "lib1 = snd (wait_for_msg lib i nm)" using e by auto
    then obtain cs k where cs: "lib_cs lib = Some cs" and f: "find_chargepoint cs i = Inr k"
      and m: "m \<in> set (msgq (connected_chargepoints cs ! k))"
      using wait_for_msg_Inr by blast
    have k: "k < length (connected_chargepoints cs)" "cp_id (connected_chargepoints cs ! k) = i"
      using find_chargepoint_Inr [OF f] by simp_all
    then have "(k, m) \<in> H" using Cons.prems(2) cs m by (auto simp: queues_from_def)
    moreover obtain cs1 where "lib_cs lib1 = Some cs1" "cs_step\<^sup>*\<^sup>* cs cs1"
      using sys_exec_cs_step [OF e cs] by blast
    moreover obtain cs' where "lib_cs lib' = Some cs'" "cs_step\<^sup>*\<^sup>* cs1 cs'"
      using sys_run_cs_steps [OF r] calculation(2) by blast
    ultimately show ?thesis using cs_steps_nth_id [of cs cs' k] k by (meson rtranclp_trans)
  next
    case (Suc n')
    have q: "queues_from lib1 (H \<union> dispatch_pushes e)" using sys_exec_queues_from [OF e Cons.prems(2)] .
    have "\<exists>k cs'. lib_cs lib' = Some cs' \<and> cp_id (connected_chargepoints cs' ! k) = i
      \<and> ((k, m) \<in> H \<union> dispatch_pushes e \<or> (\<exists>j<n'. (k, m) \<in> dispatch_pushes (es ! j)))"
      by (rule Cons.IH [OF r q]) (use Cons.prems(3,4,5) o Suc in simp_all)
    then obtain k cs' where "lib_cs lib' = Some cs'" "cp_id (connected_chargepoints cs' ! k) = i"
      and h: "(k, m) \<in> H \<union> dispatch_pushes e \<or> (\<exists>j<n'. (k, m) \<in> dispatch_pushes (es ! j))"
      by blast
    moreover have "(k, m) \<in> H \<or> (\<exists>j<n. (k, m) \<in> dispatch_pushes ((e # es) ! j))"
      using h Suc by (auto intro: exI [of _ 0] exI [of _ "Suc _"])
    ultimately show ?thesis by blast
  qed
qed

section \<open>Properties\<close>

text \<open>C35: refinement of the registry by the running system. Whatever order the test
  thread's keywords and the server thread's connections and dispatches take, the central
  system the library holds is a state the registry's transition system \<open>cs_reach\<close>
  reaches from \<open>serve\<close> with the same address and port, and each further step of
  either thread leaves it unchanged or takes exactly one registry transition. So every
  invariant of \<open>cs_reach\<close> holds in the running system, and no keyword replaces the
  central system once it is started.\<close>

theorem sys_reach_cs_reach:
  assumes "sys_reach bc lib" "lib_cs lib = Some cs"
  shows "cs_reach (cs_addr cs) (cs_port cs) cs
    \<and> (\<forall>e out lib'. sys_exec bc lib e = Some (out, lib') \<longrightarrow>
         (\<exists>cs'. lib_cs lib' = Some cs' \<and> (cs' = cs \<or> cs_step cs cs')))"
proof
  show "cs_reach (cs_addr cs) (cs_port cs) cs"
    using assms
  proof (induction arbitrary: cs rule: sys_reach.induct)
    case init
    then show ?case by (simp add: sys_init_def)
  next
    case (step lib e out lib')
    show ?case
    proof (cases "lib_cs lib")
      case None
      then obtain a p where cs: "cs = serve a p"
        using sys_exec_unstarted [OF step.hyps(2) None] step.prems by auto
      have "cs_addr (serve a p) = a \<and> cs_port (serve a p) = p" by (simp add: serve_def)
      then show ?thesis using cs cs_reach.start [of a p] by simp
    next
      case (Some cs0)
      then obtain cs' where "lib_cs lib' = Some cs'" "cs_step\<^sup>*\<^sup>* cs0 cs'"
        using sys_exec_cs_step [OF step.hyps(2)] by blast
      then show ?thesis using step.IH [OF Some] step.prems cs_steps_reach cs_steps_addr_port by fastforce
    qed
  qed
  show "\<forall>e out lib'. sys_exec bc lib e = Some (out, lib') \<longrightarrow>
      (\<exists>cs'. lib_cs lib' = Some cs' \<and> (cs' = cs \<or> cs_step cs cs'))"
    using sys_exec_step assms(2) by blast
qed

theorem sys_reach_cs_reach_witness:
  "sys_reach ac_bridge \<lparr>lib_cs = Some (on_connect (serve ''0.0.0.0'' ''9000'') ''/CP1'' ac0)\<rparr>
   \<and> cs_reach ''0.0.0.0'' ''9000'' (on_connect (serve ''0.0.0.0'' ''9000'') ''/CP1'' ac0)
   \<and> (\<exists>cs'. lib_cs (snd (the (sys_exec ac_bridge \<lparr>lib_cs = Some (on_connect (serve ''0.0.0.0'' ''9000'') ''/CP1'' ac0)\<rparr>
                (Robot (KStart ''0.0.0.0'' ''9001''))))) = Some cs'
        \<and> (cs' = on_connect (serve ''0.0.0.0'' ''9000'') ''/CP1'' ac0
           \<or> cs_step (on_connect (serve ''0.0.0.0'' ''9000'') ''/CP1'' ac0) cs'))"
proof -
  let ?cs = "on_connect (serve ''0.0.0.0'' ''9000'') ''/CP1'' ac0"
  have r1: "sys_reach ac_bridge \<lparr>lib_cs = Some (serve ''0.0.0.0'' ''9000'')\<rparr>"
    by (rule sys_reach.step [OF sys_reach.init,
        where e = "Robot (KStart ''0.0.0.0'' ''9000'')" and out = "OUnit (Inr ())"])
      (simp add: sys_init_def start_CentralSystem_def)
  have r2: "sys_reach ac_bridge \<lparr>lib_cs = Some ?cs\<rparr>"
    by (rule sys_reach.step [OF r1, where e = "Server (SConnect ''/CP1'' ac0)" and out = OConnected]) simp
  have a: "cs_addr ?cs = ''0.0.0.0'' \<and> cs_port ?cs = ''9000''"
    by (simp add: on_connect_def serve_def)
  obtain out lib' where e: "sys_exec ac_bridge \<lparr>lib_cs = Some ?cs\<rparr> (Robot (KStart ''0.0.0.0'' ''9001'')) = Some (out, lib')"
    by (simp add: start_CentralSystem_def)
  have c: "cs_reach (cs_addr ?cs) (cs_port ?cs) ?cs
    \<and> (\<forall>e out lib'. sys_exec ac_bridge \<lparr>lib_cs = Some ?cs\<rparr> e = Some (out, lib') \<longrightarrow>
         (\<exists>cs'. lib_cs lib' = Some cs' \<and> (cs' = ?cs \<or> cs_step ?cs cs')))"
    by (rule sys_reach_cs_reach [OF r2]) simp
  then have "\<exists>cs'. lib_cs lib' = Some cs' \<and> (cs' = ?cs \<or> cs_step ?cs cs')" using e by blast
  moreover have "snd (the (sys_exec ac_bridge \<lparr>lib_cs = Some ?cs\<rparr> (Robot (KStart ''0.0.0.0'' ''9001'')))) = lib'"
    using e by simp
  ultimately show ?thesis using r2 a c by simp
qed

text \<open>C36: nothing \<open>Wait For Message\<close> returns is invented. In any run of the system
  from the start of a suite, a notification returned by \<open>Wait For Message\<close> for station
  \<open>i\<close> was carried by an inbound call of its type that the dispatch loop of a connection
  handled earlier in the run, and that connection's session is registered under \<open>i\<close>.\<close>

theorem wait_for_msg_dispatched:
  assumes "sys_run bc sys_init es = Some (outs, lib')" "n < length es"
    "es ! n = Robot (KWaitMsg i nm)" "outs ! n = OMsg (Inr m)"
  shows "\<exists>j<n. \<exists>k a p now cs'. es ! j = Server (SDispatch k a p now) \<and> handled_notification a p = Some m
    \<and> lib_cs lib' = Some cs' \<and> cp_id (connected_chargepoints cs' ! k) = i"
proof -
  have "queues_from sys_init {}" by (simp add: queues_from_def sys_init_def)
  then obtain k cs' where "lib_cs lib' = Some cs'" "cp_id (connected_chargepoints cs' ! k) = i"
    and "\<exists>j<n. (k, m) \<in> dispatch_pushes (es ! j)"
    using sys_run_wait_source [OF assms(1) _ assms(2-4)] by blast
  then show ?thesis using dispatch_pushes_mem by blast
qed

theorem wait_for_msg_dispatched_witness:
  "\<exists>outs lib'. sys_run ac_bridge sys_init trap_wait_sched = Some (outs, lib')
     \<and> outs ! 4 = OMsg (Inr HeartbeatPayload)
     \<and> (\<exists>j<4. \<exists>k a p now cs'. trap_wait_sched ! j = Server (SDispatch k a p now)
          \<and> handled_notification a p = Some HeartbeatPayload
          \<and> lib_cs lib' = Some cs' \<and> cp_id (connected_chargepoints cs' ! k) = ''CP1'')"
proof -
  have "\<exists>outs lib'. sys_run ac_bridge sys_init trap_wait_sched = Some (outs, lib')
     \<and> outs ! 4 = OMsg (Inr HeartbeatPayload)"
    by (simp add: trap_wait_sched_def sys_init_def start_CentralSystem_def serve_def on_connect_def
        set_comm_def new_proxy_def py_strip_def rstrip_def is_slash_def add_msg_trap_kw_def
        with_chargepoint_def find_chargepoint_def update_cp_def add_msg_trap_def dispatch_def
        route_message_def on_heartbeat_def trap_put_def wait_for_msg_def wait_msg_def set_remove_def)
  then obtain outs lib' where r: "sys_run ac_bridge sys_init trap_wait_sched = Some (outs, lib')"
    and o: "outs ! 4 = OMsg (Inr HeartbeatPayload)" by blast
  have "length trap_wait_sched = 5" "trap_wait_sched ! 4 = Robot (KWaitMsg ''CP1'' ''Heartbeat'')"
    by (simp_all add: trap_wait_sched_def)
  then show ?thesis using r o wait_for_msg_dispatched [OF r, of 4 "''CP1''" "''Heartbeat''"] by auto
qed

text \<open>C37: ids resolve to the same session for the rest of a suite. Once
  \<open>find_chargepoint\<close> resolves an id to a session, it resolves it to that session in
  every later state of any run of the system. Connections under the same id, keyword
  calls and dispatches in between change nothing, so the keywords keep addressing the
  first session registered under the id, also after the station has reconnected.\<close>

theorem sys_run_find_stable:
  "sys_run bc lib es = Some (outs, lib') \<Longrightarrow> lib_cs lib = Some cs \<Longrightarrow> find_chargepoint cs i = Inr k \<Longrightarrow>
   \<exists>cs'. lib_cs lib' = Some cs' \<and> find_chargepoint cs' i = Inr k"
  using sys_run_cs_steps cs_steps_find by blast

theorem sys_run_find_stable_witness:
  "\<exists>outs lib'. sys_run ac_bridge lib_sample
       [Server (SConnect ''/CP1'' ac0), Robot (KAddTrap ''CP1'' ''Heartbeat'')] = Some (outs, lib')
     \<and> (\<exists>cs'. lib_cs lib' = Some cs' \<and> find_chargepoint cs' ''CP1'' = Inr 0)"
proof -
  have f: "find_chargepoint cs_sample ''CP1'' = Inr 0"
    by (simp add: find_chargepoint_def cs_sample_def on_connect_def serve_def set_comm_def
        new_proxy_def py_strip_def rstrip_def is_slash_def upt_conv_Cons)
  have "\<exists>outs lib'. sys_run ac_bridge lib_sample
       [Server (SConnect ''/CP1'' ac0), Robot (KAddTrap ''CP1'' ''Heartbeat'')] = Some (outs, lib')"
    by (simp add: lib_sample_def split: prod.splits)
  then obtain outs lib' where r: "sys_run ac_bridge lib_sample
       [Server (SConnect ''/CP1'' ac0), Robot (KAddTrap ''CP1'' ''Heartbeat'')] = Some (outs, lib')" by blast
  have l: "lib_cs lib_sample = Some cs_sample" by (simp add: lib_sample_def)
  show ?thesis using r sys_run_find_stable [OF r l f] by blast
qed

end
