(* ===== verification/Spec2Isabelle.thy ===== *)
theory Spec2Isabelle
  imports KeywordMain SessionInterleaving UnitTests TestSystem
begin

text \<open>
  \<^bold>\<open>Verification development of the OCPP 1.6 test central system.\<close>
  The program under \<open>src/\<close> is a test harness: Robot Framework suites call the keyword
  library \<open>src/libs/centralsystem.py\<close>, which drives a central system
  (\<open>src/chargeamps/CentralSystem.py\<close>). The central system accepts websocket connections
  from charging stations and gives each one a session object
  (\<open>src/chargeamps/ChargePointProxy.py\<close>). That object queues the notifications the
  tests have trapped and sends requests to the station over a thread-to-event-loop bridge
  (\<open>src/chargeamps/AsyncCommunicator.py\<close>). The theories follow these parts bottom up.

  \<^item> \<open>Prelude\<close>: the exceptions the code raises and catches (\<open>py_exc\<close>, the classes of
    \<open>chargeamps.exceptions\<close> and the builtin ones), results \<open>py_exc + 'a\<close> with the
    exception on the left, and the builtins the code relies on: \<open>str.strip\<close>
    (\<open>py_strip\<close>), \<open>str.split\<close> (\<open>py_split\<close>), \<open>str(int)\<close> (\<open>py_str_int\<close>) and
    \<open>int(str)\<close> (\<open>py_int\<close>), with the round trip \<open>py_int (py_str_int i) = Inr i\<close> and
    the split/join round trips.
  \<^item> \<open>Ocpp\<close>: the payloads of the \<open>ocpp\<close> library the sources build or read (requests,
    notifications, results), the attribute reads \<open>resp.status\<close> and
    \<open>resp.configuration_key\<close>, and the two timestamp formats of the handlers.
  \<^item> \<open>ChargePointProxy\<close>: the session. The record \<open>cp_proxy\<close> holds the fields set in
    \<open>__init__\<close>: the id, the queue \<open>msgq\<close>, the communicator \<open>comm\<close> and the trap set
    \<open>awaited_msgs\<close>. Each method is one definition returning the new state:
    \<open>on_boot_notification\<close>, \<open>on_heartbeat\<close>, \<open>on_status_notification\<close>, their routing
    \<open>route_message\<close>, \<open>trigger_message\<close>, the \<open>light_intensity\<close> getter and setter,
    \<open>add_msg_trap\<close>, \<open>wait_msg\<close> and \<open>clear_msg_queue\<close>. The communicator is a type
    variable \<open>'c\<close>, and the operations that call the station take the bridge
    \<open>'c bridge\<close> that answers a request. They return the list of requests they sent,
    so "no request is sent" is a statement. \<open>proxy_step\<close> and \<open>proxy_run\<close> run a
    sequence of events (inbound calls, traps, waits, clears) on one session. The lemmas
    give the behaviour of every operation on every branch, errors included, and the
    queue discipline over any run: nothing delivered is lost or duplicated, in arrival
    order (C12 to C14).
  \<^item> \<open>AsyncCommunicator\<close>: \<open>blocking_call\<close> schedules the coroutine and polls
    \<open>task.done()\<close>. The event loop is the environment: it gives each request a future,
    seen as the polls at which it is done and its outcome. The polling loop is a
    \<open>partial_function (option)\<close>, and \<open>None\<close> is a caller that never returns. The lemmas
    show it returns the outcome once the future is done, hangs if it never is, stops
    at the first done poll, and is the bridge \<open>ac_bridge\<close> the proxy lemmas are stated
    over when all calls complete (C20, C21).
  \<^item> \<open>CentralSystem\<close>: the record \<open>central_system\<close> holds the list of registered
    sessions, the connection event, the address and port, and the stored thread value.
    The list is a store addressed by position: a session is changed in place
    (\<open>update_cp\<close>), as the Python objects shared by the list and the keyword library are.
    It also defines \<open>serve\<close>, \<open>__on_connect\<close> (\<open>on_connect\<close>: registration; the
    \<open>cp.start()\<close> loop is one \<open>dispatch\<close> per inbound call), \<open>find_chargepoint\<close>,
    \<open>wait_for_connection\<close> (\<open>None\<close> = blocked in \<open>Event.wait()\<close>) and \<open>is_active\<close>.
    The inductive \<open>cs_step\<close> interleaves connections, session events and waits, and
    \<open>cs_reach\<close> gives the states reachable from \<open>serve\<close>. The invariant is proved by
    rule induction. The lookup is equivalent to the source's list comprehension and to
    \<open>List.find\<close>, and no transition removes a session or changes its id (C22 to C25).
  \<^item> \<open>KeywordLib\<close>: the keyword library. Its only state is the central system it
    started (\<open>kw_lib\<close>; \<open>None\<close> before \<open>start_CentralSystem\<close>, where Python has no
    attribute \<open>cs\<close>). Each per-station keyword looks the session up with
    \<open>find_chargepoint\<close> and calls its method (\<open>with_chargepoint\<close>); the session's new
    state is written back to its place in the list. Python dictionaries of
    \<open>create_message\<close> and \<open>set_message_field\<close> are association lists in \<open>pyval\<close>,
    updated with \<open>AList.update\<close> (insertion order kept). The lemmas characterise
    \<open>set_message_field\<close> on a fresh message (C26, C27), as a nested dictionary insert
    on any message whose path it can walk (C28), and for a field name without a dot,
    which never stores the value (C29). It keeps dictionary keys distinct. The lemmas
    also cover the error paths of the keywords (C31).
  \<^item> \<open>KeywordMain\<close>: the script \<open>main()\<close> of the keyword library, as the sequence of its
    keyword calls. The other threads' moves between the calls are an environment acting
    on the registry, and \<open>while True: pass\<close> is a \<open>partial_function (option)\<close> that
    never returns. \<open>main()\<close> never returns normally (C30).
  \<^item> \<open>TestSystem\<close>: the running test system, the Robot thread and the server thread
    acting on the one central system the library holds. \<open>keyword_call\<close> is one keyword
    call of the Robot thread (\<open>src/libs/centralsystem.py\<close>), and \<open>server_move\<close> is one
    move of the server thread: \<open>__on_connect\<close> registering a station, or one turn of a
    connection's dispatch loop (\<open>src/chargeamps/CentralSystem.py\<close>). \<open>sys_exec\<close>
    takes either, in any order, and \<open>sys_run\<close> runs a schedule and collects what each
    step returned. \<open>sys_reach\<close> gives the states reachable from the start of a suite.
    Every step is a stutter or one \<open>cs_step\<close> of the registry, so the running system
    refines the registry's transition system (C35), and the registry invariants carry
    over to it. Every notification \<open>Wait For Message\<close> returns was dispatched earlier on
    a connection registered under the id the keyword named (C36). An id, once it
    resolves, resolves to the same session for the rest of the suite (C37). Each
    keyword call is atomic here; what happens inside one is the subject of
    \<open>SessionInterleaving\<close>.
  \<^item> \<open>SessionInterleaving\<close>: one session as its threads see it. The handlers run in the
    dispatch context, and \<open>add_msg_trap\<close>, \<open>wait_msg\<close> and \<open>clear_msg_queue\<close> run in
    caller threads. Each line of them that touches the proxy is an atomic step of
    \<open>sess_exec\<close>, and any interleaving of the steps is an execution (\<open>sess_run\<close>,
    \<open>sess_reach\<close>). The queue objects are an explicit store, because
    \<open>clear_msg_queue\<close> rebinds the attribute a blocked waiter has already read. The lemmas
    show that the sequential \<open>wait_msg\<close> is the uninterrupted case (a refinement), and
    that with one caller thread the trap of a waiting caller stays armed (an invariant by
    rule induction). With two caller threads, a \<open>KeyError\<close> loses a notification, and a
    clear strands a blocked waiter. Whether a notification is seen depends on the order
    of the trap and the dispatch (C15 to C18).
  \<^item> \<open>UnitTests\<close>: the tests of \<open>src/tests/test_chargepointproxy.py\<close>, one boolean
    definition each, with the \<open>Mock\<close> communicator as a constant bridge. Every test
    passes on the model (\<open>unit_tests_pass\<close>), which checks the proxy model against the
    repository's own expectations.
  \<^item> This theory: properties that span the components, stated over the keyword library
    driving the registry, the sessions and the bridge together (C32 to C34).

  Bounds and fuel: no fuel is used. The loops that may not end, the polling loop of the
  bridge and \<open>while True: pass\<close> of \<open>main()\<close>, are \<open>partial_function (option)\<close>s. The
  polling loop's returning is proved as such (C20), and \<open>spin\<close> is proved never to
  return. The
  keyword-level theorems use the bridge \<open>\<lambda>c r. the (blocking_call c r)\<close>, and
  the hypothesis that the scheduled call completes makes \<open>the\<close> exact there (C34). The
  wait in \<open>wait_msg\<close> (\<open>msgq.get(timeout=timeout)\<close>) is modelled in two ways. In
  \<open>ChargePointProxy\<close> it is sequential: the queue holds what arrived before the wait, and
  an empty queue is the timeout. In \<open>SessionInterleaving\<close> the wait is a blocked state
  that takes an item as soon as one is queued, or times out while its queue is empty.
  The timeout's length is not modelled, and neither is the 0.1 s polling period of the
  bridge: only the order of events matters to the properties. The dispatch loop
  processes calls one at a time, so the interleavings of the transition systems are
  those of their steps.

  Not modelled: sockets and the \<open>websockets\<close> server beyond its moves (\<open>serve_\<close> is the
  transition system \<open>cs_step\<close>: accept a connection, or run a dispatch step), the
  \<open>asyncio\<close> event loop, the \<open>ocpp\<close> library's framing, validation and message ids (an inbound call
  reaches a handler already decoded), Robot's console logger (no effect on state),
  and the sleeps (\<open>time.sleep\<close> in \<open>wait_for_ChargePoint_to_connect\<close> and in the polling
  loop; only the order of events matters). \<open>is_active\<close> is modelled as what it does, always raising
  \<open>AttributeError\<close>, since \<open>serve\<close> stores the \<open>None\<close> returned by
  \<open>Thread.start()\<close>.
\<close>

section \<open>Properties across the components\<close>

text \<open>C32: the keyword flow of the test suites works on a registered station whose queue
  is empty: \<open>Add Message Trap\<close> arms the trap on the proxy \<open>find_chargepoint\<close> picks, a
  \<open>Heartbeat\<close> arriving on that proxy's connection is queued by the dispatch loop, and
  \<open>Wait For Message\<close> returns it.\<close>

theorem keyword_trap_dispatch_wait:
  assumes "lib_cs lib = Some cs" "find_chargepoint cs i = Inr k"
    "msgq (connected_chargepoints cs ! k) = []"
  shows "let lib1 = snd (add_msg_trap_kw lib i ''Heartbeat'');
             cs2 = fst (dispatch (the (lib_cs lib1)) k ''Heartbeat'' [] now)
         in fst (wait_for_msg (lib1\<lparr>lib_cs := Some cs2\<rparr>) i ''Heartbeat'') = Inr HeartbeatPayload"
proof -
  let ?p = "connected_chargepoints cs ! k"
  let ?p1 = "add_msg_trap ?p (Some ''Heartbeat'')"
  let ?cs1 = "update_cp cs k (\<lambda>_. ?p1)"
  let ?p2 = "trap_put ?p1 ''Heartbeat'' HeartbeatPayload"
  have lib1: "snd (add_msg_trap_kw lib i ''Heartbeat'') = lib\<lparr>lib_cs := Some ?cs1\<rparr>"
    using assms(1,2) by (simp add: add_msg_trap_kw_def with_chargepoint_def)
  have f1: "find_chargepoint ?cs1 i = Inr k \<and> connected_chargepoints ?cs1 ! k = ?p1"
    using find_chargepoint_write_back [OF assms(2), of ?p1] by (simp add: add_msg_trap_def)
  then have d: "fst (dispatch ?cs1 k ''Heartbeat'' [] now) = update_cp ?cs1 k (\<lambda>_. ?p2)"
    by (simp add: dispatch_def route_message_def on_heartbeat_def)
  have f2: "find_chargepoint (update_cp ?cs1 k (\<lambda>_. ?p2)) i = Inr k
      \<and> connected_chargepoints (update_cp ?cs1 k (\<lambda>_. ?p2)) ! k = ?p2"
    using f1 find_chargepoint_write_back [of ?cs1 i k ?p2] by (simp add: trap_put_fields)
  have q: "msgq ?p2 = [HeartbeatPayload]"
    using assms(3) by (simp add: trap_put_fields add_msg_trap_def)
  show ?thesis
    using lib1 d f2 wait_msg_head [OF q] by (simp add: wait_for_msg_def with_chargepoint_def)
qed

theorem keyword_trap_dispatch_wait_witness:
  "let lib1 = snd (add_msg_trap_kw lib_sample ''CP2'' ''Heartbeat'');
       cs2 = fst (dispatch (the (lib_cs lib1)) 1 ''Heartbeat'' [] now0)
   in fst (wait_for_msg (lib1\<lparr>lib_cs := Some cs2\<rparr>) ''CP2'' ''Heartbeat'') = Inr HeartbeatPayload"
proof -
  have "find_chargepoint cs_sample ''CP2'' = Inr 1"
    by (simp add: find_chargepoint_def cs_sample_def on_connect_def serve_def set_comm_def
        new_proxy_def py_strip_def rstrip_def is_slash_def upt_conv_Cons)
  moreover have "msgq (connected_chargepoints cs_sample ! 1) = []"
    by (simp add: cs_sample_def on_connect_def serve_def set_comm_def new_proxy_def)
  ultimately show ?thesis
    using keyword_trap_dispatch_wait [of lib_sample cs_sample "''CP2''" 1 now0]
    by (simp add: lib_sample_def)
qed

text \<open>C33: when a station reconnects under an id already registered, the keywords keep
  addressing the earlier session: a trap armed by \<open>Add Message Trap\<close> goes to the old
  proxy, the \<open>Heartbeat\<close> the station sends on its new connection is dropped by the new
  proxy, which has no trap, and \<open>Wait For Message\<close> times out.\<close>

theorem reconnect_wait_times_out:
  assumes "lib_cs lib = Some cs" "find_chargepoint cs i = Inr k" "py_strip is_slash path = i"
    "msgq (connected_chargepoints cs ! k) = []"
  shows "let cs1 = on_connect cs path ac;
             lib1 = snd (add_msg_trap_kw (lib\<lparr>lib_cs := Some cs1\<rparr>) i ''Heartbeat'');
             cs2 = fst (dispatch (the (lib_cs lib1)) (length (connected_chargepoints cs)) ''Heartbeat'' [] now)
         in fst (wait_for_msg (lib1\<lparr>lib_cs := Some cs2\<rparr>) i ''Heartbeat'')
            = Inl (TimeoutException ''Wait timedout, no message received'')"
proof -
  let ?n = "length (connected_chargepoints cs)"
  let ?p = "connected_chargepoints cs ! k"
  let ?new = "set_comm (new_proxy i None) ac"
  let ?cs1 = "on_connect cs path ac"
  let ?p1 = "add_msg_trap ?p (Some ''Heartbeat'')"
  let ?cs1' = "update_cp ?cs1 k (\<lambda>_. ?p1)"
  have k: "k < ?n" using assms(2) find_chargepoint_Inr by blast
  have f1: "find_chargepoint ?cs1 i = Inr k" using assms(2) by (simp add: find_chargepoint_on_connect)
  have n1: "connected_chargepoints ?cs1 ! k = ?p" "connected_chargepoints ?cs1 ! ?n = ?new"
    using k assms(3) by (simp_all add: on_connect_prefix nth_append)
  have lib1: "snd (add_msg_trap_kw (lib\<lparr>lib_cs := Some ?cs1\<rparr>) i ''Heartbeat'') = lib\<lparr>lib_cs := Some ?cs1'\<rparr>"
    using f1 n1 by (simp add: add_msg_trap_kw_def with_chargepoint_def)
  have f2: "find_chargepoint ?cs1' i = Inr k \<and> connected_chargepoints ?cs1' ! k = ?p1"
    using find_chargepoint_write_back [OF f1, of ?p1] n1 by (simp add: add_msg_trap_def)
  have nn: "connected_chargepoints ?cs1' ! ?n = ?new"
    using k n1 by (simp add: update_cp_def)
  have d: "fst (dispatch ?cs1' ?n ''Heartbeat'' [] now) = ?cs1'"
  proof -
    have "trap_put ?new ''Heartbeat'' HeartbeatPayload = ?new"
      by (simp add: trap_put_def set_comm_def new_proxy_def)
    then have "fst (dispatch ?cs1' ?n ''Heartbeat'' [] now) = update_cp ?cs1' ?n (\<lambda>_. ?new)"
      using nn by (simp add: dispatch_def route_message_def on_heartbeat_def)
    also have "\<dots> = ?cs1'" using update_cp_id [of ?cs1' ?n] nn by simp
    finally show ?thesis .
  qed
  have q: "msgq ?p1 = []" using assms(4) by (simp add: add_msg_trap_def)
  show ?thesis
    using lib1 d f2 wait_msg_empty [OF q] by (simp add: wait_for_msg_def with_chargepoint_def)
qed

theorem reconnect_wait_times_out_witness:
  "let cs1 = on_connect cs_sample ''/CP2'' ac0;
       lib1 = snd (add_msg_trap_kw (lib_sample\<lparr>lib_cs := Some cs1\<rparr>) ''CP2'' ''Heartbeat'');
       cs2 = fst (dispatch (the (lib_cs lib1)) 3 ''Heartbeat'' [] now0)
   in fst (wait_for_msg (lib1\<lparr>lib_cs := Some cs2\<rparr>) ''CP2'' ''Heartbeat'')
      = Inl (TimeoutException ''Wait timedout, no message received'')"
proof -
  have "find_chargepoint cs_sample ''CP2'' = Inr 1"
    by (simp add: find_chargepoint_def cs_sample_def on_connect_def serve_def set_comm_def
        new_proxy_def py_strip_def rstrip_def is_slash_def upt_conv_Cons)
  moreover have "msgq (connected_chargepoints cs_sample ! 1) = []"
    by (simp add: cs_sample_def on_connect_def serve_def set_comm_def new_proxy_def)
  moreover have "py_strip is_slash ''/CP2'' = ''CP2''" by (simp add: py_strip_def rstrip_def is_slash_def)
  moreover have "length (connected_chargepoints cs_sample) = 3" by (simp add: cs_sample_def on_connect_def serve_def)
  ultimately show ?thesis
    using reconnect_wait_times_out [of lib_sample cs_sample "''CP2''" 1 "''/CP2''" ac0 now0]
    by (simp add: lib_sample_def)
qed

text \<open>C34: a station connecting under a new id can be triggered at once through the
  keyword library, over the bridge the connection installs: when the scheduled
  \<open>TriggerMessage\<close> call completes with \<open>Accepted\<close>, \<open>Send TriggerMessage\<close> returns and
  the library is unchanged.\<close>

theorem trigger_new_station:
  assumes "lib_cs lib = Some cs" "find_chargepoint cs i = Inl e" "py_strip is_slash path = i"
    "m \<in> set triggable_msgs" "fut_done (ac_call ac (TriggerMessagePayload m)) n"
    "fut_outcome (ac_call ac (TriggerMessagePayload m)) = Inr (TriggerMessageResult ''Accepted'')"
  shows "let lib1 = lib\<lparr>lib_cs := Some (on_connect cs path ac)\<rparr>
         in send_TriggerMessage (\<lambda>c req. the (blocking_call c req)) lib1 i m = (Inr (), lib1)"
proof -
  let ?n = "length (connected_chargepoints cs)"
  let ?cs1 = "on_connect cs path ac"
  let ?new = "set_comm (new_proxy i None) ac"
  have f: "find_chargepoint ?cs1 i = Inr ?n" using assms(2,3) by (simp add: find_chargepoint_on_connect)
  have p: "connected_chargepoints ?cs1 ! ?n = ?new" using assms(3) by (simp add: on_connect_prefix)
  have b: "the (blocking_call ac (TriggerMessagePayload m)) = Inr (TriggerMessageResult ''Accepted'')"
    using blocking_call_done [OF assms(5)] assms(6) by (simp add: ac_bridge_def)
  have t: "fst (trigger_message (\<lambda>c req. the (blocking_call c req)) ?new m)
      = Inr (TriggerMessageResult ''Accepted'')"
    using assms(4) b by (simp add: trigger_message_def set_comm_def new_proxy_def)
  have u: "update_cp ?cs1 ?n (\<lambda>_. ?new) = ?cs1" using update_cp_id [of ?cs1 ?n] p by simp
  show ?thesis using f p t u by (simp add: Let_def send_TriggerMessage_def with_chargepoint_def)
qed

theorem trigger_new_station_witness:
  "let lib1 = lib_sample\<lparr>lib_cs := Some (on_connect cs_sample ''/CP3'' ac0)\<rparr>
   in send_TriggerMessage (\<lambda>c req. the (blocking_call c req)) lib1 ''CP3'' ''Heartbeat'' = (Inr (), lib1)"
proof -
  have "find_chargepoint cs_sample ''CP3'' = Inl (Exception ''Chargepoint CP3 not connected'')"
    by (simp add: find_chargepoint_def cs_sample_def on_connect_def serve_def set_comm_def
        new_proxy_def py_strip_def rstrip_def is_slash_def upt_conv_Cons)
  moreover have "py_strip is_slash ''/CP3'' = ''CP3''" by (simp add: py_strip_def rstrip_def is_slash_def)
  moreover have "''Heartbeat'' \<in> set triggable_msgs" by (simp add: triggable_msgs_def)
  ultimately show ?thesis
    using trigger_new_station [of lib_sample cs_sample "''CP3''" _ "''/CP3''" "''Heartbeat''" ac0 1]
    by (simp add: lib_sample_def ac0_def sample_ac_def)
qed

end
